theory Spec2Isabelle
  imports Complex_Main "HOL-Library.Sublist"
begin

section \<open>Values crossing the program's boundary\<close>

text \<open>
  Every call into the browser driver, the network or an owner-supplied callback can raise.
  The outcome of such a call is a value: \<open>Raised\<close> when an exception came out of it,
  \<open>Returned x\<close> otherwise.
\<close>

datatype 'a outcome = Raised | Returned 'a

text \<open>
  A decoded JSON document, as Python's \<open>json\<close> module hands it over: \<open>None\<close>, \<open>bool\<close>,
  \<open>int\<close>, \<open>float\<close> (a real here; NaN and infinities are not modelled), \<open>str\<close>, \<open>list\<close>
  and \<open>dict\<close> (an association list with distinct keys, looked up with \<open>map_of\<close>).
  Strings are lists of 8-bit characters.
\<close>

datatype json =
    JNull
  | JBool bool
  | JInt int
  | JFloat real
  | JStr string
  | JArr "json list"
  | JObj "(string \<times> json) list"

text \<open>Python truthiness (\<open>bool(x)\<close>, \<open>if x\<close>, \<open>x and y\<close>).\<close>

fun truthy :: "json \<Rightarrow> bool" where
  "truthy JNull = False"
| "truthy (JBool b) = b"
| "truthy (JInt i) = (i \<noteq> 0)"
| "truthy (JFloat r) = (r \<noteq> 0)"
| "truthy (JStr s) = (s \<noteq> [])"
| "truthy (JArr xs) = (xs \<noteq> [])"
| "truthy (JObj kvs) = (kvs \<noteq> [])"

text \<open>\<open>x.get(key)\<close>: only a dict has the method; every other value raises AttributeError.\<close>

fun dict_get :: "json \<Rightarrow> string \<Rightarrow> json outcome" where
  "dict_get (JObj kvs) k = Returned (case map_of kvs k of None \<Rightarrow> JNull | Some v \<Rightarrow> v)"
| "dict_get _ k = Raised"

text \<open>\<open>x.get(key, default)\<close>.\<close>

fun dict_get_default :: "json \<Rightarrow> string \<Rightarrow> json \<Rightarrow> json outcome" where
  "dict_get_default (JObj kvs) k d = Returned (case map_of kvs k of None \<Rightarrow> d | Some v \<Rightarrow> v)"
| "dict_get_default _ k d = Raised"

text \<open>
  Python's \<open>==\<close> on decoded JSON values: booleans, ints and floats compare by numeric value
  (\<open>True == 1\<close>, \<open>5 == 5.0\<close>), strings and \<open>None\<close> by value, lists element by element, dicts
  by key with equal values; values of different kinds are unequal.
\<close>

fun py_num :: "json \<Rightarrow> real option" where
  "py_num (JBool b) = Some (if b then 1 else 0)"
| "py_num (JInt i) = Some (of_int i)"
| "py_num (JFloat r) = Some r"
| "py_num _ = None"

fun py_eq :: "json \<Rightarrow> json \<Rightarrow> bool" where
  "py_eq JNull JNull = True"
| "py_eq (JStr a) (JStr b) = (a = b)"
| "py_eq (JArr xs) (JArr ys) = list_all2 py_eq xs ys"
| "py_eq (JObj xs) (JObj ys) =
     (length xs = length ys \<and>
      (\<forall>p \<in> set xs. case map_of ys (fst p) of None \<Rightarrow> False | Some w \<Rightarrow> py_eq (snd p) w))"
| "py_eq a b = (case (py_num a, py_num b) of (Some x, Some y) \<Rightarrow> x = y | _ \<Rightarrow> False)"

section \<open>String helpers of the Python code\<close>

text \<open>\<open>needle in hay\<close> on strings.\<close>

fun contains :: "string \<Rightarrow> string \<Rightarrow> bool" where
  "contains needle [] = (needle = [])"
| "contains needle (c # cs) = (prefix needle (c # cs) \<or> contains needle cs)"

text \<open>\<open>s.strip("/")\<close> and \<open>s.split("/")[0]\<close>.\<close>

definition strip_slashes :: "string \<Rightarrow> string" where
  "strip_slashes s =
     rev (dropWhile (\<lambda>c. c = CHR ''/'') (rev (dropWhile (\<lambda>c. c = CHR ''/'') s)))"

definition first_segment :: "string \<Rightarrow> string" where
  "first_segment s = takeWhile (\<lambda>c. c \<noteq> CHR ''/'') s"

section \<open>core/api.py and utils/helpers.py: the direct liveness probe\<close>

text \<open>
  \<open>urllib.parse.urlparse\<close> belongs to the standard library, not to the repository. The
  functions below take it as a parameter \<open>urlparse\<close>, which either raises (ValueError) or
  returns the two components the code reads.
\<close>

record url_parts =
  netloc :: string
  path :: string

type_synonym urlparse = "string \<Rightarrow> url_parts outcome"

text \<open>
  The HTTP request of \<open>kick_live_status_by_api\<close> (\<open>urlopen\<close> followed by \<open>json.load\<close>),
  as a function from the requested address to the decoded body, or \<open>Raised\<close> when the
  request or the decoding fails.
\<close>

type_synonym http = "string \<Rightarrow> json outcome"

definition domain_from_url :: "urlparse \<Rightarrow> string \<Rightarrow> string outcome" where
  "domain_from_url up u = (case up u of Raised \<Rightarrow> Raised | Returned p \<Rightarrow> Returned (netloc p))"

definition kick_username_from_url :: "urlparse \<Rightarrow> string \<Rightarrow> string option" where
  "kick_username_from_url up u =
     (case up u of
        Raised \<Rightarrow> None
      | Returned p \<Rightarrow>
          if \<not> contains ''kick.com'' (netloc p) then None
          else (let username = first_segment (strip_slashes (path p))
                in if username = [] then None else Some username))"

definition channel_api_url :: "string \<Rightarrow> string" where
  "channel_api_url username = ''https://kick.com/api/v2/channels/'' @ username"

text \<open>\<open>bool(livestream and livestream.get("is_live"))\<close> for \<open>livestream = data.get("livestream")\<close>.\<close>

definition livestream_is_live :: "json \<Rightarrow> bool outcome" where
  "livestream_is_live livestream =
     (if truthy livestream
      then (case dict_get livestream ''is_live'' of
              Raised \<Rightarrow> Raised
            | Returned v \<Rightarrow> Returned (truthy v))
      else Returned False)"

definition kick_live_status_by_api :: "urlparse \<Rightarrow> http \<Rightarrow> string \<Rightarrow> bool option" where
  "kick_live_status_by_api up http u =
     (case up u of
        Raised \<Rightarrow> None
      | Returned p \<Rightarrow>
          if \<not> contains ''kick.com'' (netloc p) then None
          else (let username = first_segment (strip_slashes (path p))
                in if username = [] then None
                   else (case http (channel_api_url username) of
                           Raised \<Rightarrow> None
                         | Returned data \<Rightarrow>
                             (case dict_get data ''livestream'' of
                                Raised \<Rightarrow> None
                              | Returned livestream \<Rightarrow>
                                  (case livestream_is_live livestream of
                                     Raised \<Rightarrow> None
                                   | Returned b \<Rightarrow> Some b)))))"

definition kick_is_live_by_api :: "urlparse \<Rightarrow> http \<Rightarrow> string \<Rightarrow> bool" where
  "kick_is_live_by_api up http u =
     (case kick_live_status_by_api up http u of None \<Rightarrow> True | Some status \<Rightarrow> status)"

section \<open>core/worker.py: the session state\<close>

text \<open>
  The attributes of \<open>StreamWorker\<close> that the supervision loop reads or writes. The driver
  object is represented by whether \<open>self.driver\<close> has been set; the callbacks by whether
  they were supplied (what they do when called is part of the environment). Attributes that
  only parametrise browser start-up and player styling (driver path, extension path, mute,
  hide, mini-player, forced quality) do not influence the loop and are left out. Clock
  values and intervals are Python floats; they are real numbers here.
\<close>

record worker =
  url :: string
  minutes_target :: int
  on_update :: bool
  on_finish :: bool
  elapsed_seconds :: int
  driver :: bool
  completed :: bool
  ended_because_offline :: bool
  ended_because_wrong_category :: bool
  required_category_id :: json
  cumulative_time_callback :: bool
  offline_fresh_checks :: int
  offline_fresh_checks_to_switch :: int
  last_live_check :: real
  last_live_value :: bool
  live_check_interval :: real
  last_live_source :: string
  last_category_check :: real
  category_check_interval :: real

text \<open>
  \<open>StreamWorker.__init__\<close>. The arguments are, in this order: \<open>url\<close>, \<open>minutes_target\<close>,
  whether \<open>on_update\<close> and \<open>on_finish\<close> are given, \<open>offline_fresh_checks_to_switch\<close>
  (an int; the default is 2), \<open>required_category_id\<close> (\<open>JNull\<close> for \<open>None\<close>) and whether
  \<open>cumulative_time_callback\<close> is given.
\<close>

definition StreamWorker_init ::
  "string \<Rightarrow> int \<Rightarrow> bool \<Rightarrow> bool \<Rightarrow> int \<Rightarrow> json \<Rightarrow> bool \<Rightarrow> worker" where
  "StreamWorker_init u minutes upd fin to_switch category cumulative =
     \<lparr> url = u,
       minutes_target = minutes,
       on_update = upd,
       on_finish = fin,
       elapsed_seconds = 0,
       driver = False,
       completed = False,
       ended_because_offline = False,
       ended_because_wrong_category = False,
       required_category_id = category,
       cumulative_time_callback = cumulative,
       offline_fresh_checks = 0,
       offline_fresh_checks_to_switch = max 0 to_switch,
       last_live_check = 0,
       last_live_value = True,
       live_check_interval = 10,
       last_live_source = ''unknown'',
       last_category_check = 0,
       category_check_interval = 30 \<rparr>"

text \<open>
  What a session does that its owner or the browser can observe: each attempt to use a
  liveness source, each category probe (with the clock value stored for it), each progress
  callback, each call of the cumulative-time accessor, the driver shutdown and the terminal
  callback.
\<close>

datatype event =
    BrowserApiFetch
  | PageStateRead
  | BodyTextRead
  | CategoryProbe real
  | OnUpdate int bool
  | CumulativeTimeCall
  | DriverQuit
  | OnFinish int bool

section \<open>core/worker.py: is_stream_live\<close>

text \<open>
  The pattern of the page-state source is the raw string
  \<^verbatim>\<open>r"\"is_live\"\\s*:\\s*(true|false)"\<close>, searched with \<open>re.IGNORECASE\<close>. In a raw string
  every backslash stays in the pattern, so the regular expression reads: a double quote,
  \<open>is_live\<close>, a double quote, a literal backslash (\<^verbatim>\<open>\\\<close>), any number of letters \<open>s\<close>
  (\<^verbatim>\<open>s*\<close>), a colon, a literal backslash, any number of letters \<open>s\<close>, and then
  \<open>true\<close> or \<open>false\<close>. Neither repetition can give a character back: what follows it
  (a colon, a \<open>t\<close> or an \<open>f\<close>) is not an \<open>s\<close>.
\<close>

definition lower_char :: "char \<Rightarrow> char" where
  "lower_char c =
     (case map_of (zip ''ABCDEFGHIJKLMNOPQRSTUVWXYZ'' ''abcdefghijklmnopqrstuvwxyz'') c of
        None \<Rightarrow> c | Some l \<Rightarrow> l)"

text \<open>Match a literal at the start of the text, ignoring case; the result is the rest.\<close>

fun match_ci :: "string \<Rightarrow> string \<Rightarrow> string option" where
  "match_ci [] t = Some t"
| "match_ci (p # ps) [] = None"
| "match_ci (p # ps) (c # cs) =
     (if lower_char c = lower_char p then match_ci ps cs else None)"

definition skip_s :: "string \<Rightarrow> string" where
  "skip_s t = dropWhile (\<lambda>c. lower_char c = CHR ''s'') t"

text \<open>
  The pattern matched at the start of the text; the result is
  \<open>m.group(1).lower() == "true"\<close>.
\<close>

definition is_live_pattern_at :: "string \<Rightarrow> bool option" where
  "is_live_pattern_at t =
     (case match_ci (CHR 0x22 # ''is_live'' @ [CHR 0x22, CHR 0x5C]) t of
        None \<Rightarrow> None
      | Some r1 \<Rightarrow>
          (case match_ci [CHR '':'', CHR 0x5C] (skip_s r1) of
             None \<Rightarrow> None
           | Some r2 \<Rightarrow>
               (if match_ci ''true'' (skip_s r2) \<noteq> None then Some True
                else if match_ci ''false'' (skip_s r2) \<noteq> None then Some False
                else None)))"

text \<open>\<open>re.search\<close>: the leftmost position where the pattern matches.\<close>

fun is_live_search :: "string \<Rightarrow> bool option" where
  "is_live_search [] = is_live_pattern_at []"
| "is_live_search (c # cs) =
     (case is_live_pattern_at (c # cs) of Some b \<Rightarrow> Some b | None \<Rightarrow> is_live_search cs)"

text \<open>
  \<open>str.upper()\<close> on 8-bit text: ASCII and Latin-1 lower-case letters go to their capitals,
  the sharp s (0xDF) to \<open>SS\<close>. The capitals of 0xB5 and 0xFF lie outside the 8-bit range;
  they are left as they are (neither is an ASCII character, so neither can be part of a
  marker).
\<close>

definition lower_letters :: "string" where
  "lower_letters =
     ''abcdefghijklmnopqrstuvwxyz'' @
     [CHR 0xE0, CHR 0xE1, CHR 0xE2, CHR 0xE3, CHR 0xE4, CHR 0xE5, CHR 0xE6, CHR
      0xE7, CHR 0xE8, CHR 0xE9, CHR 0xEA, CHR 0xEB, CHR 0xEC, CHR 0xED, CHR 0xEE,
      CHR 0xEF, CHR 0xF0, CHR 0xF1, CHR 0xF2, CHR 0xF3, CHR 0xF4, CHR 0xF5, CHR
      0xF6, CHR 0xF8, CHR 0xF9, CHR 0xFA, CHR 0xFB, CHR 0xFC, CHR 0xFD, CHR 0xFE]"

definition upper_letters :: "string" where
  "upper_letters =
     ''ABCDEFGHIJKLMNOPQRSTUVWXYZ'' @
     [CHR 0xC0, CHR 0xC1, CHR 0xC2, CHR 0xC3, CHR 0xC4, CHR 0xC5, CHR 0xC6, CHR
      0xC7, CHR 0xC8, CHR 0xC9, CHR 0xCA, CHR 0xCB, CHR 0xCC, CHR 0xCD, CHR 0xCE,
      CHR 0xCF, CHR 0xD0, CHR 0xD1, CHR 0xD2, CHR 0xD3, CHR 0xD4, CHR 0xD5, CHR
      0xD6, CHR 0xD8, CHR 0xD9, CHR 0xDA, CHR 0xDB, CHR 0xDC, CHR 0xDD, CHR 0xDE]"

definition upper_char :: "char \<Rightarrow> string" where
  "upper_char c =
     (if c = CHR 0xDF then ''SS''
      else (case map_of (zip lower_letters upper_letters) c of
              None \<Rightarrow> [c] | Some u \<Rightarrow> [u]))"

definition upper :: "string \<Rightarrow> string" where
  "upper s = concat (map upper_char s)"

definition offline_markers :: "string list" where
  "offline_markers =
     [''OFFLINE'', ''IS OFFLINE'', ''CHANNEL IS OFFLINE'', ''NOT LIVE'', ''HORS LIGNE'',
      ''N'' @ [CHR 0x27] @ ''EST PAS EN DIRECT'']"

text \<open>
  What one call of \<open>is_stream_live\<close> gets from outside: the clock, the outcome of the
  in-page fetch followed by \<open>json.loads\<close> (\<open>Returned None\<close> when the script gave an empty
  text, \<open>Raised\<close> when the script or the decoding raised), the outcome of the page-state
  script (\<open>Returned None\<close> when it gave something that is not a string), the outcome of
  reading the body text, and the value drawn by \<open>random.uniform(-3, 3)\<close>.
\<close>

record live_env =
  now :: real
  api_reply :: "json option outcome"
  state_text :: "string option outcome"
  body_text :: "string outcome"
  jitter :: real

fun is_dict :: "json \<Rightarrow> bool" where
  "is_dict (JObj kvs) = True"
| "is_dict _ = False"

text \<open>The three sources; \<open>None\<close> means the source settled nothing and the next one is tried.\<close>

definition browser_api_source :: "json option outcome \<Rightarrow> bool option" where
  "browser_api_source r =
     (case r of
        Raised \<Rightarrow> None
      | Returned None \<Rightarrow> None
      | Returned (Some data) \<Rightarrow>
          (if is_dict data \<and> (case dict_get data ''error'' of
                                  Raised \<Rightarrow> False | Returned err \<Rightarrow> \<not> truthy err)
           then (case dict_get data ''livestream'' of
                   Raised \<Rightarrow> None
                 | Returned livestream \<Rightarrow>
                     (case livestream_is_live livestream of
                        Raised \<Rightarrow> None
                      | Returned b \<Rightarrow> Some b))
           else None))"

definition page_state_source :: "string option outcome \<Rightarrow> bool option" where
  "page_state_source r =
     (case r of
        Raised \<Rightarrow> None
      | Returned None \<Rightarrow> None
      | Returned (Some t) \<Rightarrow> if t \<noteq> [] then is_live_search t else None)"

definition dom_source :: "string outcome \<Rightarrow> bool option" where
  "dom_source r =
     (case r of
        Raised \<Rightarrow> None
      | Returned text \<Rightarrow>
          if list_ex (\<lambda>m. contains m (upper text)) offline_markers then Some False else None)"

text \<open>
  The sources in the order of the code. The result is the value a source settled, with the
  name recorded for it, and the sources that were attempted.
\<close>

definition dom_fallback :: "live_env \<Rightarrow> event list \<Rightarrow> (bool \<times> string) option \<times> event list" where
  "dom_fallback e evs =
     (case dom_source (body_text e) of
        Some b \<Rightarrow> (Some (b, ''dom_offline''), evs @ [BodyTextRead])
      | None \<Rightarrow> (None, evs @ [BodyTextRead]))"

definition probe_sources ::
  "urlparse \<Rightarrow> worker \<Rightarrow> live_env \<Rightarrow> (bool \<times> string) option \<times> event list" where
  "probe_sources up w e =
     (case kick_username_from_url up (url w) of
        Some username \<Rightarrow>
          (case browser_api_source (api_reply e) of
             Some b \<Rightarrow> (Some (b, ''browser_api''), [BrowserApiFetch])
           | None \<Rightarrow>
               (case page_state_source (state_text e) of
                  Some b \<Rightarrow> (Some (b, ''page_state''), [BrowserApiFetch, PageStateRead])
                | None \<Rightarrow> dom_fallback e [BrowserApiFetch, PageStateRead]))
      | None \<Rightarrow> dom_fallback e [])"

text \<open>
  \<open>is_stream_live\<close>: the returned value, the session afterwards and the sources attempted.
  The cached branch returns before the \<open>try\<close>, so its \<open>finally\<close> clause does not run. The
  outer \<open>except\<close> clause has no statement before it that can raise outside an inner
  \<open>try\<close>, so it has no branch here.
\<close>

definition is_stream_live :: "urlparse \<Rightarrow> worker \<Rightarrow> live_env \<Rightarrow> bool \<times> worker \<times> event list" where
  "is_stream_live up w e =
     (if now e - last_live_check w < live_check_interval w
      then (last_live_value w, w, [])
      else
        (let (settled, evs) = probe_sources up w e;
             w1 = (case settled of
                     Some (v, src) \<Rightarrow> w\<lparr>last_live_value := v, last_live_source := src\<rparr>
                   | None \<Rightarrow> w\<lparr>last_live_source := ''unknown''\<rparr>);
             base_interval = (if last_live_value w1 then 8 else 5);
             w2 = w1\<lparr>live_check_interval := max 4 (base_interval + jitter e),
                     last_live_check := now e\<rparr>
         in (last_live_value w1, w2, evs)))"

section \<open>core/worker.py: get_streamer_category_id\<close>

text \<open>\<open>len(x) > 0\<close>: numbers, booleans and \<open>None\<close> have no length (TypeError).\<close>

fun len_positive :: "json \<Rightarrow> bool outcome" where
  "len_positive (JStr s) = Returned (s \<noteq> [])"
| "len_positive (JArr xs) = Returned (xs \<noteq> [])"
| "len_positive (JObj kvs) = Returned (kvs \<noteq> [])"
| "len_positive _ = Raised"

text \<open>
  \<open>x[0]\<close>: the first element of a list (IndexError when empty), the first character of a
  string; a decoded dict has string keys only, so the key \<open>0\<close> is missing (KeyError);
  other values cannot be indexed (TypeError).
\<close>

fun index_zero :: "json \<Rightarrow> json outcome" where
  "index_zero (JArr (x # xs)) = Returned x"
| "index_zero (JStr (c # cs)) = Returned (JStr [c])"
| "index_zero _ = Raised"

text \<open>The part of the function after \<open>data = json.loads(text) if text else None\<close>.\<close>

definition first_category_id :: "json \<Rightarrow> json outcome" where
  "first_category_id data =
     (if is_dict data \<and> (case dict_get data ''error'' of
                             Raised \<Rightarrow> False | Returned err \<Rightarrow> \<not> truthy err)
      then (case dict_get data ''livestream'' of
              Raised \<Rightarrow> Raised
            | Returned livestream \<Rightarrow>
                (case livestream_is_live livestream of
                   Raised \<Rightarrow> Raised
                 | Returned False \<Rightarrow> Returned JNull
                 | Returned True \<Rightarrow>
                     (case dict_get_default livestream ''categories'' (JArr []) of
                        Raised \<Rightarrow> Raised
                      | Returned categories \<Rightarrow>
                          if \<not> truthy categories then Returned JNull
                          else (case len_positive categories of
                                  Raised \<Rightarrow> Raised
                                | Returned False \<Rightarrow> Returned JNull
                                | Returned True \<Rightarrow>
                                    (case index_zero categories of
                                       Raised \<Rightarrow> Raised
                                     | Returned c \<Rightarrow> dict_get c ''id'')))))
      else Returned JNull)"

text \<open>
  The category probe; \<open>JNull\<close> is Python's \<open>None\<close>. The reply is the outcome of the in-page
  fetch followed by \<open>json.loads\<close>, as for \<open>is_stream_live\<close>.
\<close>

definition get_streamer_category_id :: "urlparse \<Rightarrow> worker \<Rightarrow> json option outcome \<Rightarrow> json" where
  "get_streamer_category_id up w reply =
     (if \<not> driver w then JNull
      else (case kick_username_from_url up (url w) of
              None \<Rightarrow> JNull
            | Some username \<Rightarrow>
                (case reply of
                   Raised \<Rightarrow> JNull
                 | Returned None \<Rightarrow> JNull
                 | Returned (Some data) \<Rightarrow>
                     (case first_category_id data of
                        Raised \<Rightarrow> JNull
                      | Returned v \<Rightarrow> v))))"

section \<open>core/worker.py: the supervision loop of run\<close>

text \<open>
  What one iteration of the loop gets from outside: the stop flag as read by the loop
  condition, the environment of \<open>is_stream_live\<close>, the clock read for the category check and
  the reply to the category probe, the two clock values read for the progress report
  (\<open>time.time() - last_report >= 1\<close> and \<open>last_report = time.time()\<close>), whether
  \<open>on_update\<close> raises, and what the cumulative-time callback returns (\<open>Raised\<close> also
  when it returns something that cannot be compared with the target).
  \<open>ensure_player_state\<close> catches everything and changes the page only.
\<close>

record tick =
  stop_is_set :: bool
  live_probe :: live_env
  category_now :: real
  category_reply :: "json option outcome"
  report_now :: real
  report_stamp :: real
  on_update_raises :: bool
  cumulative_time :: "int outcome"

text \<open>
  How the loop was left: by one of the three \<open>break\<close> statements, by the loop condition
  (the stop flag), or by an exception caught by the \<open>except\<close> clause of \<open>run\<close>.
\<close>

datatype exit_reason = Completed | Offline | WrongCategory | Stopped | Crashed

datatype step =
    Continue worker real "event list"
  | Exit exit_reason worker "event list"

text \<open>Lines 125 to 129: the counter of consecutive fresh negative probes.\<close>

definition count_fresh_check :: "bool \<Rightarrow> bool \<Rightarrow> worker \<Rightarrow> worker" where
  "count_fresh_check fresh_check live w =
     (if fresh_check
      then (if live then w\<lparr>offline_fresh_checks := 0\<rparr>
            else w\<lparr>offline_fresh_checks := offline_fresh_checks w + 1\<rparr>)
      else w)"

text \<open>Lines 131 to 135: the condition of the offline \<open>break\<close>.\<close>

definition offline_reached :: "bool \<Rightarrow> worker \<Rightarrow> bool" where
  "offline_reached live w =
     (\<not> live \<and> offline_fresh_checks_to_switch w \<noteq> 0
      \<and> offline_fresh_checks w \<ge> offline_fresh_checks_to_switch w)"

text \<open>
  Lines 140 to 148: the category check. The result says whether the loop breaks, and gives
  the session afterwards and the probe made.
\<close>

definition category_check :: "urlparse \<Rightarrow> tick \<Rightarrow> worker \<Rightarrow> bool \<Rightarrow> bool \<times> worker \<times> event list" where
  "category_check up t w live =
     (if truthy (required_category_id w) \<and> live
      then (if category_now t - last_category_check w \<ge> category_check_interval w
            then (let w1 = w\<lparr>last_category_check := category_now t\<rparr>;
                      current_category_id = get_streamer_category_id up w1 (category_reply t)
                  in if current_category_id \<noteq> JNull
                        \<and> \<not> py_eq current_category_id (required_category_id w1)
                     then (True, w1\<lparr>ended_because_wrong_category := True\<rparr>,
                           [CategoryProbe (category_now t)])
                     else (False, w1, [CategoryProbe (category_now t)]))
            else (False, w, []))
      else (False, w, []))"

text \<open>Lines 158 to 169: the completion check, after which the iteration sleeps and ends.\<close>

definition completion_check :: "tick \<Rightarrow> worker \<Rightarrow> real \<Rightarrow> event list \<Rightarrow> step" where
  "completion_check t w last_report evs =
     (if minutes_target w \<noteq> 0
      then (if cumulative_time_callback w
            then (case cumulative_time t of
                    Raised \<Rightarrow> Exit Crashed w (evs @ [CumulativeTimeCall])
                  | Returned current_cumulative \<Rightarrow>
                      if current_cumulative \<ge> minutes_target w * 60
                      then Exit Completed (w\<lparr>completed := True\<rparr>) (evs @ [CumulativeTimeCall])
                      else Continue w last_report (evs @ [CumulativeTimeCall]))
            else (if elapsed_seconds w \<ge> minutes_target w * 60
                  then Exit Completed (w\<lparr>completed := True\<rparr>) evs
                  else Continue w last_report evs))
      else Continue w last_report evs)"

text \<open>Lines 150 to 169: time accounting, the progress report and the completion check.\<close>

definition account_and_report :: "tick \<Rightarrow> worker \<Rightarrow> bool \<Rightarrow> real \<Rightarrow> event list \<Rightarrow> step" where
  "account_and_report t w live last_report evs =
     (let w1 = (if live then w\<lparr>elapsed_seconds := elapsed_seconds w + 1\<rparr> else w)
      in if report_now t - last_report \<ge> 1
         then (if on_update w1
               then (if on_update_raises t
                     then Exit Crashed w1 (evs @ [OnUpdate (elapsed_seconds w1) live])
                     else completion_check t w1 (report_stamp t)
                            (evs @ [OnUpdate (elapsed_seconds w1) live]))
               else completion_check t w1 (report_stamp t) evs)
         else completion_check t w1 last_report evs)"

text \<open>Lines 117 to 170: the body of the loop.\<close>

definition loop_body :: "urlparse \<Rightarrow> tick \<Rightarrow> worker \<Rightarrow> real \<Rightarrow> step" where
  "loop_body up t w last_report =
     (let prev_live_check = last_live_check w;
          (live, w1, evs1) = is_stream_live up w (live_probe t);
          fresh_check = (last_live_check w1 \<noteq> prev_live_check);
          w2 = count_fresh_check fresh_check live w1
      in if offline_reached live w2
         then Exit Offline (w2\<lparr>ended_because_offline := True\<rparr>) evs1
         else (let (wrong, w3, evs2) = category_check up t w2 live
               in if wrong then Exit WrongCategory w3 (evs1 @ evs2)
                  else account_and_report t w3 live last_report (evs1 @ evs2)))"

text \<open>
  Lines 116 to 170: the loop, run over the iterations the environment provides. The first
  component is how the loop was left, or \<open>None\<close> when it is still running after the last of
  them; the others are the session and what it did up to there.
\<close>

fun run_loop ::
  "urlparse \<Rightarrow> tick list \<Rightarrow> worker \<Rightarrow> real \<Rightarrow> exit_reason option \<times> worker \<times> event list" where
  "run_loop up [] w last_report = (None, w, [])"
| "run_loop up (t # ts) w last_report =
     (if stop_is_set t then (Some Stopped, w, [])
      else (case loop_body up t w last_report of
              Exit reason w1 evs \<Rightarrow> (Some reason, w1, evs)
            | Continue w1 last_report1 evs \<Rightarrow>
                (let (reason, w2, evs2) = run_loop up ts w1 last_report1
                 in (reason, w2, evs @ evs2))))"

section \<open>core/worker.py: run\<close>

text \<open>
  The calls of the start-up phase that are not wrapped in a \<open>try\<close> of their own, each with
  whether it returns: \<open>make_chrome_driver\<close>, \<open>driver.get(base)\<close>,
  \<open>CookieManager.load_cookies\<close> and \<open>driver.get(self.url)\<close>.
\<close>

record startup_env =
  make_chrome_driver_ok :: bool
  get_base_ok :: bool
  load_cookies_ok :: bool
  get_url_ok :: bool

text \<open>Lines 67 to 113; the result says whether the loop is reached.\<close>

definition startup :: "string \<Rightarrow> worker \<Rightarrow> startup_env \<Rightarrow> bool \<times> worker" where
  "startup domain w s =
     (if \<not> make_chrome_driver_ok s then (False, w)
      else (let w1 = w\<lparr>driver := True\<rparr>
            in if domain \<noteq> [] \<and> (\<not> get_base_ok s \<or> \<not> load_cookies_ok s) then (False, w1)
               else if \<not> get_url_ok s then (False, w1)
               else (True, w1)))"

text \<open>
  The \<open>finally\<close> clause: the driver is shut down when there is one, and \<open>on_finish\<close> is called
  when it was supplied; what either raises is swallowed.
\<close>

definition cleanup :: "worker \<Rightarrow> event list" where
  "cleanup w =
     (if driver w then [DriverQuit] else [])
     @ (if on_finish w then [OnFinish (elapsed_seconds w) (completed w)] else [])"

text \<open>
  The result of \<open>run\<close>: the exception of \<open>domain_from_url\<close>, which is called before the
  \<open>try\<close> statement and so leaves \<open>run\<close> at once; or a session still in its loop after the
  iterations provided; or the way the session ended, the session at that moment and
  everything it did, the \<open>finally\<close> clause included.
\<close>

datatype run_result =
    Propagated
  | Running worker "event list"
  | Ended exit_reason worker "event list"

definition run :: "urlparse \<Rightarrow> worker \<Rightarrow> startup_env \<Rightarrow> tick list \<Rightarrow> run_result" where
  "run up w s ts =
     (case domain_from_url up (url w) of
        Raised \<Rightarrow> Propagated
      | Returned domain \<Rightarrow>
          (case startup domain w s of
             (False, w1) \<Rightarrow> Ended Crashed w1 (cleanup w1)
           | (True, w1) \<Rightarrow>
               (case run_loop up ts w1 0 of
                  (None, w2, evs) \<Rightarrow> Running w2 evs
                | (Some reason, w2, evs) \<Rightarrow> Ended reason w2 (evs @ cleanup w2))))"

section \<open>ui/app.py: switching to another channel of the campaign\<close>

text \<open>
  An entry of \<open>campaign_channels\<close> is a dict whose \<open>"url"\<close> may be missing, or a plain
  string. \<open>channel_url\<close> is
  \<open>ch.get("url") if isinstance(ch, dict) else ch\<close>, with \<open>None\<close> for a missing address.
\<close>

datatype channel = ChannelDict "string option" | ChannelStr string

fun channel_url :: "channel \<Rightarrow> string option" where
  "channel_url (ChannelDict u) = u"
| "channel_url (ChannelStr s) = Some s"

text \<open>The fields of a queue item that the switch reads or writes.\<close>

record item =
  item_url :: string
  campaign_id :: json
  campaign_channels :: "channel list"
  tried_channels :: "string list"

text \<open>Lines 2809 to 2811: the current address is put on the tried list.\<close>

definition mark_current_tried :: "string \<Rightarrow> string list \<Rightarrow> string list" where
  "mark_current_tried current_url tried =
     (if current_url \<in> set tried then tried else tried @ [current_url])"

text \<open>Lines 2813 to 2822: the addresses of all channels, with the current one.\<close>

definition all_channel_urls :: "string \<Rightarrow> channel list \<Rightarrow> string list" where
  "all_channel_urls current_url chs =
     (let urls = concat (map (\<lambda>ch. case channel_url ch of
                                      None \<Rightarrow> []
                                    | Some u \<Rightarrow> if u \<noteq> [] then [u] else []) chs)
      in if current_url \<in> set urls then urls else urls @ [current_url])"

text \<open>Lines 2824 to 2827: the tried list is emptied once it is as long as that list.\<close>

definition reset_if_exhausted :: "string list \<Rightarrow> string list \<Rightarrow> string list" where
  "reset_if_exhausted tried urls = (if length tried \<ge> length urls then [] else tried)"

text \<open>
  Line 2832: the test an entry must pass before it is probed.
\<close>

definition candidate :: "string \<Rightarrow> string list \<Rightarrow> channel \<Rightarrow> string option" where
  "candidate current_url tried ch =
     (case channel_url ch of
        None \<Rightarrow> None
      | Some alt_url \<Rightarrow>
          if alt_url \<noteq> [] \<and> alt_url \<noteq> current_url \<and> alt_url \<notin> set tried
          then Some alt_url else None)"

text \<open>
  Lines 2830 to 2850: the scan. Each probe is a request of its own, so the network is
  given per position of the list: \<open>net i\<close> answers the request made for entry \<open>i\<close>.
\<close>

fun find_alternative ::
  "urlparse \<Rightarrow> (nat \<Rightarrow> http) \<Rightarrow> string \<Rightarrow> string list \<Rightarrow> nat \<Rightarrow> channel list \<Rightarrow> string option" where
  "find_alternative up net current_url tried i [] = None"
| "find_alternative up net current_url tried i (ch # chs) =
     (case candidate current_url tried ch of
        None \<Rightarrow> find_alternative up net current_url tried (Suc i) chs
      | Some alt_url \<Rightarrow>
          if kick_is_live_by_api up (net i) alt_url then Some alt_url
          else find_alternative up net current_url tried (Suc i) chs)"

text \<open>
  Lines 2800 to 2856, the branch of \<open>on_worker_finish\<close> taken when the session ended offline
  or in the wrong category: the item afterwards and the channel switched to, if any.
\<close>

definition switch_channel :: "urlparse \<Rightarrow> (nat \<Rightarrow> http) \<Rightarrow> item \<Rightarrow> item \<times> string option" where
  "switch_channel up net it =
     (if truthy (campaign_id it) \<and> campaign_channels it \<noteq> []
      then (let current_url = item_url it;
                tried1 = mark_current_tried current_url (tried_channels it);
                urls = all_channel_urls current_url (campaign_channels it);
                tried2 = reset_if_exhausted tried1 urls
            in case find_alternative up net current_url tried2 0 (campaign_channels it) of
                 Some alt_url \<Rightarrow>
                   (it\<lparr>item_url := alt_url, tried_channels := tried2 @ [alt_url]\<rparr>, Some alt_url)
               | None \<Rightarrow>
                   (if length tried2 < length urls then it\<lparr>tried_channels := tried2\<rparr>
                    else it, None))
      else (it, None))"

section \<open>Reading the result of an iteration\<close>

text \<open>
  Projections of a \<open>step\<close>, used to state what an iteration did: how it left the loop
  (\<open>None\<close> when it did not), the session afterwards and what was observed. \<open>is_finish\<close>
  recognises the terminal callback among the events.
\<close>

fun step_exit :: "step \<Rightarrow> exit_reason option" where
  "step_exit (Continue w last_report evs) = None"
| "step_exit (Exit reason w evs) = Some reason"

fun step_worker :: "step \<Rightarrow> worker" where
  "step_worker (Continue w last_report evs) = w"
| "step_worker (Exit reason w evs) = w"

fun step_events :: "step \<Rightarrow> event list" where
  "step_events (Continue w last_report evs) = evs"
| "step_events (Exit reason w evs) = evs"

fun is_finish :: "event \<Rightarrow> bool" where
  "is_finish (OnFinish elapsed done) = True"
| "is_finish _ = False"

text \<open>
  The clock values of the category probes among the events, in order, and the property
  that each lies at least \<open>d\<close> after the one before it (\<open>previous\<close> for the first).
\<close>

fun probe_times :: "event list \<Rightarrow> real list" where
  "probe_times [] = []"
| "probe_times (CategoryProbe x # evs) = x # probe_times evs"
| "probe_times (e # evs) = probe_times evs"

fun spaced :: "real \<Rightarrow> real \<Rightarrow> real list \<Rightarrow> bool" where
  "spaced d previous [] = True"
| "spaced d previous (x # xs) = (x - previous \<ge> d \<and> spaced d x xs)"

section \<open>Example sessions and queue items\<close>

text \<open>
  Concrete inputs on which the theorems below are exercised. \<open>kick_urlparse\<close> splits
  addresses of the form \<^verbatim>\<open>https://kick.com/<name>\<close> as the library does.
\<close>

definition kick_urlparse :: urlparse where
  "kick_urlparse u = Returned \<lparr>netloc = ''kick.com'', path = drop 16 u\<rparr>"

text \<open>A network on which every request fails.\<close>

definition offline_net :: "nat \<Rightarrow> http" where
  "offline_net i a = Raised"

definition two_channels :: item where
  "two_channels = \<lparr> item_url = ''https://kick.com/alice'', campaign_id = JInt 7,
     campaign_channels = [ChannelDict (Some ''https://kick.com/alice''),
                          ChannelDict (Some ''https://kick.com/bob'')],
     tried_channels = [] \<rparr>"

text \<open>
  A session on one channel with a target of one minute, both callbacks, the default
  threshold of two, required category 5 and no cumulative accessor, after its browser has
  started; the same session after one fresh negative probe at time 100, and one second
  before its target.
\<close>

definition demo_worker :: worker where
  "demo_worker =
     (StreamWorker_init ''https://kick.com/alice'' 1 True True 2 (JInt 5) False)\<lparr>driver := True\<rparr>"

definition after_one_miss :: worker where
  "after_one_miss = demo_worker\<lparr>last_live_value := False, last_live_source := ''browser_api'',
     live_check_interval := 5, last_live_check := 100, offline_fresh_checks := 1\<rparr>"

definition almost_done :: worker where
  "almost_done = demo_worker\<lparr>elapsed_seconds := 59\<rparr>"

text \<open>
  A session of a campaign-wide drop of ten minutes (cumulative accessor supplied), and a
  session without a target.
\<close>

definition campaign_worker :: worker where
  "campaign_worker =
     (StreamWorker_init ''https://kick.com/alice'' 10 True True 2 JNull True)\<lparr>driver := True\<rparr>"

definition unbounded_worker :: worker where
  "unbounded_worker =
     (StreamWorker_init ''https://kick.com/alice'' 0 True True 2 JNull False)\<lparr>driver := True\<rparr>"

text \<open>The page state \<^verbatim>\<open>{"is_live":false}\<close>.\<close>

definition json_state_text :: string where
  "json_state_text = [CHR 0x7B, CHR 0x22] @ ''is_live'' @ [CHR 0x22] @ '':false}''"

text \<open>
  A probe at time 100 for which the in-page fetch raises, the page state is the text above
  and the body shows no offline marker; the same probe read at time 7; and one for which
  every source raises.
\<close>

definition page_says_offline :: live_env where
  "page_says_offline = \<lparr> now = 100, api_reply = Raised,
     state_text = Returned (Some json_state_text),
     body_text = Returned ''alice - Just Chatting - 1.2K viewers'', jitter = 0 \<rparr>"

definition early_read :: live_env where
  "early_read = page_says_offline\<lparr>now := 7\<rparr>"

definition all_sources_raise :: live_env where
  "all_sources_raise = \<lparr> now = 100, api_reply = Raised, state_text = Raised,
     body_text = Raised, jitter = 1 \<rparr>"

text \<open>Replies of the channel API for a channel that is offline and for one that is live.\<close>

definition offline_reply :: "json option outcome" where
  "offline_reply = Returned (Some (JObj [(''livestream'', JNull)]))"

definition live_reply :: "json option outcome" where
  "live_reply = Returned (Some (JObj [(''livestream'', JObj [(''is_live'', JBool True)])]))"

text \<open>
  An iteration at a given time with a given reply to the in-page fetch: the stop flag is
  not set, the other liveness sources and the category probe raise, \<open>on_update\<close> returns and
  the cumulative accessor answers 0. Variants: the accessor answers 550 or 600, and the
  stop flag is found set.
\<close>

definition probe_tick :: "real \<Rightarrow> json option outcome \<Rightarrow> tick" where
  "probe_tick time reply =
     \<lparr> stop_is_set = False,
       live_probe = \<lparr> now = time, api_reply = reply, state_text = Raised,
                      body_text = Raised, jitter = 0 \<rparr>,
       category_now = time, category_reply = Raised,
       report_now = time, report_stamp = time,
       on_update_raises = False, cumulative_time = Returned 0 \<rparr>"

definition total_550 :: tick where
  "total_550 = (probe_tick 5 live_reply)\<lparr>cumulative_time := Returned 550\<rparr>"

definition total_600 :: tick where
  "total_600 = (probe_tick 5 live_reply)\<lparr>cumulative_time := Returned 600\<rparr>"

definition stop_requested :: tick where
  "stop_requested = (probe_tick 6 live_reply)\<lparr>stop_is_set := True\<rparr>"

text \<open>
  A newly constructed session of the campaign-wide drop, a start-up in which every call
  returns, and one in which the browser cannot be launched.
\<close>

definition new_campaign_session :: worker where
  "new_campaign_session = StreamWorker_init ''https://kick.com/alice'' 10 True True 2 JNull True"

definition browser_ok :: startup_env where
  "browser_ok = \<lparr> make_chrome_driver_ok = True, get_base_ok = True, load_cookies_ok = True,
                  get_url_ok = True \<rparr>"

definition no_browser :: startup_env where
  "no_browser = browser_ok\<lparr>make_chrome_driver_ok := False\<rparr>"

text \<open>
  The example session as newly constructed, before its browser has started, and an
  iteration at time 5 in which \<open>on_update\<close> raises.
\<close>

definition new_demo_session :: worker where
  "new_demo_session = StreamWorker_init ''https://kick.com/alice'' 1 True True 2 (JInt 5) False"

definition update_raises :: tick where
  "update_raises = (probe_tick 5 live_reply)\<lparr>on_update_raises := True\<rparr>"

text \<open>
  A reply of the channel API for a live channel in category 7, an iteration at time 40 that
  gets it from the category probe, and the example session without a target.
\<close>

definition category_7 :: "json option outcome" where
  "category_7 = Returned (Some (JObj [(''livestream'',
       JObj [(''is_live'', JBool True), (''categories'', JArr [JObj [(''id'', JInt 7)]])])]))"

definition in_category_7 :: tick where
  "in_category_7 = (probe_tick 40 live_reply)\<lparr>category_reply := category_7\<rparr>"

definition no_target :: worker where
  "no_target = demo_worker\<lparr>minutes_target := 0\<rparr>"

text \<open>
  The queue item of the cycling example: channels alice, bob and carol in this order,
  alice current and already tried; an item whose two channels have both been tried; and a
  network on which only carol is live.
\<close>

definition three_channels :: item where
  "three_channels = \<lparr> item_url = ''https://kick.com/alice'', campaign_id = JInt 7,
     campaign_channels = [ChannelDict (Some ''https://kick.com/alice''),
                          ChannelDict (Some ''https://kick.com/bob''),
                          ChannelDict (Some ''https://kick.com/carol'')],
     tried_channels = [''https://kick.com/alice''] \<rparr>"

definition all_tried :: item where
  "all_tried = \<lparr> item_url = ''https://kick.com/bob'', campaign_id = JInt 7,
     campaign_channels = [ChannelDict (Some ''https://kick.com/alice''),
                          ChannelDict (Some ''https://kick.com/bob'')],
     tried_channels = [''https://kick.com/alice'', ''https://kick.com/bob''] \<rparr>"

definition only_carol_live :: "nat \<Rightarrow> http" where
  "only_carol_live i a =
     (if a = channel_api_url ''carol''
      then Returned (JObj [(''livestream'', JObj [(''is_live'', JBool True)])])
      else Returned (JObj [(''livestream'', JNull)]))"

section \<open>Facts about the examples\<close>

lemma json_state_text_no_match: "is_live_search json_state_text = None"
  by (simp add: json_state_text_def is_live_pattern_at_def lower_char_def skip_s_def)

lemma kick_username_alice: "kick_username_from_url kick_urlparse ''https://kick.com/alice'' = Some ''alice''"
  by (simp add: kick_username_from_url_def kick_urlparse_def strip_slashes_def first_segment_def)

lemma no_marker_in_demo_body:
  "\<not> list_ex (\<lambda>m. contains m (upper ''alice - Just Chatting - 1.2K viewers'')) offline_markers"
  by (simp add: upper_def upper_char_def lower_letters_def upper_letters_def offline_markers_def)

section \<open>The liveness cache\<close>

text \<open>
  C9. A call of \<open>is_stream_live\<close> made while \<open>now - last_check_time\<close> is smaller than the
  current interval returns the cached value, attempts no source (the list of attempted
  sources is empty) and leaves the whole session, the cache fields included, as it was.
\<close>

theorem is_stream_live_cached:
  "now e - last_live_check w < live_check_interval w \<Longrightarrow>
   is_stream_live up w e = (last_live_value w, w, [])"
  by (simp add: is_stream_live_def)

theorem is_stream_live_cached_witness:
  "now early_read - last_live_check demo_worker < live_check_interval demo_worker
   \<and> is_stream_live kick_urlparse demo_worker early_read = (True, demo_worker, [])"
  using is_stream_live_cached[of early_read demo_worker kick_urlparse]
  by (simp add: demo_worker_def StreamWorker_init_def page_says_offline_def early_read_def)

text \<open>A call that is not answered from the cache attempts at least one source.\<close>

lemma probe_sources_attempt: "snd (probe_sources up w e) \<noteq> []"
  by (simp add: probe_sources_def dom_fallback_def split: option.splits)

lemma is_stream_live_fresh_attempt:
  "\<not> now e - last_live_check w < live_check_interval w \<Longrightarrow>
   snd (snd (is_stream_live up w e)) \<noteq> []"
  using probe_sources_attempt[of up w e]
  by (auto simp: is_stream_live_def Let_def split: prod.splits)

section \<open>The sources of is_stream_live\<close>

lemma dom_source_not_live: "dom_source r \<noteq> Some True"
  by (simp add: dom_source_def split: outcome.splits)

text \<open>
  C6. The DOM heuristic never yields \<open>live\<close>. In a call that is not answered from the
  cache, when the two earlier sources settle nothing (or are skipped because the address
  has no user name) and the body text shows no offline marker or cannot be read, the call
  returns the value cached before, records the source \<open>unknown\<close> and leaves the cached
  value as it was. A source that raises settles nothing, so the same holds when all three
  raise. The cached value of a new session is \<open>True\<close>.
\<close>

theorem dom_heuristic_never_asserts_live:
  assumes fresh: "\<not> now e - last_live_check w < live_check_interval w"
      and earlier: "kick_username_from_url up (url w) = None
                    \<or> (browser_api_source (api_reply e) = None
                        \<and> page_state_source (state_text e) = None)"
      and body: "body_text e = Raised
                 \<or> (\<exists>text. body_text e = Returned text
                       \<and> \<not> list_ex (\<lambda>m. contains m (upper text)) offline_markers)"
  shows "(\<forall>r. dom_source r \<noteq> Some True)
         \<and> dom_source (body_text e) = None
         \<and> is_stream_live up w e =
             (last_live_value w,
              w\<lparr>last_live_source := ''unknown'',
                live_check_interval := max 4 ((if last_live_value w then 8 else 5) + jitter e),
                last_live_check := now e\<rparr>,
              snd (probe_sources up w e))
         \<and> browser_api_source Raised = None
         \<and> page_state_source Raised = None
         \<and> dom_source Raised = None
         \<and> last_live_value (StreamWorker_init u minutes upd fin to_switch category cumulative)"
proof -
  have dom: "dom_source (body_text e) = None"
    using body by (auto simp: dom_source_def)
  have "fst (probe_sources up w e) = None"
    using earlier dom by (auto simp: probe_sources_def dom_fallback_def split: option.splits)
  then have "is_stream_live up w e =
             (last_live_value w,
              w\<lparr>last_live_source := ''unknown'',
                live_check_interval := max 4 ((if last_live_value w then 8 else 5) + jitter e),
                last_live_check := now e\<rparr>,
              snd (probe_sources up w e))"
    using fresh by (cases "probe_sources up w e") (simp add: is_stream_live_def Let_def)
  moreover have "dom_source Raised = None"
    by (simp add: dom_source_def)
  ultimately show ?thesis
    using dom dom_source_not_live
    by (simp add: browser_api_source_def page_state_source_def StreamWorker_init_def)
qed

theorem dom_heuristic_never_asserts_live_witness:
  "is_stream_live kick_urlparse demo_worker page_says_offline =
     (True, demo_worker\<lparr>last_live_source := ''unknown'', live_check_interval := 8,
                        last_live_check := 100\<rparr>,
      [BrowserApiFetch, PageStateRead, BodyTextRead])
   \<and> is_stream_live kick_urlparse demo_worker all_sources_raise =
     (True, demo_worker\<lparr>last_live_source := ''unknown'', live_check_interval := 9,
                        last_live_check := 100\<rparr>,
      [BrowserApiFetch, PageStateRead, BodyTextRead])"
proof -
  have u: "kick_username_from_url kick_urlparse (url demo_worker) = Some ''alice''"
    by (simp add: demo_worker_def StreamWorker_init_def kick_username_alice)
  have a: "browser_api_source (api_reply page_says_offline) = None"
          "browser_api_source (api_reply all_sources_raise) = None"
    by (simp_all add: browser_api_source_def page_says_offline_def all_sources_raise_def)
  have p: "page_state_source (state_text page_says_offline) = None"
          "page_state_source (state_text all_sources_raise) = None"
    by (simp_all add: page_state_source_def page_says_offline_def all_sources_raise_def
        json_state_text_no_match)
  have d: "dom_source (body_text page_says_offline) = None"
          "dom_source (body_text all_sources_raise) = None"
    using no_marker_in_demo_body
    by (simp_all add: dom_source_def page_says_offline_def all_sources_raise_def)
  have ev: "snd (probe_sources kick_urlparse demo_worker page_says_offline)
              = [BrowserApiFetch, PageStateRead, BodyTextRead]"
           "snd (probe_sources kick_urlparse demo_worker all_sources_raise)
              = [BrowserApiFetch, PageStateRead, BodyTextRead]"
    using u a p d by (simp_all add: probe_sources_def dom_fallback_def)
  have f: "\<not> now page_says_offline - last_live_check demo_worker < live_check_interval demo_worker"
          "\<not> now all_sources_raise - last_live_check demo_worker < live_check_interval demo_worker"
    by (simp_all add: demo_worker_def StreamWorker_init_def page_says_offline_def all_sources_raise_def)
  have b1: "body_text page_says_offline = Raised
            \<or> (\<exists>text. body_text page_says_offline = Returned text
                  \<and> \<not> list_ex (\<lambda>m. contains m (upper text)) offline_markers)"
    using no_marker_in_demo_body by (simp add: page_says_offline_def)
  have b2: "body_text all_sources_raise = Raised
            \<or> (\<exists>text. body_text all_sources_raise = Returned text
                  \<and> \<not> list_ex (\<lambda>m. contains m (upper text)) offline_markers)"
    by (simp add: all_sources_raise_def)
  have v: "last_live_value demo_worker"
    by (simp add: demo_worker_def StreamWorker_init_def)
  have e1: "kick_username_from_url kick_urlparse (url demo_worker) = None
            \<or> (browser_api_source (api_reply page_says_offline) = None
                \<and> page_state_source (state_text page_says_offline) = None)"
    using a p by simp
  have e2: "kick_username_from_url kick_urlparse (url demo_worker) = None
            \<or> (browser_api_source (api_reply all_sources_raise) = None
                \<and> page_state_source (state_text all_sources_raise) = None)"
    using a p by simp
  have n: "now page_says_offline = 100" "jitter page_says_offline = 0"
          "now all_sources_raise = 100" "jitter all_sources_raise = 1"
    by (simp_all add: page_says_offline_def all_sources_raise_def)
  note t1 = dom_heuristic_never_asserts_live[OF f(1) e1 b1, THEN conjunct2, THEN conjunct2,
              THEN conjunct1]
  note t2 = dom_heuristic_never_asserts_live[OF f(2) e2 b2, THEN conjunct2, THEN conjunct2,
              THEN conjunct1]
  show ?thesis
    unfolding t1 t2 ev n using v by simp
qed

lemma lower_char_backslash: "lower_char c = CHR 0x5C \<longleftrightarrow> c = CHR 0x5C"
  by (auto simp: lower_char_def split: if_splits)

lemma match_ci_backslash:
  "match_ci ps t = Some r \<Longrightarrow> CHR 0x5C \<in> set ps \<Longrightarrow> CHR 0x5C \<in> set t"
proof (induction ps t rule: match_ci.induct)
  case (1 t)
  then show ?case by simp
next
  case (2 p ps)
  then show ?case by simp
next
  case (3 p ps c cs)
  from "3.prems"(1) have eq: "lower_char c = lower_char p" and rest: "match_ci ps cs = Some r"
    by (simp_all split: if_splits)
  show ?case
  proof (cases "p = CHR 0x5C")
    case True
    then have "lower_char c = CHR 0x5C" using eq lower_char_backslash[of p] by simp
    then show ?thesis by (simp add: lower_char_backslash)
  next
    case False
    then have "CHR 0x5C \<in> set ps" using "3.prems"(2) by simp
    from "3.IH"[OF eq rest this] show ?thesis by simp
  qed
qed

lemma is_live_pattern_needs_backslash:
  assumes "is_live_pattern_at t = Some b"
  shows "CHR 0x5C \<in> set t"
proof (cases "match_ci (CHR 0x22 # ''is_live'' @ [CHR 0x22, CHR 0x5C]) t")
  case None
  then show ?thesis using assms by (simp add: is_live_pattern_at_def)
next
  case (Some r1)
  from match_ci_backslash[OF Some] show ?thesis by simp
qed

text \<open>A page state without a backslash is never matched by the pattern.\<close>

lemma is_live_search_needs_backslash:
  "is_live_search t = Some b \<Longrightarrow> CHR 0x5C \<in> set t"
proof (induction t)
  case Nil
  then show ?case using is_live_pattern_needs_backslash[of "[]" b] by simp
next
  case (Cons c cs)
  show ?case
  proof (cases "is_live_pattern_at (c # cs)")
    case None
    then show ?thesis using Cons by simp
  next
    case (Some b')
    then show ?thesis using is_live_pattern_needs_backslash[of "c # cs" b'] by simp
  qed
qed

text \<open>The pattern does match a text that has the two backslashes it asks for.\<close>

lemma is_live_search_backslashed:
  "is_live_search ([CHR 0x7B, CHR 0x22] @ ''is_live'' @ [CHR 0x22, CHR 0x5C] @ '':''
                     @ [CHR 0x5C] @ ''True}'') = Some True"
  by (simp add: is_live_pattern_at_def lower_char_def skip_s_def)

text \<open>
  C7. The page-state source is meant to read an \<open>is_live\<close> field out of the JSON state of
  the page. On the state \<^verbatim>\<open>{"is_live":false}\<close> its pattern finds nothing: the call
  falls through to the DOM heuristic and answers with the cached \<open>True\<close> and the source
  \<open>unknown\<close>, where the field says \<open>false\<close>.
\<close>

theorem page_state_pattern_misses_json_field:
  "page_state_source (Returned (Some json_state_text)) = None
   \<and> fst (is_stream_live kick_urlparse demo_worker page_says_offline) = True
   \<and> last_live_source (fst (snd (is_stream_live kick_urlparse demo_worker page_says_offline)))
       = ''unknown''"
proof -
  have u: "kick_username_from_url kick_urlparse (url demo_worker) = Some ''alice''"
    by (simp add: demo_worker_def StreamWorker_init_def kick_username_alice)
  have p: "page_state_source (Returned (Some json_state_text)) = None"
    by (simp add: page_state_source_def json_state_text_no_match)
  have d: "dom_source (body_text page_says_offline) = None"
    using no_marker_in_demo_body by (simp add: dom_source_def page_says_offline_def)
  have "probe_sources kick_urlparse demo_worker page_says_offline
          = (None, [BrowserApiFetch, PageStateRead, BodyTextRead])"
    using u p d
    by (simp add: probe_sources_def dom_fallback_def browser_api_source_def page_says_offline_def)
  then show ?thesis
    using p by (simp add: is_stream_live_def Let_def demo_worker_def StreamWorker_init_def
        page_says_offline_def)
qed

section \<open>The direct probe and the scan for another channel\<close>

lemma status_inconclusive:
  assumes "case up u of Raised \<Rightarrow> True
           | Returned p \<Rightarrow> \<not> contains ''kick.com'' (netloc p)
               \<or> first_segment (strip_slashes (path p)) = []
               \<or> http (channel_api_url (first_segment (strip_slashes (path p)))) = Raised"
  shows "kick_live_status_by_api up http u = None"
  using assms by (auto simp: kick_live_status_by_api_def Let_def split: outcome.splits)

lemma find_alternative_skip:
  "find_alternative up net cur tried i pre = None \<Longrightarrow>
   find_alternative up net cur tried i (pre @ chs) =
   find_alternative up net cur tried (i + length pre) chs"
  by (induction pre arbitrary: i) (auto split: option.splits if_splits)

text \<open>
  C10. When the status check of the direct probe is inconclusive (\<open>urlparse\<close> raises, the
  host is not kick.com, the address has no user name, or the request fails) the status is
  \<open>None\<close> and \<open>kick_is_live_by_api\<close> answers \<open>True\<close>; so the scan, once it reaches such an
  entry that passes the test of line 2832 with no earlier entry selected, switches to it.
\<close>

theorem inconclusive_sibling_is_selected:
  assumes camp: "truthy (campaign_id it)"
      and chs: "campaign_channels it = pre @ ch # post"
      and tried: "tried = reset_if_exhausted (mark_current_tried (item_url it) (tried_channels it))
                     (all_channel_urls (item_url it) (campaign_channels it))"
      and earlier: "find_alternative up net (item_url it) tried 0 pre = None"
      and cand: "candidate (item_url it) tried ch = Some alt_url"
      and unknown: "case up alt_url of Raised \<Rightarrow> True
           | Returned p \<Rightarrow> \<not> contains ''kick.com'' (netloc p)
               \<or> first_segment (strip_slashes (path p)) = []
               \<or> net (length pre) (channel_api_url (first_segment (strip_slashes (path p)))) = Raised"
  shows "kick_live_status_by_api up (net (length pre)) alt_url = None
         \<and> kick_is_live_by_api up (net (length pre)) alt_url
         \<and> switch_channel up net it =
             (it\<lparr>item_url := alt_url, tried_channels := tried @ [alt_url]\<rparr>, Some alt_url)"
proof -
  have st: "kick_live_status_by_api up (net (length pre)) alt_url = None"
    using unknown by (rule status_inconclusive)
  then have live: "kick_is_live_by_api up (net (length pre)) alt_url"
    by (simp add: kick_is_live_by_api_def)
  have "find_alternative up net (item_url it) tried 0 (pre @ ch # post) = Some alt_url"
    using find_alternative_skip[OF earlier, of "ch # post"] cand live by simp
  then have "switch_channel up net it =
             (it\<lparr>item_url := alt_url, tried_channels := tried @ [alt_url]\<rparr>, Some alt_url)"
    using camp chs tried by (simp add: switch_channel_def Let_def)
  with st live show ?thesis by simp
qed

theorem inconclusive_sibling_is_selected_witness:
  "switch_channel kick_urlparse offline_net two_channels =
     (two_channels\<lparr>item_url := ''https://kick.com/bob'',
        tried_channels := [''https://kick.com/alice'', ''https://kick.com/bob'']\<rparr>,
      Some ''https://kick.com/bob'')"
  using inconclusive_sibling_is_selected[of two_channels "[ChannelDict (Some ''https://kick.com/alice'')]"
     "ChannelDict (Some ''https://kick.com/bob'')" "[]" "[''https://kick.com/alice'']"
     kick_urlparse offline_net "''https://kick.com/bob''"]
  by (simp add: two_channels_def kick_urlparse_def offline_net_def candidate_def
      mark_current_tried_def all_channel_urls_def reset_if_exhausted_def)

section \<open>The supervision loop\<close>

lemma is_stream_live_frame:
  "is_stream_live up w e = (live, w1, evs) \<Longrightarrow>
   w1 = w\<lparr>last_live_value := last_live_value w1, last_live_source := last_live_source w1,
          live_check_interval := live_check_interval w1, last_live_check := last_live_check w1\<rparr>"
  by (cases "probe_sources up w e")
     (auto simp: is_stream_live_def Let_def split: if_splits option.splits)

lemma is_stream_live_check_time:
  "is_stream_live up w e = (live, w1, evs) \<Longrightarrow>
   last_live_check w1 =
     (if now e - last_live_check w < live_check_interval w then last_live_check w else now e)"
  by (cases "probe_sources up w e")
     (auto simp: is_stream_live_def Let_def split: if_splits option.splits)

lemma fresh_check_iff:
  assumes "is_stream_live up w e = (live, w1, evs)" and "0 < live_check_interval w"
  shows "(last_live_check w1 \<noteq> last_live_check w)
         = (\<not> now e - last_live_check w < live_check_interval w)"
  using assms is_stream_live_check_time[OF assms(1)] by auto

lemma completion_check_counter:
  "offline_fresh_checks (step_worker (completion_check t w lr evs)) = offline_fresh_checks w"
  "ended_because_offline (step_worker (completion_check t w lr evs)) = ended_because_offline w"
  "step_exit (completion_check t w lr evs) \<noteq> Some Offline"
  "step_exit (completion_check t w lr evs) \<noteq> Some WrongCategory"
  by (auto simp: completion_check_def split: outcome.splits)

lemma account_and_report_counter:
  "offline_fresh_checks (step_worker (account_and_report t w live lr evs)) = offline_fresh_checks w"
  "ended_because_offline (step_worker (account_and_report t w live lr evs)) = ended_because_offline w"
  "step_exit (account_and_report t w live lr evs) \<noteq> Some Offline"
  "step_exit (account_and_report t w live lr evs) \<noteq> Some WrongCategory"
  by (auto simp: account_and_report_def Let_def completion_check_counter)

lemma category_check_counter:
  "category_check up t w live = (wrong, w3, evs) \<Longrightarrow>
   offline_fresh_checks w3 = offline_fresh_checks w
   \<and> ended_because_offline w3 = ended_because_offline w"
  by (auto simp: category_check_def Let_def split: if_splits)

lemma category_check_not_live:
  "category_check up t w False = (False, w, [])"
  by (simp add: category_check_def)

text \<open>The iteration after the liveness read, as a function of what the read gave.\<close>

lemma loop_body_unfold:
  assumes "is_stream_live up w (live_probe t) = (live, w1, evs1)"
  shows "loop_body up t w lr =
     (let w2 = count_fresh_check (last_live_check w1 \<noteq> last_live_check w) live w1
      in if offline_reached live w2
         then Exit Offline (w2\<lparr>ended_because_offline := True\<rparr>) evs1
         else (case category_check up t w2 live of
                 (wrong, w3, evs2) \<Rightarrow>
                   if wrong then Exit WrongCategory w3 (evs1 @ evs2)
                   else account_and_report t w3 live lr (evs1 @ evs2)))"
  using assms by (simp add: loop_body_def Let_def)

lemma completion_check_const:
  "url (step_worker (completion_check t w lr evs)) = url w"
  "minutes_target (step_worker (completion_check t w lr evs)) = minutes_target w"
  "on_update (step_worker (completion_check t w lr evs)) = on_update w"
  "on_finish (step_worker (completion_check t w lr evs)) = on_finish w"
  "driver (step_worker (completion_check t w lr evs)) = driver w"
  "required_category_id (step_worker (completion_check t w lr evs)) = required_category_id w"
  "cumulative_time_callback (step_worker (completion_check t w lr evs)) = cumulative_time_callback w"
  "offline_fresh_checks_to_switch (step_worker (completion_check t w lr evs)) = offline_fresh_checks_to_switch w"
  "category_check_interval (step_worker (completion_check t w lr evs)) = category_check_interval w"
  "live_check_interval (step_worker (completion_check t w lr evs)) = live_check_interval w"
  "last_category_check (step_worker (completion_check t w lr evs)) = last_category_check w"
  "ended_because_wrong_category (step_worker (completion_check t w lr evs)) = ended_because_wrong_category w"
  by (auto simp: completion_check_def split: outcome.splits)

lemma account_and_report_const:
  "url (step_worker (account_and_report t w live lr evs)) = url w"
  "minutes_target (step_worker (account_and_report t w live lr evs)) = minutes_target w"
  "on_update (step_worker (account_and_report t w live lr evs)) = on_update w"
  "on_finish (step_worker (account_and_report t w live lr evs)) = on_finish w"
  "driver (step_worker (account_and_report t w live lr evs)) = driver w"
  "required_category_id (step_worker (account_and_report t w live lr evs)) = required_category_id w"
  "cumulative_time_callback (step_worker (account_and_report t w live lr evs)) = cumulative_time_callback w"
  "offline_fresh_checks_to_switch (step_worker (account_and_report t w live lr evs)) = offline_fresh_checks_to_switch w"
  "category_check_interval (step_worker (account_and_report t w live lr evs)) = category_check_interval w"
  "live_check_interval (step_worker (account_and_report t w live lr evs)) = live_check_interval w"
  "last_category_check (step_worker (account_and_report t w live lr evs)) = last_category_check w"
  "ended_because_wrong_category (step_worker (account_and_report t w live lr evs)) = ended_because_wrong_category w"
  by (auto simp: account_and_report_def Let_def completion_check_const)

lemma category_check_const:
  assumes "category_check up t w live = (wrong, w3, evs)"
  shows "url w3 = url w" "minutes_target w3 = minutes_target w" "on_update w3 = on_update w"
    "on_finish w3 = on_finish w" "driver w3 = driver w"
    "required_category_id w3 = required_category_id w"
    "cumulative_time_callback w3 = cumulative_time_callback w"
    "offline_fresh_checks_to_switch w3 = offline_fresh_checks_to_switch w"
    "category_check_interval w3 = category_check_interval w"
    "live_check_interval w3 = live_check_interval w"
    "elapsed_seconds w3 = elapsed_seconds w" "completed w3 = completed w"
  using assms by (auto simp: category_check_def Let_def split: if_splits)

lemma count_fresh_check_const:
  "url (count_fresh_check f live w) = url w"
  "minutes_target (count_fresh_check f live w) = minutes_target w"
  "on_update (count_fresh_check f live w) = on_update w"
  "on_finish (count_fresh_check f live w) = on_finish w"
  "driver (count_fresh_check f live w) = driver w"
  "required_category_id (count_fresh_check f live w) = required_category_id w"
  "cumulative_time_callback (count_fresh_check f live w) = cumulative_time_callback w"
  "offline_fresh_checks_to_switch (count_fresh_check f live w) = offline_fresh_checks_to_switch w"
  "category_check_interval (count_fresh_check f live w) = category_check_interval w"
  "live_check_interval (count_fresh_check f live w) = live_check_interval w"
  "last_category_check (count_fresh_check f live w) = last_category_check w"
  "ended_because_wrong_category (count_fresh_check f live w) = ended_because_wrong_category w"
  "ended_because_offline (count_fresh_check f live w) = ended_because_offline w"
  "elapsed_seconds (count_fresh_check f live w) = elapsed_seconds w"
  "completed (count_fresh_check f live w) = completed w"
  by (simp_all add: count_fresh_check_def)

lemma is_stream_live_const:
  assumes "is_stream_live up w e = (live, w1, evs)"
  shows "url w1 = url w" "minutes_target w1 = minutes_target w" "on_update w1 = on_update w"
    "on_finish w1 = on_finish w" "driver w1 = driver w"
    "required_category_id w1 = required_category_id w"
    "cumulative_time_callback w1 = cumulative_time_callback w"
    "offline_fresh_checks_to_switch w1 = offline_fresh_checks_to_switch w"
    "category_check_interval w1 = category_check_interval w"
    "last_category_check w1 = last_category_check w"
    "ended_because_wrong_category w1 = ended_because_wrong_category w"
    "ended_because_offline w1 = ended_because_offline w"
    "elapsed_seconds w1 = elapsed_seconds w" "completed w1 = completed w"
    "offline_fresh_checks w1 = offline_fresh_checks w"
  by (subst is_stream_live_frame[OF assms], simp)+

lemma is_stream_live_interval:
  assumes "is_stream_live up w e = (live, w1, evs)" and "0 < live_check_interval w"
  shows "0 < live_check_interval w1"
  using assms
  by (cases "probe_sources up w e")
     (auto simp: is_stream_live_def Let_def split: if_splits option.splits)

text \<open>The attributes that no iteration changes.\<close>

lemma loop_body_const:
  "url (step_worker (loop_body up t w lr)) = url w"
  "minutes_target (step_worker (loop_body up t w lr)) = minutes_target w"
  "on_update (step_worker (loop_body up t w lr)) = on_update w"
  "on_finish (step_worker (loop_body up t w lr)) = on_finish w"
  "driver (step_worker (loop_body up t w lr)) = driver w"
  "required_category_id (step_worker (loop_body up t w lr)) = required_category_id w"
  "cumulative_time_callback (step_worker (loop_body up t w lr)) = cumulative_time_callback w"
  "offline_fresh_checks_to_switch (step_worker (loop_body up t w lr)) = offline_fresh_checks_to_switch w"
  "category_check_interval (step_worker (loop_body up t w lr)) = category_check_interval w"
proof -
  obtain live w1 evs1 where res: "is_stream_live up w (live_probe t) = (live, w1, evs1)"
    by (cases "is_stream_live up w (live_probe t)")
  let ?w2 = "count_fresh_check (last_live_check w1 \<noteq> last_live_check w) live w1"
  obtain wrong w3 evs2 where cc: "category_check up t ?w2 live = (wrong, w3, evs2)"
    by (cases "category_check up t ?w2 live")
  note c1 = is_stream_live_const[OF res]
  note c3 = category_check_const[OF cc]
  show "url (step_worker (loop_body up t w lr)) = url w"
    "minutes_target (step_worker (loop_body up t w lr)) = minutes_target w"
    "on_update (step_worker (loop_body up t w lr)) = on_update w"
    "on_finish (step_worker (loop_body up t w lr)) = on_finish w"
    "driver (step_worker (loop_body up t w lr)) = driver w"
    "required_category_id (step_worker (loop_body up t w lr)) = required_category_id w"
    "cumulative_time_callback (step_worker (loop_body up t w lr)) = cumulative_time_callback w"
    "offline_fresh_checks_to_switch (step_worker (loop_body up t w lr)) = offline_fresh_checks_to_switch w"
    "category_check_interval (step_worker (loop_body up t w lr)) = category_check_interval w"
    using c1 c3 cc
    by (simp_all add: loop_body_unfold[OF res] Let_def count_fresh_check_const
        account_and_report_const)
qed

lemma loop_body_interval:
  assumes "0 < live_check_interval w"
  shows "0 < live_check_interval (step_worker (loop_body up t w lr))"
proof -
  obtain live w1 evs1 where res: "is_stream_live up w (live_probe t) = (live, w1, evs1)"
    by (cases "is_stream_live up w (live_probe t)")
  let ?w2 = "count_fresh_check (last_live_check w1 \<noteq> last_live_check w) live w1"
  obtain wrong w3 evs2 where cc: "category_check up t ?w2 live = (wrong, w3, evs2)"
    by (cases "category_check up t ?w2 live")
  show ?thesis
    using is_stream_live_interval[OF res assms] category_check_const(10)[OF cc] cc
    by (simp add: loop_body_unfold[OF res] Let_def count_fresh_check_const
        account_and_report_const)
qed

lemma completion_check_completed:
  "step_exit (completion_check t w lr evs) = Some Completed \<Longrightarrow>
   completed (step_worker (completion_check t w lr evs)) \<and> minutes_target w \<noteq> 0
   \<and> (if cumulative_time_callback w
       then (\<exists>c. cumulative_time t = Returned c \<and> minutes_target w * 60 \<le> c)
       else minutes_target w * 60 \<le> elapsed_seconds w)"
  by (auto simp: completion_check_def split: outcome.splits if_splits)

lemma completion_check_continue:
  "step_exit (completion_check t w lr evs) = None \<Longrightarrow>
   step_worker (completion_check t w lr evs) = w
   \<and> (minutes_target w \<noteq> 0 \<longrightarrow>
        (if cumulative_time_callback w
         then (\<exists>c. cumulative_time t = Returned c \<and> c < minutes_target w * 60)
         else elapsed_seconds w < minutes_target w * 60))"
  by (auto simp: completion_check_def split: outcome.splits if_splits)

lemma completion_check_elapsed:
  "elapsed_seconds (step_worker (completion_check t w lr evs)) = elapsed_seconds w"
  by (auto simp: completion_check_def split: outcome.splits)

lemma completion_check_flag:
  "completed (step_worker (completion_check t w lr evs))
   = (completed w \<or> step_exit (completion_check t w lr evs) = Some Completed)"
  by (auto simp: completion_check_def split: outcome.splits)

lemma completion_check_call:
  "CumulativeTimeCall \<notin> set evs \<Longrightarrow>
   CumulativeTimeCall \<in> set (step_events (completion_check t w lr evs))
   = (minutes_target w \<noteq> 0 \<and> cumulative_time_callback w)"
  by (auto simp: completion_check_def split: outcome.splits)

lemma completion_check_called:
  assumes "minutes_target w \<noteq> 0" "cumulative_time_callback w" "cumulative_time t = Returned c"
  shows "completion_check t w lr evs =
     (if minutes_target w * 60 \<le> c
      then Exit Completed (w\<lparr>completed := True\<rparr>) (evs @ [CumulativeTimeCall])
      else Continue w lr (evs @ [CumulativeTimeCall]))"
  using assms by (simp add: completion_check_def)

text \<open>
  An iteration either leaves the loop before the completion check (offline, wrong category,
  or \<open>on_update\<close> raising) or ends with the result of that check.
\<close>

lemma account_and_report_eq:
  "account_and_report t w live lr evs =
     (let w1 = (if live then w\<lparr>elapsed_seconds := elapsed_seconds w + 1\<rparr> else w);
          due = (report_now t - lr \<ge> 1);
          evs1 = (if due \<and> on_update w then evs @ [OnUpdate (elapsed_seconds w1) live] else evs)
      in if due \<and> on_update w \<and> on_update_raises t then Exit Crashed w1 evs1
         else completion_check t w1 (if due then report_stamp t else lr) evs1)"
  by (simp add: account_and_report_def Let_def)

lemma is_stream_live_events:
  assumes "is_stream_live up w e = (live, w1, evs)"
  shows "set evs \<subseteq> {BrowserApiFetch, PageStateRead, BodyTextRead}"
  using assms
  by (cases "probe_sources up w e")
     (auto simp: is_stream_live_def Let_def probe_sources_def dom_fallback_def
           split: if_splits option.splits)

lemma category_check_events:
  assumes "category_check up t w live = (wrong, w3, evs)"
  shows "set evs \<subseteq> {CategoryProbe (category_now t)}"
  using assms by (auto simp: category_check_def Let_def split: if_splits)

lemma category_check_wrong_flag:
  assumes "category_check up t w live = (wrong, w3, evs)"
  shows "ended_because_wrong_category w3 = (ended_because_wrong_category w \<or> wrong)"
    and "ended_because_offline w3 = ended_because_offline w"
  using assms by (auto simp: category_check_def Let_def split: if_splits)

lemma loop_body_cases:
  "(\<exists>w' evs'. loop_body up t w lr = Exit Offline w' evs' \<and> completed w' = completed w
        \<and> ended_because_offline w'
        \<and> ended_because_wrong_category w' = ended_because_wrong_category w
        \<and> CumulativeTimeCall \<notin> set evs')
   \<or> (\<exists>w' evs'. loop_body up t w lr = Exit WrongCategory w' evs' \<and> completed w' = completed w
        \<and> ended_because_offline w' = ended_because_offline w
        \<and> ended_because_wrong_category w'
        \<and> CumulativeTimeCall \<notin> set evs')
   \<or> (\<exists>w' evs'. loop_body up t w lr = Exit Crashed w' evs' \<and> completed w' = completed w
        \<and> ended_because_offline w' = ended_because_offline w
        \<and> ended_because_wrong_category w' = ended_because_wrong_category w
        \<and> CumulativeTimeCall \<notin> set evs')
   \<or> (\<exists>w' lr' evs'. loop_body up t w lr = completion_check t w' lr' evs'
        \<and> CumulativeTimeCall \<notin> set evs'
        \<and> completed w' = completed w
        \<and> ended_because_offline w' = ended_because_offline w
        \<and> ended_because_wrong_category w' = ended_because_wrong_category w
        \<and> minutes_target w' = minutes_target w
        \<and> cumulative_time_callback w' = cumulative_time_callback w)"
proof -
  obtain live w1 evs1 where res: "is_stream_live up w (live_probe t) = (live, w1, evs1)"
    by (cases "is_stream_live up w (live_probe t)")
  let ?w2 = "count_fresh_check (last_live_check w1 \<noteq> last_live_check w) live w1"
  obtain wrong w3 evs2 where cc: "category_check up t ?w2 live = (wrong, w3, evs2)"
    by (cases "category_check up t ?w2 live")
  note c1 = is_stream_live_const[OF res]
  note c3 = category_check_const[OF cc]
  have e1: "CumulativeTimeCall \<notin> set evs1" using is_stream_live_events[OF res] by auto
  have e2: "CumulativeTimeCall \<notin> set evs2" using category_check_events[OF cc] by auto
  note c4 = category_check_wrong_flag[OF cc]
  have fl: "completed w3 = completed w" "minutes_target w3 = minutes_target w"
    "cumulative_time_callback w3 = cumulative_time_callback w"
    "ended_because_offline w3 = ended_because_offline w"
    "ended_because_wrong_category w3 = (ended_because_wrong_category w \<or> wrong)"
    using c1 c3 c4 by (simp_all add: count_fresh_check_const)
  show ?thesis
  proof (cases "offline_reached live ?w2")
    case True
    then show ?thesis using c1 e1
      by (simp add: loop_body_unfold[OF res] Let_def count_fresh_check_const)
  next
    case False
    show ?thesis
    proof (cases wrong)
      case True
      then show ?thesis using False cc fl e1 e2
        by (simp add: loop_body_unfold[OF res] Let_def)
    next
      case nw: False
      have lb: "loop_body up t w lr = account_and_report t w3 live lr (evs1 @ evs2)"
        using False nw cc by (simp add: loop_body_unfold[OF res] Let_def)
      let ?w4 = "if live then w3\<lparr>elapsed_seconds := elapsed_seconds w3 + 1\<rparr> else w3"
      have fl4: "completed ?w4 = completed w" "minutes_target ?w4 = minutes_target w"
          "cumulative_time_callback ?w4 = cumulative_time_callback w"
          "ended_because_offline ?w4 = ended_because_offline w"
          "ended_because_wrong_category ?w4 = ended_because_wrong_category w"
        using fl nw by auto
      show ?thesis
      proof (cases "report_now t - lr \<ge> 1 \<and> on_update w3 \<and> on_update_raises t")
        case True
        then show ?thesis using lb fl4 e1 e2
          by (simp add: account_and_report_eq Let_def)
      next
        case nr: False
        let ?evs = "if report_now t - lr \<ge> 1 \<and> on_update w3
                    then (evs1 @ evs2) @ [OnUpdate (elapsed_seconds ?w4) live] else evs1 @ evs2"
        have "loop_body up t w lr
              = completion_check t ?w4 (if report_now t - lr \<ge> 1 then report_stamp t else lr) ?evs"
          using lb nr by (simp add: account_and_report_eq Let_def)
        moreover have "CumulativeTimeCall \<notin> set ?evs" using e1 e2 by auto
        ultimately show ?thesis using fl4 by blast
      qed
    qed
  qed
qed

text \<open>Each of the three flags is set by its own \<open>break\<close> and by nothing else.\<close>

lemma loop_body_flags:
  "completed (step_worker (loop_body up t w lr))
     = (completed w \<or> step_exit (loop_body up t w lr) = Some Completed)"
  "ended_because_offline (step_worker (loop_body up t w lr))
     = (ended_because_offline w \<or> step_exit (loop_body up t w lr) = Some Offline)"
  "ended_because_wrong_category (step_worker (loop_body up t w lr))
     = (ended_because_wrong_category w \<or> step_exit (loop_body up t w lr) = Some WrongCategory)"
  using loop_body_cases[of up t w lr]
  by (auto simp: completion_check_flag completion_check_counter completion_check_const)

lemma loop_body_no_target:
  "minutes_target w = 0 \<Longrightarrow> step_exit (loop_body up t w lr) \<noteq> Some Completed"
  using loop_body_cases[of up t w lr]
  by (auto dest: completion_check_completed)

lemma run_loop_no_target:
  "minutes_target w = 0 \<Longrightarrow> fst (run_loop up ts w lr) \<noteq> Some Completed"
proof (induction ts arbitrary: w lr)
  case Nil
  then show ?case by simp
next
  case (Cons t ts)
  show ?case
  proof (cases "loop_body up t w lr")
    case (Continue w1 lr1 evs)
    have "minutes_target w1 = 0"
      using loop_body_const(2)[of up t w lr] Continue Cons.prems by simp
    from Cons.IH[OF this, of lr1] show ?thesis
      using Continue by (auto split: prod.splits)
  next
    case (Exit reason w1 evs)
    then show ?thesis
      using loop_body_no_target[OF Cons.prems, of up t lr] by simp
  qed
qed

lemma startup_const:
  "startup domain w s = (ok, w1) \<Longrightarrow>
   minutes_target w1 = minutes_target w \<and> on_finish w1 = on_finish w
   \<and> completed w1 = completed w \<and> elapsed_seconds w1 = elapsed_seconds w
   \<and> ended_because_offline w1 = ended_because_offline w
   \<and> ended_because_wrong_category w1 = ended_because_wrong_category w"
  by (auto simp: startup_def Let_def split: if_splits)

lemma run_no_target:
  assumes "minutes_target w = 0"
  shows "run up w s ts \<noteq> Ended Completed w' evs"
proof (cases "domain_from_url up (url w)")
  case Raised
  then show ?thesis by (simp add: run_def)
next
  case (Returned domain)
  obtain ok w1 where st: "startup domain w s = (ok, w1)" by (cases "startup domain w s")
  have m: "minutes_target w1 = 0" using startup_const[OF st] assms by simp
  obtain r w2 evs2 where rl: "run_loop up ts w1 0 = (r, w2, evs2)"
    by (cases "run_loop up ts w1 0")
  have "r \<noteq> Some Completed" using run_loop_no_target[OF m, of up ts 0] rl by simp
  then show ?thesis using Returned st rl
    by (cases ok; cases r) (auto simp: run_def)
qed

lemma completion_check_individual:
  assumes "minutes_target w \<noteq> 0" "\<not> cumulative_time_callback w"
  shows "completion_check t w lr evs =
     (if minutes_target w * 60 \<le> elapsed_seconds w
      then Exit Completed (w\<lparr>completed := True\<rparr>) evs
      else Continue w lr evs)"
  using assms by (simp add: completion_check_def)

lemma api_replies:
  "browser_api_source offline_reply = Some False"
  "browser_api_source live_reply = Some True"
  by (simp_all add: browser_api_source_def offline_reply_def live_reply_def livestream_is_live_def)

lemma demo_worker_fields:
  "url demo_worker = ''https://kick.com/alice''"
  "last_live_check demo_worker = 0" "live_check_interval demo_worker = 10"
  "last_live_value demo_worker" "offline_fresh_checks demo_worker = 0"
  "offline_fresh_checks_to_switch demo_worker = 2"
  "minutes_target demo_worker = 1" "\<not> cumulative_time_callback demo_worker"
  "elapsed_seconds demo_worker = 0" "\<not> completed demo_worker"
  by (simp_all add: demo_worker_def StreamWorker_init_def)

lemma probe_fresh_eval:
  assumes "url w = ''https://kick.com/alice''"
      and "\<not> time - last_live_check w < live_check_interval w"
      and "browser_api_source reply = Some v"
  shows "is_stream_live kick_urlparse w (live_probe (probe_tick time reply)) =
     (v, w\<lparr>last_live_value := v, last_live_source := ''browser_api'',
            live_check_interval := (if v then 8 else 5), last_live_check := time\<rparr>,
      [BrowserApiFetch])"
  using assms
  by (simp add: is_stream_live_def probe_sources_def probe_tick_def kick_username_alice Let_def)

lemma probe_cached_eval:
  assumes "time - last_live_check w < live_check_interval w"
  shows "is_stream_live kick_urlparse w (live_probe (probe_tick time reply)) =
     (last_live_value w, w, [])"
  using assms by (simp add: is_stream_live_def probe_tick_def)

text \<open>The flags at the end of the loop tell how it was left.\<close>

lemma run_loop_flags:
  "run_loop up ts w lr = (r, w', evs) \<Longrightarrow>
   completed w' = (completed w \<or> r = Some Completed)
   \<and> ended_because_offline w' = (ended_because_offline w \<or> r = Some Offline)
   \<and> ended_because_wrong_category w'
         = (ended_because_wrong_category w \<or> r = Some WrongCategory)"
proof (induction ts arbitrary: w lr r w' evs)
  case Nil
  then show ?case by simp
next
  case (Cons t ts)
  show ?case
  proof (cases "stop_is_set t")
    case True
    with Cons.prems show ?thesis by auto
  next
    case False
    show ?thesis
    proof (cases "loop_body up t w lr")
      case (Continue w1 lr1 evs1)
      have f1: "completed w1 = completed w" "ended_because_offline w1 = ended_because_offline w"
        "ended_because_wrong_category w1 = ended_because_wrong_category w"
        using loop_body_flags[of up t w lr] by (simp_all add: Continue)
      obtain r2 w2 evs2 where rl: "run_loop up ts w1 lr1 = (r2, w2, evs2)"
        by (cases "run_loop up ts w1 lr1")
      have "r = r2" "w' = w2" using Cons.prems False Continue rl by simp_all
      with Cons.IH[OF rl] f1 show ?thesis by simp
    next
      case (Exit reason w1 evs1)
      have f1: "completed w1 = (completed w \<or> reason = Completed)"
        "ended_because_offline w1 = (ended_because_offline w \<or> reason = Offline)"
        "ended_because_wrong_category w1 = (ended_because_wrong_category w \<or> reason = WrongCategory)"
        using loop_body_flags[of up t w lr] by (simp_all add: Exit)
      have "r = Some reason" "w' = w1" using Cons.prems False Exit by simp_all
      with f1 show ?thesis by simp
    qed
  qed
qed

text \<open>
  C4, as the code has it. The stop flag is read by the loop condition only. Found set
  there, it ends the session at once with reason stopped and the session untouched. Set
  during an iteration (not set at its start, set at the start of the next one), it ends
  the session with reason stopped at the next loop condition, unless the iteration in
  progress leaves the loop by itself, in which case that reason stands. A session that
  ends as stopped has none of the three flags set, if none was set before.
\<close>

theorem stop_flag_read_by_loop_condition:
  "(stop_is_set t \<longrightarrow> run_loop up (t # ts) w lr = (Some Stopped, w, []))
   \<and> (\<not> stop_is_set t \<and> stop_is_set t' \<longrightarrow>
        run_loop up (t # t' # ts) w lr =
          (case loop_body up t w lr of
             Exit reason w1 evs \<Rightarrow> (Some reason, w1, evs)
           | Continue w1 lr1 evs \<Rightarrow> (Some Stopped, w1, evs)))
   \<and> (fst (run_loop up ts w lr) = Some Stopped
        \<and> \<not> completed w \<and> \<not> ended_because_offline w \<and> \<not> ended_because_wrong_category w
      \<longrightarrow> \<not> completed (fst (snd (run_loop up ts w lr)))
          \<and> \<not> ended_because_offline (fst (snd (run_loop up ts w lr)))
          \<and> \<not> ended_because_wrong_category (fst (snd (run_loop up ts w lr))))"
proof -
  obtain r w' evs where rl: "run_loop up ts w lr = (r, w', evs)"
    by (cases "run_loop up ts w lr")
  have "\<not> stop_is_set t \<and> stop_is_set t' \<longrightarrow>
        run_loop up (t # t' # ts) w lr =
          (case loop_body up t w lr of
             Exit reason w1 evs \<Rightarrow> (Some reason, w1, evs)
           | Continue w1 lr1 evs \<Rightarrow> (Some Stopped, w1, evs))"
    by (cases "loop_body up t w lr") simp_all
  then show ?thesis
    using run_loop_flags[OF rl] rl by simp
qed

lemma loop_body_cached_live:
  assumes "time - last_live_check w < live_check_interval w" "last_live_value w"
      and "\<not> (truthy (required_category_id w)
              \<and> category_now (probe_tick time reply) - last_category_check w
                 \<ge> category_check_interval w)"
  shows "loop_body kick_urlparse ((probe_tick time reply)\<lparr>cumulative_time := c\<rparr>) w lr =
           account_and_report ((probe_tick time reply)\<lparr>cumulative_time := c\<rparr>) w True lr []"
  using assms
  by (auto simp: loop_body_def is_stream_live_def probe_tick_def count_fresh_check_def
      offline_reached_def category_check_def Let_def)

lemma campaign_worker_fields:
  "url campaign_worker = ''https://kick.com/alice''"
  "last_live_check campaign_worker = 0" "live_check_interval campaign_worker = 10"
  "last_live_value campaign_worker" "required_category_id campaign_worker = JNull"
  "minutes_target campaign_worker = 10" "cumulative_time_callback campaign_worker"
  "on_update campaign_worker"
  by (simp_all add: campaign_worker_def StreamWorker_init_def)

lemma total_550_eval:
  "loop_body kick_urlparse total_550 campaign_worker 0
     = Continue (campaign_worker\<lparr>elapsed_seconds := 1\<rparr>) 5 [OnUpdate 1 True, CumulativeTimeCall]"
  unfolding total_550_def
  by (subst loop_body_cached_live)
     (simp_all add: campaign_worker_fields account_and_report_def completion_check_def
        probe_tick_def Let_def, simp add: campaign_worker_def StreamWorker_init_def)

lemma total_600_eval:
  "loop_body kick_urlparse total_600 campaign_worker 0
     = Exit Completed (campaign_worker\<lparr>elapsed_seconds := 1, completed := True\<rparr>)
         [OnUpdate 1 True, CumulativeTimeCall]"
  unfolding total_600_def
  by (subst loop_body_cached_live)
     (simp_all add: campaign_worker_fields account_and_report_def completion_check_def
        probe_tick_def Let_def, simp add: campaign_worker_def StreamWorker_init_def)

lemma probe_tick_cumulative: "(probe_tick time reply)\<lparr>cumulative_time := Returned 0\<rparr> = probe_tick time reply"
  by (simp add: probe_tick_def)

lemma last_second_eval:
  "loop_body kick_urlparse (probe_tick 5 live_reply) almost_done 0
     = Exit Completed (almost_done\<lparr>elapsed_seconds := 60, completed := True\<rparr>) [OnUpdate 60 True]"
proof -
  have "loop_body kick_urlparse ((probe_tick 5 live_reply)\<lparr>cumulative_time := Returned 0\<rparr>) almost_done 0
     = Exit Completed (almost_done\<lparr>elapsed_seconds := 60, completed := True\<rparr>) [OnUpdate 60 True]"
    by (subst loop_body_cached_live)
       (simp_all add: almost_done_def demo_worker_def StreamWorker_init_def
          account_and_report_def completion_check_def probe_tick_def Let_def)
  then show ?thesis by (simp add: probe_tick_cumulative)
qed

text \<open>
  C4, as the claim states it, fails: the stop flag is not set when the iteration of the
  sixtieth second starts and is set before the next one; the completion check of the
  iteration in progress ends the session as completed, not as stopped.
\<close>

theorem stop_during_final_iteration_completes:
  "\<not> stop_is_set (probe_tick 5 live_reply) \<and> stop_is_set stop_requested
   \<and> run_loop kick_urlparse [probe_tick 5 live_reply, stop_requested] almost_done 0
       = (Some Completed, almost_done\<lparr>elapsed_seconds := 60, completed := True\<rparr>,
          [OnUpdate 60 True])"
  by (simp add: last_second_eval) (simp add: probe_tick_def stop_requested_def)

lemma first_second_eval:
  "loop_body kick_urlparse (probe_tick 5 live_reply) demo_worker 0
     = Continue (demo_worker\<lparr>elapsed_seconds := 1\<rparr>) 5 [OnUpdate 1 True]"
proof -
  have "loop_body kick_urlparse ((probe_tick 5 live_reply)\<lparr>cumulative_time := Returned 0\<rparr>) demo_worker 0
     = Continue (demo_worker\<lparr>elapsed_seconds := 1\<rparr>) 5 [OnUpdate 1 True]"
    by (subst loop_body_cached_live)
       (simp_all add: demo_worker_def StreamWorker_init_def
          account_and_report_def completion_check_def probe_tick_def Let_def)
  then show ?thesis by (simp add: probe_tick_cumulative)
qed

theorem stop_flag_read_by_loop_condition_witness:
  "run_loop kick_urlparse [stop_requested] demo_worker 0 = (Some Stopped, demo_worker, [])
   \<and> run_loop kick_urlparse [probe_tick 5 live_reply, stop_requested] demo_worker 0
       = (Some Stopped, demo_worker\<lparr>elapsed_seconds := 1\<rparr>, [OnUpdate 1 True])
   \<and> \<not> completed (fst (snd (run_loop kick_urlparse [probe_tick 5 live_reply, stop_requested] demo_worker 0)))
   \<and> \<not> ended_because_offline (fst (snd (run_loop kick_urlparse [probe_tick 5 live_reply, stop_requested] demo_worker 0)))
   \<and> \<not> ended_because_wrong_category (fst (snd (run_loop kick_urlparse [probe_tick 5 live_reply, stop_requested] demo_worker 0)))"
proof -
  have s: "stop_is_set stop_requested" "\<not> stop_is_set (probe_tick 5 live_reply)"
    by (simp_all add: stop_requested_def probe_tick_def)
  have a: "run_loop kick_urlparse [stop_requested] demo_worker 0 = (Some Stopped, demo_worker, [])"
    using stop_flag_read_by_loop_condition[of stop_requested kick_urlparse "[]" demo_worker 0,
            THEN conjunct1] s
    by simp
  have b: "run_loop kick_urlparse [probe_tick 5 live_reply, stop_requested] demo_worker 0
       = (Some Stopped, demo_worker\<lparr>elapsed_seconds := 1\<rparr>, [OnUpdate 1 True])"
    using stop_flag_read_by_loop_condition[of "probe_tick 5 live_reply" kick_urlparse "[]"
            demo_worker 0 stop_requested, THEN conjunct2, THEN conjunct1] s
    by (simp add: first_second_eval)
  have f: "\<not> completed demo_worker" "\<not> ended_because_offline demo_worker"
          "\<not> ended_because_wrong_category demo_worker"
    by (simp_all add: demo_worker_def StreamWorker_init_def)
  have c: "\<not> completed (fst (snd (run_loop kick_urlparse [probe_tick 5 live_reply, stop_requested] demo_worker 0)))
   \<and> \<not> ended_because_offline (fst (snd (run_loop kick_urlparse [probe_tick 5 live_reply, stop_requested] demo_worker 0)))
   \<and> \<not> ended_because_wrong_category (fst (snd (run_loop kick_urlparse [probe_tick 5 live_reply, stop_requested] demo_worker 0)))"
    using stop_flag_read_by_loop_condition[of _ kick_urlparse
            "[probe_tick 5 live_reply, stop_requested]" demo_worker 0,
            THEN conjunct2, THEN conjunct2] b f
    by simp
  from a b c show ?thesis by blast
qed

section \<open>The terminal callback\<close>

lemma completion_check_events:
  "set (step_events (completion_check t w lr evs)) \<subseteq> set evs \<union> {CumulativeTimeCall}"
  by (auto simp: completion_check_def split: outcome.splits)

lemma account_and_report_events:
  "set (step_events (account_and_report t w live lr evs))
     \<subseteq> set evs \<union> {CumulativeTimeCall} \<union> {e. \<exists>n. e = OnUpdate n live}"
  using completion_check_events
  by (auto simp: account_and_report_eq Let_def dest!: subsetD[OF completion_check_events])

lemma loop_body_events:
  assumes "e \<in> set (step_events (loop_body up t w lr))"
  shows "\<not> is_finish e \<and> e \<noteq> DriverQuit"
proof -
  obtain live w1 evs1 where res: "is_stream_live up w (live_probe t) = (live, w1, evs1)"
    by (cases "is_stream_live up w (live_probe t)")
  let ?w2 = "count_fresh_check (last_live_check w1 \<noteq> last_live_check w) live w1"
  obtain wrong w3 evs2 where cc: "category_check up t ?w2 live = (wrong, w3, evs2)"
    by (cases "category_check up t ?w2 live")
  note e1 = is_stream_live_events[OF res]
  note e2 = category_check_events[OF cc]
  have "e \<in> set evs1 \<union> set evs2 \<union> {CumulativeTimeCall} \<union> {e. \<exists>n. e = OnUpdate n live}"
    using assms cc account_and_report_events[of t w3 live lr "evs1 @ evs2"]
    by (auto simp: loop_body_unfold[OF res] Let_def split: if_splits)
  then show ?thesis using e1 e2 by auto
qed

lemma run_loop_events:
  "e \<in> set (snd (snd (run_loop up ts w lr))) \<Longrightarrow> \<not> is_finish e \<and> e \<noteq> DriverQuit"
proof (induction ts arbitrary: w lr)
  case Nil
  then show ?case by simp
next
  case (Cons t ts)
  show ?case
  proof (cases "stop_is_set t")
    case True
    with Cons.prems show ?thesis by simp
  next
    case False
    show ?thesis
    proof (cases "loop_body up t w lr")
      case (Continue w1 lr1 evs1)
      have "e \<in> set evs1 \<or> e \<in> set (snd (snd (run_loop up ts w1 lr1)))"
        using Cons.prems False Continue by (auto split: prod.splits)
      then show ?thesis
        using Cons.IH[of w1 lr1] loop_body_events[of e up t w lr] Continue by auto
    next
      case (Exit reason w1 evs1)
      then show ?thesis
        using Cons.prems False loop_body_events[of e up t w lr] by auto
    qed
  qed
qed

lemma run_loop_on_finish:
  "on_finish (fst (snd (run_loop up ts w lr))) = on_finish w"
proof (induction ts arbitrary: w lr)
  case Nil
  then show ?case by simp
next
  case (Cons t ts)
  show ?case
  proof (cases "loop_body up t w lr")
    case (Continue w1 lr1 evs1)
    have "on_finish w1 = on_finish w" using loop_body_const(4)[of up t w lr] Continue by simp
    with Cons.IH[of w1 lr1] Continue show ?thesis by (auto split: prod.splits)
  next
    case (Exit reason w1 evs1)
    have "on_finish w1 = on_finish w" using loop_body_const(4)[of up t w lr] Exit by simp
    with Exit show ?thesis by simp
  qed
qed

lemma filter_no_finish: "(\<And>e. e \<in> set evs \<Longrightarrow> \<not> is_finish e) \<Longrightarrow> filter is_finish evs = []"
  by (induction evs) auto

lemma cleanup_with_callback:
  "on_finish w \<Longrightarrow>
   filter is_finish (cleanup w) = [OnFinish (elapsed_seconds w) (completed w)]
   \<and> last (evs @ cleanup w) = OnFinish (elapsed_seconds w) (completed w)"
  by (simp add: cleanup_def)

section \<open>The category check\<close>

lemma probe_times_append: "probe_times (xs @ ys) = probe_times xs @ probe_times ys"
  by (induction xs rule: probe_times.induct) simp_all

lemma probe_times_none: "(\<And>x. CategoryProbe x \<notin> set evs) \<Longrightarrow> probe_times evs = []"
  by (induction evs rule: probe_times.induct) auto

lemma probe_times_mem: "x \<in> set (probe_times evs) \<longleftrightarrow> CategoryProbe x \<in> set evs"
  by (induction evs rule: probe_times.induct) auto

lemma spaced_append:
  "spaced d previous (xs @ ys) = (spaced d previous xs \<and> spaced d (last (previous # xs)) ys)"
  by (induction xs arbitrary: previous) auto

lemma get_streamer_category_id_cong:
  "url w' = url w \<Longrightarrow> driver w' = driver w \<Longrightarrow>
   get_streamer_category_id up w' r = get_streamer_category_id up w r"
  by (simp add: get_streamer_category_id_def)

lemma completion_check_probe_times:
  "probe_times (step_events (completion_check t w lr evs)) = probe_times evs"
  by (auto simp: completion_check_def probe_times_append split: outcome.splits)

lemma account_and_report_probe_times:
  "probe_times (step_events (account_and_report t w live lr evs)) = probe_times evs"
  by (auto simp: account_and_report_eq Let_def completion_check_probe_times probe_times_append)

text \<open>What the category check does, given the probe's answer.\<close>

lemma category_check_eq:
  "category_check up t w live =
     (if truthy (required_category_id w) \<and> live
         \<and> category_now t - last_category_check w \<ge> category_check_interval w
      then (let cid = get_streamer_category_id up w (category_reply t);
                w1 = w\<lparr>last_category_check := category_now t\<rparr>
            in if cid \<noteq> JNull \<and> \<not> py_eq cid (required_category_id w)
               then (True, w1\<lparr>ended_because_wrong_category := True\<rparr>,
                     [CategoryProbe (category_now t)])
               else (False, w1, [CategoryProbe (category_now t)]))
      else (False, w, []))"
  by (simp add: category_check_def Let_def
      get_streamer_category_id_cong[of "w\<lparr>last_category_check := category_now t\<rparr>" w])

text \<open>An iteration makes no category probe, or one probe that was due, on a live channel.\<close>

lemma loop_body_probe:
  "(probe_times (step_events (loop_body up t w lr)) = []
      \<and> last_category_check (step_worker (loop_body up t w lr)) = last_category_check w)
   \<or> (probe_times (step_events (loop_body up t w lr)) = [category_now t]
      \<and> category_now t - last_category_check w \<ge> category_check_interval w
      \<and> last_category_check (step_worker (loop_body up t w lr)) = category_now t
      \<and> fst (is_stream_live up w (live_probe t))
      \<and> truthy (required_category_id w))"
proof -
  obtain live w1 evs1 where res: "is_stream_live up w (live_probe t) = (live, w1, evs1)"
    by (cases "is_stream_live up w (live_probe t)")
  let ?w2 = "count_fresh_check (last_live_check w1 \<noteq> last_live_check w) live w1"
  obtain wrong w3 evs2 where cc: "category_check up t ?w2 live = (wrong, w3, evs2)"
    by (cases "category_check up t ?w2 live")
  note c1 = is_stream_live_const[OF res]
  have p1: "probe_times evs1 = []"
    using is_stream_live_events[OF res] by (intro probe_times_none) auto
  have k: "last_category_check ?w2 = last_category_check w"
          "category_check_interval ?w2 = category_check_interval w"
          "required_category_id ?w2 = required_category_id w"
    using c1 by (simp_all add: count_fresh_check_const)
  show ?thesis
  proof (cases "offline_reached live ?w2")
    case True
    then show ?thesis using p1 k
      by (simp add: loop_body_unfold[OF res] Let_def)
  next
    case False
    have cases2: "(evs2 = [] \<and> w3 = ?w2 \<and> \<not> wrong)
       \<or> (evs2 = [CategoryProbe (category_now t)] \<and> last_category_check w3 = category_now t
           \<and> category_now t - last_category_check w \<ge> category_check_interval w
           \<and> live \<and> truthy (required_category_id w))"
      using cc k by (auto simp: category_check_eq Let_def split: if_splits)
    show ?thesis
    proof (cases wrong)
      case True
      then show ?thesis using False cc cases2 p1 res
        by (auto simp: loop_body_unfold[OF res] Let_def probe_times_append)
    next
      case nw: False
      then show ?thesis using False cc cases2 p1 res k
        by (auto simp: loop_body_unfold[OF res] Let_def probe_times_append
            account_and_report_probe_times account_and_report_const)
    qed
  qed
qed

lemma run_loop_spaced:
  "spaced (category_check_interval w) (last_category_check w)
     (probe_times (snd (snd (run_loop up ts w lr))))
   \<and> last_category_check (fst (snd (run_loop up ts w lr)))
       = last (last_category_check w # probe_times (snd (snd (run_loop up ts w lr))))"
proof (induction ts arbitrary: w lr)
  case Nil
  then show ?case by simp
next
  case (Cons t ts)
  show ?case
  proof (cases "stop_is_set t")
    case True
    then show ?thesis by simp
  next
    case False
    note lp = loop_body_probe[of up t w lr]
    show ?thesis
    proof (cases "loop_body up t w lr")
      case (Continue w1 lr1 evs1)
      have i: "category_check_interval w1 = category_check_interval w"
        using loop_body_const(9)[of up t w lr] Continue by simp
      obtain r w2 evs2 where rl: "run_loop up ts w1 lr1 = (r, w2, evs2)"
        by (cases "run_loop up ts w1 lr1")
      from Cons.IH[of w1 lr1] lp show ?thesis
        using False Continue i rl
        by (auto simp: probe_times_append spaced_append)
    next
      case (Exit reason w1 evs1)
      with lp False show ?thesis by auto
    qed
  qed
qed

lemma demo_category_7:
  "get_streamer_category_id kick_urlparse demo_worker category_7 = JInt 7"
  by (simp add: get_streamer_category_id_def demo_worker_def StreamWorker_init_def
      kick_username_alice category_7_def first_category_id_def livestream_is_live_def)

lemma demo_category_none:
  "get_streamer_category_id kick_urlparse w Raised = JNull"
  by (simp add: get_streamer_category_id_def split: option.splits)

lemma new_campaign_session_started:
  "new_campaign_session\<lparr>driver := True\<rparr> = campaign_worker"
  by (simp add: new_campaign_session_def campaign_worker_def)

lemma campaign_run_eval:
  "run kick_urlparse new_campaign_session browser_ok [total_600]
     = Ended Completed (campaign_worker\<lparr>elapsed_seconds := 1, completed := True\<rparr>)
         [OnUpdate 1 True, CumulativeTimeCall, DriverQuit, OnFinish 1 True]"
proof -
  have d: "domain_from_url kick_urlparse (url new_campaign_session) = Returned ''kick.com''"
    by (simp add: domain_from_url_def kick_urlparse_def)
  have s: "startup ''kick.com'' new_campaign_session browser_ok = (True, campaign_worker)"
    by (simp add: startup_def browser_ok_def Let_def new_campaign_session_started)
  have st: "\<not> stop_is_set total_600" by (simp add: total_600_def probe_tick_def)
  have f: "driver (campaign_worker\<lparr>elapsed_seconds := 1, completed := True\<rparr>)"
          "on_finish (campaign_worker\<lparr>elapsed_seconds := 1, completed := True\<rparr>)"
    by (simp_all add: campaign_worker_def StreamWorker_init_def)
  show ?thesis
    using d s st f by (simp add: run_def total_600_eval cleanup_def)
qed

lemma no_browser_run_eval:
  "run kick_urlparse new_campaign_session no_browser [total_600]
     = Ended Crashed new_campaign_session [OnFinish 0 False]"
proof -
  have d: "domain_from_url kick_urlparse (url new_campaign_session) = Returned ''kick.com''"
    by (simp add: domain_from_url_def kick_urlparse_def)
  have s: "startup ''kick.com'' new_campaign_session no_browser = (False, new_campaign_session)"
    by (simp add: startup_def no_browser_def browser_ok_def)
  have f: "\<not> driver new_campaign_session" "on_finish new_campaign_session"
          "elapsed_seconds new_campaign_session = 0" "\<not> completed new_campaign_session"
    by (simp_all add: new_campaign_session_def StreamWorker_init_def)
  show ?thesis
    using d s f by (simp add: run_def cleanup_def)
qed

lemma demo_fresh_live_40:
  "is_stream_live kick_urlparse demo_worker (live_probe (probe_tick 40 live_reply))
     = (True, demo_worker\<lparr>last_live_value := True, last_live_source := ''browser_api'',
            live_check_interval := 8, last_live_check := 40\<rparr>, [BrowserApiFetch])"
  using probe_fresh_eval[of demo_worker 40 live_reply True]
  by (simp add: demo_worker_fields api_replies)

lemma in_category_7_fields:
  "live_probe in_category_7 = live_probe (probe_tick 40 live_reply)"
  "category_now in_category_7 = 40" "category_reply in_category_7 = category_7"
  "category_now (probe_tick 40 live_reply) = 40" "category_reply (probe_tick 40 live_reply) = Raised"
  "\<not> on_update_raises (probe_tick 40 live_reply)"
  by (simp_all add: in_category_7_def probe_tick_def)

lemma demo_category_fields:
  "required_category_id demo_worker = JInt 5" "last_category_check demo_worker = 0"
  "category_check_interval demo_worker = 30"
  "required_category_id no_target = JInt 5" "last_category_check no_target = 0"
  "category_check_interval no_target = 30" "minutes_target no_target = 0"
  "url no_target = ''https://kick.com/alice''" "last_live_check no_target = 0"
  "live_check_interval no_target = 10"
  by (simp_all add: demo_worker_def no_target_def StreamWorker_init_def)

lemma in_category_7_eval:
  "loop_body kick_urlparse in_category_7 demo_worker 0
     = Exit WrongCategory
         (demo_worker\<lparr>last_live_value := True, last_live_source := ''browser_api'',
            live_check_interval := 8, last_live_check := 40, offline_fresh_checks := 0,
            last_category_check := 40, ended_because_wrong_category := True\<rparr>)
         [BrowserApiFetch, CategoryProbe 40]"
proof -
  have res: "is_stream_live kick_urlparse demo_worker (live_probe in_category_7)
     = (True, demo_worker\<lparr>last_live_value := True, last_live_source := ''browser_api'',
            live_check_interval := 8, last_live_check := 40\<rparr>, [BrowserApiFetch])"
    using demo_fresh_live_40 by (simp add: in_category_7_fields)
  have g: "get_streamer_category_id kick_urlparse
             (demo_worker\<lparr>last_live_value := True, last_live_source := ''browser_api'',
                live_check_interval := 8, last_live_check := 40, offline_fresh_checks := 0\<rparr>)
             category_7 = JInt 7"
    by (subst get_streamer_category_id_cong[of _ demo_worker]) (simp_all add: demo_category_7)
  show ?thesis
    by (simp add: loop_body_unfold[OF res] Let_def count_fresh_check_def offline_reached_def
        category_check_eq in_category_7_fields demo_category_fields demo_worker_fields g)
qed

section \<open>How an iteration leaves the loop\<close>

lemma completion_check_exit:
  "step_exit (completion_check t w lr evs) =
     (if minutes_target w = 0 then None
      else if cumulative_time_callback w
      then (case cumulative_time t of
              Raised \<Rightarrow> Some Crashed
            | Returned c \<Rightarrow> if minutes_target w * 60 \<le> c then Some Completed else None)
      else if minutes_target w * 60 \<le> elapsed_seconds w then Some Completed else None)"
  "elapsed_seconds (step_worker (completion_check t w lr evs)) = elapsed_seconds w"
  "completed (step_worker (completion_check t w lr evs))
     = (completed w \<or> step_exit (completion_check t w lr evs) = Some Completed)"
  "CumulativeTimeCall \<in> set (step_events (completion_check t w lr evs))
     = (CumulativeTimeCall \<in> set evs \<or> (minutes_target w \<noteq> 0 \<and> cumulative_time_callback w))"
  by (auto simp: completion_check_def split: outcome.splits)

lemma account_and_report_exit:
  "step_exit (account_and_report t w live lr evs) =
     (if report_now t - lr \<ge> 1 \<and> on_update w \<and> on_update_raises t then Some Crashed
      else if minutes_target w = 0 then None
      else if cumulative_time_callback w
      then (case cumulative_time t of
              Raised \<Rightarrow> Some Crashed
            | Returned c \<Rightarrow> if minutes_target w * 60 \<le> c then Some Completed else None)
      else if minutes_target w * 60 \<le> elapsed_seconds w + (if live then 1 else 0)
           then Some Completed else None)"
  "elapsed_seconds (step_worker (account_and_report t w live lr evs))
     = elapsed_seconds w + (if live then 1 else 0)"
  "completed (step_worker (account_and_report t w live lr evs))
     = (completed w \<or> step_exit (account_and_report t w live lr evs) = Some Completed)"
  "CumulativeTimeCall \<notin> set evs \<Longrightarrow>
   CumulativeTimeCall \<in> set (step_events (account_and_report t w live lr evs))
     = (\<not> (report_now t - lr \<ge> 1 \<and> on_update w \<and> on_update_raises t)
        \<and> minutes_target w \<noteq> 0 \<and> cumulative_time_callback w)"
  by (simp_all add: account_and_report_eq Let_def completion_check_exit split: outcome.splits)

text \<open>
  How an iteration leaves the loop, in the order of the source: the offline \<open>break\<close>, the
  category \<open>break\<close>, an exception of \<open>on_update\<close>, then the completion check.
\<close>

lemma loop_body_exit:
  assumes res: "is_stream_live up w (live_probe t) = (live, w1, evs1)"
  shows "step_exit (loop_body up t w lr) =
     (if offline_reached live (count_fresh_check (last_live_check w1 \<noteq> last_live_check w) live w1)
      then Some Offline
      else if fst (category_check up t
                (count_fresh_check (last_live_check w1 \<noteq> last_live_check w) live w1) live)
      then Some WrongCategory
      else if report_now t - lr \<ge> 1 \<and> on_update w \<and> on_update_raises t then Some Crashed
      else if minutes_target w = 0 then None
      else if cumulative_time_callback w
      then (case cumulative_time t of
              Raised \<Rightarrow> Some Crashed
            | Returned c \<Rightarrow> if minutes_target w * 60 \<le> c then Some Completed else None)
      else if minutes_target w * 60 \<le> elapsed_seconds w + (if live then 1 else 0)
           then Some Completed else None)"
    and "elapsed_seconds (step_worker (loop_body up t w lr))
       = elapsed_seconds w
         + (if live \<and> step_exit (loop_body up t w lr) \<noteq> Some WrongCategory then 1 else 0)"
    and "completed (step_worker (loop_body up t w lr))
       = (completed w \<or> step_exit (loop_body up t w lr) = Some Completed)"
    and "CumulativeTimeCall \<in> set (step_events (loop_body up t w lr))
       = (step_exit (loop_body up t w lr) \<noteq> Some Offline
          \<and> step_exit (loop_body up t w lr) \<noteq> Some WrongCategory
          \<and> \<not> (report_now t - lr \<ge> 1 \<and> on_update w \<and> on_update_raises t)
          \<and> minutes_target w \<noteq> 0 \<and> cumulative_time_callback w)"
    and "step_exit (loop_body up t w lr) \<noteq> Some Stopped"
proof -
  let ?w2 = "count_fresh_check (last_live_check w1 \<noteq> last_live_check w) live w1"
  obtain wrong w3 evs2 where cc: "category_check up t ?w2 live = (wrong, w3, evs2)"
    by (cases "category_check up t ?w2 live")
  note c1 = is_stream_live_const[OF res]
  note c3 = category_check_const[OF cc]
  have k: "on_update w3 = on_update w" "minutes_target w3 = minutes_target w"
          "cumulative_time_callback w3 = cumulative_time_callback w"
          "elapsed_seconds w3 = elapsed_seconds w" "completed w3 = completed w"
          "elapsed_seconds ?w2 = elapsed_seconds w" "completed ?w2 = completed w"
    using c1 c3 by (simp_all add: count_fresh_check_const)
  have nc: "CumulativeTimeCall \<notin> set (evs1 @ evs2)"
    using is_stream_live_events[OF res] category_check_events[OF cc] by auto
  have lv: "offline_reached live ?w2 \<Longrightarrow> \<not> live" by (simp add: offline_reached_def)
  have lb: "loop_body up t w lr =
     (if offline_reached live ?w2 then Exit Offline (?w2\<lparr>ended_because_offline := True\<rparr>) evs1
      else if wrong then Exit WrongCategory w3 (evs1 @ evs2)
      else account_and_report t w3 live lr (evs1 @ evs2))"
    by (simp add: loop_body_unfold[OF res] Let_def cc)
  have n1: "CumulativeTimeCall \<notin> set evs1" using nc by simp
  show "step_exit (loop_body up t w lr) =
     (if offline_reached live ?w2
      then Some Offline
      else if fst (category_check up t ?w2 live)
      then Some WrongCategory
      else if report_now t - lr \<ge> 1 \<and> on_update w \<and> on_update_raises t then Some Crashed
      else if minutes_target w = 0 then None
      else if cumulative_time_callback w
      then (case cumulative_time t of
              Raised \<Rightarrow> Some Crashed
            | Returned c \<Rightarrow> if minutes_target w * 60 \<le> c then Some Completed else None)
      else if minutes_target w * 60 \<le> elapsed_seconds w + (if live then 1 else 0)
           then Some Completed else None)"
    unfolding lb cc by (simp add: account_and_report_exit k split: outcome.splits)
  show "elapsed_seconds (step_worker (loop_body up t w lr))
       = elapsed_seconds w
         + (if live \<and> step_exit (loop_body up t w lr) \<noteq> Some WrongCategory then 1 else 0)"
  proof -
    have ew: "elapsed_seconds (step_worker (loop_body up t w lr))
        = (if offline_reached live ?w2 \<or> wrong then elapsed_seconds w
           else elapsed_seconds w + (if live then 1 else 0))"
      unfolding lb by (simp add: account_and_report_exit(2) k)
    have ex: "(step_exit (loop_body up t w lr) = Some WrongCategory)
        = (\<not> offline_reached live ?w2 \<and> wrong)"
      unfolding lb by (simp add: account_and_report_exit(1) split: outcome.splits)
    show ?thesis using lv unfolding ew ex by auto
  qed
  show "completed (step_worker (loop_body up t w lr))
       = (completed w \<or> step_exit (loop_body up t w lr) = Some Completed)"
    unfolding lb by (simp add: account_and_report_exit(3) k)
  show "CumulativeTimeCall \<in> set (step_events (loop_body up t w lr))
       = (step_exit (loop_body up t w lr) \<noteq> Some Offline
          \<and> step_exit (loop_body up t w lr) \<noteq> Some WrongCategory
          \<and> \<not> (report_now t - lr \<ge> 1 \<and> on_update w \<and> on_update_raises t)
          \<and> minutes_target w \<noteq> 0 \<and> cumulative_time_callback w)"
    unfolding lb using nc n1
    by (simp add: account_and_report_exit k split: outcome.splits)
  show "step_exit (loop_body up t w lr) \<noteq> Some Stopped"
    unfolding lb by (simp add: account_and_report_exit split: outcome.splits)
qed

lemma run_loop_stops:
  "\<exists>t\<in>set ts. stop_is_set t \<Longrightarrow> fst (run_loop up ts w lr) \<noteq> None"
proof (induction ts arbitrary: w lr)
  case Nil
  then show ?case by simp
next
  case (Cons t ts)
  show ?case
  proof (cases "stop_is_set t")
    case True
    then show ?thesis by simp
  next
    case False
    with Cons.prems have ex: "\<exists>t\<in>set ts. stop_is_set t" by simp
    show ?thesis
    proof (cases "loop_body up t w lr")
      case (Continue w1 lr1 evs)
      with False Cons.IH[OF ex, of w1 lr1] show ?thesis
        by (auto split: prod.splits)
    next
      case (Exit reason w1 evs)
      with False show ?thesis by simp
    qed
  qed
qed

section \<open>The example runs\<close>

lemma new_demo_session_started:
  "new_demo_session\<lparr>driver := True\<rparr> = demo_worker"
  by (simp add: new_demo_session_def demo_worker_def)

lemma session_domains:
  "domain_from_url kick_urlparse (url new_campaign_session) = Returned ''kick.com''"
  "domain_from_url kick_urlparse (url new_demo_session) = Returned ''kick.com''"
  "startup ''kick.com'' new_campaign_session browser_ok = (True, campaign_worker)"
  "startup ''kick.com'' new_demo_session browser_ok = (True, demo_worker)"
  by (simp_all add: domain_from_url_def kick_urlparse_def startup_def browser_ok_def Let_def
      new_campaign_session_started new_demo_session_started)

lemma campaign_cleanup:
  "driver campaign_worker" "on_finish campaign_worker" "elapsed_seconds campaign_worker = 0"
  "\<not> completed campaign_worker" "offline_fresh_checks campaign_worker = 0"
  "offline_fresh_checks_to_switch campaign_worker = 2"
  "driver demo_worker" "on_finish demo_worker" "on_update demo_worker"
  by (simp_all add: campaign_worker_def demo_worker_def StreamWorker_init_def)

lemma stop_run_eval:
  "run kick_urlparse new_campaign_session browser_ok [stop_requested]
     = Ended Stopped campaign_worker [DriverQuit, OnFinish 0 False]"
proof -
  have st: "stop_is_set stop_requested" by (simp add: stop_requested_def)
  show ?thesis
    using st by (simp add: run_def session_domains cleanup_def campaign_cleanup)
qed

lemma update_raises_eval:
  "loop_body kick_urlparse update_raises campaign_worker 0
     = Exit Crashed (campaign_worker\<lparr>elapsed_seconds := 1\<rparr>) [OnUpdate 1 True]"
proof -
  have res: "is_stream_live kick_urlparse campaign_worker (live_probe update_raises)
      = (True, campaign_worker, [])"
    using probe_cached_eval[of 5 campaign_worker live_reply]
    by (simp add: update_raises_def campaign_worker_fields)
  have t: "report_now update_raises = 5" "on_update_raises update_raises"
          "category_now update_raises = 5"
    by (simp_all add: update_raises_def probe_tick_def)
  show ?thesis
    by (simp add: loop_body_unfold[OF res] Let_def count_fresh_check_def offline_reached_def
        category_check_eq campaign_worker_fields campaign_cleanup account_and_report_def t)
qed

lemma crash_run_eval:
  "run kick_urlparse new_campaign_session browser_ok [update_raises]
     = Ended Crashed (campaign_worker\<lparr>elapsed_seconds := 1\<rparr>)
         [OnUpdate 1 True, DriverQuit, OnFinish 1 False]"
proof -
  have st: "\<not> stop_is_set update_raises" by (simp add: update_raises_def probe_tick_def)
  show ?thesis
    using st
    by (simp add: run_def session_domains update_raises_eval cleanup_def campaign_cleanup)
qed

lemma wrong_category_run_eval:
  "run kick_urlparse new_demo_session browser_ok [in_category_7]
     = Ended WrongCategory
         (demo_worker\<lparr>last_live_value := True, last_live_source := ''browser_api'',
            live_check_interval := 8, last_live_check := 40, offline_fresh_checks := 0,
            last_category_check := 40, ended_because_wrong_category := True\<rparr>)
         [BrowserApiFetch, CategoryProbe 40, DriverQuit, OnFinish 0 False]"
proof -
  have st: "\<not> stop_is_set in_category_7" by (simp add: in_category_7_def probe_tick_def)
  show ?thesis
    using st
    by (simp add: run_def session_domains in_category_7_eval cleanup_def campaign_cleanup
        demo_worker_fields)
qed

lemma first_miss_eval:
  "loop_body kick_urlparse (probe_tick 100 offline_reply) campaign_worker 0
     = Continue (campaign_worker\<lparr>last_live_value := False, last_live_source := ''browser_api'',
            live_check_interval := 5, last_live_check := 100, offline_fresh_checks := 1\<rparr>)
         100 [BrowserApiFetch, OnUpdate 0 False, CumulativeTimeCall]"
proof -
  have res: "is_stream_live kick_urlparse campaign_worker (live_probe (probe_tick 100 offline_reply))
      = (False, campaign_worker\<lparr>last_live_value := False, last_live_source := ''browser_api'',
            live_check_interval := 5, last_live_check := 100\<rparr>, [BrowserApiFetch])"
    using probe_fresh_eval[of campaign_worker 100 offline_reply False]
    by (simp add: campaign_worker_fields api_replies)
  have t: "report_now (probe_tick 100 offline_reply) = 100"
          "report_stamp (probe_tick 100 offline_reply) = 100"
          "\<not> on_update_raises (probe_tick 100 offline_reply)"
          "cumulative_time (probe_tick 100 offline_reply) = Returned 0"
    by (simp_all add: probe_tick_def)
  show ?thesis
    by (simp add: loop_body_unfold[OF res] Let_def count_fresh_check_def offline_reached_def
        category_check_not_live campaign_worker_fields campaign_cleanup account_and_report_def
        completion_check_def t)
qed

lemma second_miss_eval:
  "loop_body kick_urlparse (probe_tick 106 offline_reply)
      (campaign_worker\<lparr>last_live_value := False, last_live_source := ''browser_api'',
            live_check_interval := 5, last_live_check := 100, offline_fresh_checks := 1\<rparr>) 100
     = Exit Offline
         (campaign_worker\<lparr>last_live_value := False, last_live_source := ''browser_api'',
            live_check_interval := 5, last_live_check := 106, offline_fresh_checks := 2,
            ended_because_offline := True\<rparr>)
         [BrowserApiFetch]"
proof -
  let ?w = "campaign_worker\<lparr>last_live_value := False, last_live_source := ''browser_api'',
            live_check_interval := 5, last_live_check := 100, offline_fresh_checks := 1\<rparr>"
  have res: "is_stream_live kick_urlparse ?w (live_probe (probe_tick 106 offline_reply))
      = (False, ?w\<lparr>last_live_check := 106\<rparr>, [BrowserApiFetch])"
    using probe_fresh_eval[of ?w 106 offline_reply False]
    by (simp add: campaign_worker_fields api_replies)
  show ?thesis
    by (simp add: loop_body_unfold[OF res] Let_def count_fresh_check_def offline_reached_def
        campaign_cleanup)
qed

lemma offline_run_eval:
  "run kick_urlparse new_campaign_session browser_ok
      [probe_tick 100 offline_reply, probe_tick 106 offline_reply]
     = Ended Offline
         (campaign_worker\<lparr>last_live_value := False, last_live_source := ''browser_api'',
            live_check_interval := 5, last_live_check := 106, offline_fresh_checks := 2,
            ended_because_offline := True\<rparr>)
         [BrowserApiFetch, OnUpdate 0 False, CumulativeTimeCall, BrowserApiFetch,
          DriverQuit, OnFinish 0 False]"
proof -
  have st: "\<not> stop_is_set (probe_tick 100 offline_reply)"
           "\<not> stop_is_set (probe_tick 106 offline_reply)"
    by (simp_all add: probe_tick_def)
  show ?thesis
    using st
    by (simp add: run_def session_domains first_miss_eval second_miss_eval cleanup_def
        campaign_cleanup)
qed

section \<open>The offline threshold\<close>

text \<open>
  C2. With \<open>offline_fresh_checks_to_switch = 2\<close>: an iteration whose liveness read is fresh
  and negative, with the counter at 0, does not leave the loop as offline, puts the counter
  to 1 and leaves \<open>ended_because_offline\<close> alone; this iteration then goes on as any other
  one does, so it leaves the loop only when \<open>on_update\<close> raises, when the cumulative
  accessor raises, or when the completion check finds the target reached, and otherwise the
  session continues (in particular when \<open>on_update\<close> returns and there is no target, or the
  target is not reached). With the counter at 1 (one fresh negative read before it, and no
  fresh positive one since) the iteration leaves the loop with reason offline and sets
  \<open>ended_because_offline\<close>; a fresh positive read puts the counter to 0; a cached read
  leaves the counter as it is. The interval is positive in every session (it starts at 10
  and is at least 4 after a probe), which is what lets the code tell a fresh read from a
  cached one.
\<close>

theorem offline_promotion_threshold:
  assumes th: "offline_fresh_checks_to_switch w = 2"
      and iv: "0 < live_check_interval w"
      and res: "is_stream_live up w (live_probe t) = (live, w1, evs)"
  shows "(\<not> now (live_probe t) - last_live_check w < live_check_interval w \<and> \<not> live
            \<and> offline_fresh_checks w = 0
          \<longrightarrow> step_exit (loop_body up t w lr) \<noteq> Some Offline
              \<and> offline_fresh_checks (step_worker (loop_body up t w lr)) = 1
              \<and> ended_because_offline (step_worker (loop_body up t w lr))
                  = ended_because_offline w
              \<and> step_exit (loop_body up t w lr)
                  = (if report_now t - lr \<ge> 1 \<and> on_update w \<and> on_update_raises t
                     then Some Crashed
                     else if minutes_target w = 0 then None
                     else if cumulative_time_callback w
                     then (case cumulative_time t of
                             Raised \<Rightarrow> Some Crashed
                           | Returned c \<Rightarrow>
                               if minutes_target w * 60 \<le> c then Some Completed else None)
                     else if minutes_target w * 60 \<le> elapsed_seconds w
                          then Some Completed else None)
              \<and> (\<not> on_update_raises t
                  \<and> (minutes_target w = 0
                     \<or> (\<not> cumulative_time_callback w
                        \<and> elapsed_seconds w < minutes_target w * 60)
                     \<or> (cumulative_time_callback w
                        \<and> (\<exists>c. cumulative_time t = Returned c \<and> c < minutes_target w * 60)))
                 \<longrightarrow> step_exit (loop_body up t w lr) = None))
       \<and> (\<not> now (live_probe t) - last_live_check w < live_check_interval w \<and> \<not> live
            \<and> offline_fresh_checks w = 1
          \<longrightarrow> loop_body up t w lr
                = Exit Offline (w1\<lparr>offline_fresh_checks := 2, ended_because_offline := True\<rparr>) evs)
       \<and> (\<not> now (live_probe t) - last_live_check w < live_check_interval w \<and> live
          \<longrightarrow> offline_fresh_checks (step_worker (loop_body up t w lr)) = 0)
       \<and> (now (live_probe t) - last_live_check w < live_check_interval w
          \<longrightarrow> offline_fresh_checks (step_worker (loop_body up t w lr)) = offline_fresh_checks w)"
proof -
  note fr = fresh_check_iff[OF res iv]
  obtain v s i c where w1: "w1 = w\<lparr>last_live_value := v, last_live_source := s,
                     live_check_interval := i, last_live_check := c\<rparr>"
    using is_stream_live_frame[OF res] by blast
  have keep: "offline_fresh_checks w1 = offline_fresh_checks w"
             "offline_fresh_checks_to_switch w1 = 2"
             "ended_because_offline w1 = ended_because_offline w"
    using th by (simp_all add: w1)
  obtain wrong w3 evs2 where cc:
    "category_check up t (count_fresh_check (last_live_check w1 \<noteq> last_live_check w) live w1) live
       = (wrong, w3, evs2)"
    by (cases "category_check up t (count_fresh_check (last_live_check w1 \<noteq> last_live_check w) live w1) live")
  note cw = category_check_counter[OF cc]
  have one: "\<not> now (live_probe t) - last_live_check w < live_check_interval w \<and> \<not> live
            \<and> offline_fresh_checks w = 0
          \<longrightarrow> step_exit (loop_body up t w lr) \<noteq> Some Offline
              \<and> offline_fresh_checks (step_worker (loop_body up t w lr)) = 1
              \<and> ended_because_offline (step_worker (loop_body up t w lr))
                  = ended_because_offline w"
    using fr keep cc cw
    by (auto simp: loop_body_unfold[OF res] Let_def count_fresh_check_def offline_reached_def
        category_check_not_live account_and_report_counter)
  have goes: "\<not> now (live_probe t) - last_live_check w < live_check_interval w \<and> \<not> live
            \<and> offline_fresh_checks w = 0
          \<longrightarrow> step_exit (loop_body up t w lr)
                  = (if report_now t - lr \<ge> 1 \<and> on_update w \<and> on_update_raises t
                     then Some Crashed
                     else if minutes_target w = 0 then None
                     else if cumulative_time_callback w
                     then (case cumulative_time t of
                             Raised \<Rightarrow> Some Crashed
                           | Returned c \<Rightarrow>
                               if minutes_target w * 60 \<le> c then Some Completed else None)
                     else if minutes_target w * 60 \<le> elapsed_seconds w
                          then Some Completed else None)"
    using fr keep
    by (simp add: loop_body_exit(1)[OF res] count_fresh_check_def offline_reached_def
        category_check_not_live)
  have on: "\<not> now (live_probe t) - last_live_check w < live_check_interval w \<and> \<not> live
            \<and> offline_fresh_checks w = 0
          \<longrightarrow> (\<not> on_update_raises t
                  \<and> (minutes_target w = 0
                     \<or> (\<not> cumulative_time_callback w
                        \<and> elapsed_seconds w < minutes_target w * 60)
                     \<or> (cumulative_time_callback w
                        \<and> (\<exists>c. cumulative_time t = Returned c \<and> c < minutes_target w * 60)))
                 \<longrightarrow> step_exit (loop_body up t w lr) = None)"
    using goes by auto
  have two: "\<not> now (live_probe t) - last_live_check w < live_check_interval w \<and> \<not> live
            \<and> offline_fresh_checks w = 1
          \<longrightarrow> loop_body up t w lr
                = Exit Offline (w1\<lparr>offline_fresh_checks := 2, ended_because_offline := True\<rparr>) evs"
    using fr keep
    by (auto simp: loop_body_unfold[OF res] Let_def count_fresh_check_def offline_reached_def)
  have three: "\<not> now (live_probe t) - last_live_check w < live_check_interval w \<and> live
          \<longrightarrow> offline_fresh_checks (step_worker (loop_body up t w lr)) = 0"
    using fr keep cc cw
    by (auto simp: loop_body_unfold[OF res] Let_def count_fresh_check_def offline_reached_def
        account_and_report_counter)
  have four: "now (live_probe t) - last_live_check w < live_check_interval w
          \<longrightarrow> offline_fresh_checks (step_worker (loop_body up t w lr)) = offline_fresh_checks w"
    using fr keep cc cw
    by (auto simp: loop_body_unfold[OF res] Let_def count_fresh_check_def offline_reached_def
        account_and_report_counter)
  from one goes on two three four show ?thesis by blast
qed

text \<open>
  The four cases on the example session: a first fresh negative probe at time 100, after
  which the session continues, then a second one at 106, a fresh positive one at 106
  instead, and a cached read at 101.
\<close>

theorem offline_promotion_threshold_witness:
  "step_exit (loop_body kick_urlparse (probe_tick 100 offline_reply) demo_worker 0) \<noteq> Some Offline
   \<and> offline_fresh_checks
       (step_worker (loop_body kick_urlparse (probe_tick 100 offline_reply) demo_worker 0)) = 1
   \<and> step_exit (loop_body kick_urlparse (probe_tick 100 offline_reply) demo_worker 0) = None
   \<and> loop_body kick_urlparse (probe_tick 106 offline_reply) after_one_miss 100
       = Exit Offline (after_one_miss\<lparr>last_live_check := 106, offline_fresh_checks := 2,
                                      ended_because_offline := True\<rparr>) [BrowserApiFetch]
   \<and> offline_fresh_checks
       (step_worker (loop_body kick_urlparse (probe_tick 106 live_reply) after_one_miss 100)) = 0
   \<and> offline_fresh_checks
       (step_worker (loop_body kick_urlparse (probe_tick 101 live_reply) after_one_miss 100)) = 1"
proof -
  have t0: "offline_fresh_checks_to_switch demo_worker = 2" "0 < live_check_interval demo_worker"
    by (simp_all add: demo_worker_fields)
  have t1: "offline_fresh_checks_to_switch after_one_miss = 2" "0 < live_check_interval after_one_miss"
    by (simp_all add: after_one_miss_def demo_worker_fields)
  have u1: "url after_one_miss = ''https://kick.com/alice''"
    by (simp add: after_one_miss_def demo_worker_fields)
  have r0: "is_stream_live kick_urlparse demo_worker (live_probe (probe_tick 100 offline_reply))
      = (False, demo_worker\<lparr>last_live_value := False, last_live_source := ''browser_api'',
            live_check_interval := 5, last_live_check := 100\<rparr>, [BrowserApiFetch])"
    using probe_fresh_eval[of demo_worker 100 offline_reply False]
    by (simp add: demo_worker_fields api_replies)
  have r1: "is_stream_live kick_urlparse after_one_miss (live_probe (probe_tick 106 offline_reply))
      = (False, after_one_miss\<lparr>last_live_check := 106\<rparr>, [BrowserApiFetch])"
    using probe_fresh_eval[of after_one_miss 106 offline_reply False] u1
    by (simp add: api_replies) (simp add: after_one_miss_def)
  have r2: "is_stream_live kick_urlparse after_one_miss (live_probe (probe_tick 106 live_reply))
      = (True, after_one_miss\<lparr>last_live_value := True, last_live_source := ''browser_api'',
            live_check_interval := 8, last_live_check := 106\<rparr>, [BrowserApiFetch])"
    using probe_fresh_eval[of after_one_miss 106 live_reply True] u1
    by (simp add: api_replies) (simp add: after_one_miss_def)
  have r3: "is_stream_live kick_urlparse after_one_miss (live_probe (probe_tick 101 live_reply))
      = (False, after_one_miss, [])"
    using probe_cached_eval[of 101 after_one_miss live_reply]
    by (simp add: after_one_miss_def)
  have n: "now (live_probe (probe_tick 100 offline_reply)) = 100"
          "now (live_probe (probe_tick 106 offline_reply)) = 106"
          "now (live_probe (probe_tick 106 live_reply)) = 106"
          "now (live_probe (probe_tick 101 live_reply)) = 101"
    by (simp_all add: probe_tick_def)
  have f: "last_live_check after_one_miss = 100" "live_check_interval after_one_miss = 5"
          "offline_fresh_checks after_one_miss = 1"
    by (simp_all add: after_one_miss_def)
  have q: "\<not> on_update_raises (probe_tick 100 offline_reply)"
    by (simp add: probe_tick_def)
  have a: "step_exit (loop_body kick_urlparse (probe_tick 100 offline_reply) demo_worker 0) \<noteq> Some Offline
     \<and> offline_fresh_checks
       (step_worker (loop_body kick_urlparse (probe_tick 100 offline_reply) demo_worker 0)) = 1
     \<and> step_exit (loop_body kick_urlparse (probe_tick 100 offline_reply) demo_worker 0) = None"
    using offline_promotion_threshold[OF t0 r0, of 0, THEN conjunct1] q
    by (simp add: n demo_worker_fields)
  have b: "loop_body kick_urlparse (probe_tick 106 offline_reply) after_one_miss 100
       = Exit Offline (after_one_miss\<lparr>last_live_check := 106, offline_fresh_checks := 2,
                                      ended_because_offline := True\<rparr>) [BrowserApiFetch]"
    using offline_promotion_threshold[OF t1 r1, of 100, THEN conjunct2, THEN conjunct1]
    by (simp add: n f)
  have c: "offline_fresh_checks
       (step_worker (loop_body kick_urlparse (probe_tick 106 live_reply) after_one_miss 100)) = 0"
    using offline_promotion_threshold[OF t1 r2, of 100, THEN conjunct2, THEN conjunct2, THEN conjunct1]
    by (simp add: n f)
  have d: "offline_fresh_checks
       (step_worker (loop_body kick_urlparse (probe_tick 101 live_reply) after_one_miss 100)) = 1"
    using offline_promotion_threshold[OF t1 r3, of 100, THEN conjunct2, THEN conjunct2, THEN conjunct2]
    by (simp add: n f)
  from a b c d show ?thesis by blast
qed

section \<open>The completion check\<close>

text \<open>
  C3. With a positive target, an iteration that is not left by the offline or the category
  \<open>break\<close> and in which \<open>on_update\<close> does not raise reaches the completion check. In
  cumulative mode it then calls the accessor (and in no other iteration), and when the
  accessor returns \<open>c\<close> the iteration leaves the loop as completed (and sets \<open>completed\<close>)
  when \<open>c \<ge> target * 60\<close>, and continues otherwise. In individual mode it leaves the loop as
  completed (and sets \<open>completed\<close>) when \<open>elapsed_seconds \<ge> target * 60\<close> and continues
  otherwise, where \<open>elapsed_seconds\<close> has grown by one when the channel was read as live; an
  iteration of this mode crashes only when \<open>on_update\<close> raises. An iteration never ends as
  offline on a channel read as live, nor as wrong category without a required category.
  With target 0 neither the loop nor \<open>run\<close> ever ends as completed.
\<close>

theorem completion_by_mode:
  "(0 < minutes_target w \<and> cumulative_time_callback w \<and> cumulative_time t = Returned c
      \<and> CumulativeTimeCall \<in> set (step_events (loop_body up t w lr))
    \<longrightarrow> (if minutes_target w * 60 \<le> c
         then step_exit (loop_body up t w lr) = Some Completed
              \<and> completed (step_worker (loop_body up t w lr))
         else step_exit (loop_body up t w lr) = None))
   \<and> (0 < minutes_target w \<and> \<not> cumulative_time_callback w
    \<longrightarrow> (step_exit (loop_body up t w lr) = Some Completed
           \<longrightarrow> minutes_target w * 60 \<le> elapsed_seconds (step_worker (loop_body up t w lr))
               \<and> completed (step_worker (loop_body up t w lr)))
        \<and> (step_exit (loop_body up t w lr) = None
           \<longrightarrow> elapsed_seconds (step_worker (loop_body up t w lr)) < minutes_target w * 60))
   \<and> (minutes_target w = 0
    \<longrightarrow> fst (run_loop up ts w lr) \<noteq> Some Completed
        \<and> (\<forall>w' evs. run up w s ts \<noteq> Ended Completed w' evs))
   \<and> (0 < minutes_target w \<and> cumulative_time_callback w
    \<longrightarrow> (CumulativeTimeCall \<in> set (step_events (loop_body up t w lr)))
          = (step_exit (loop_body up t w lr) \<noteq> Some Offline
             \<and> step_exit (loop_body up t w lr) \<noteq> Some WrongCategory
             \<and> \<not> (report_now t - lr \<ge> 1 \<and> on_update w \<and> on_update_raises t)))
   \<and> (0 < minutes_target w \<and> cumulative_time_callback w \<and> cumulative_time t = Returned c
      \<and> step_exit (loop_body up t w lr) \<noteq> Some Offline
      \<and> step_exit (loop_body up t w lr) \<noteq> Some WrongCategory
      \<and> \<not> (report_now t - lr \<ge> 1 \<and> on_update w \<and> on_update_raises t)
    \<longrightarrow> (if minutes_target w * 60 \<le> c
         then step_exit (loop_body up t w lr) = Some Completed
              \<and> completed (step_worker (loop_body up t w lr))
         else step_exit (loop_body up t w lr) = None))
   \<and> (0 < minutes_target w \<and> \<not> cumulative_time_callback w
      \<and> step_exit (loop_body up t w lr) \<noteq> Some Offline
      \<and> step_exit (loop_body up t w lr) \<noteq> Some WrongCategory
      \<and> \<not> (report_now t - lr \<ge> 1 \<and> on_update w \<and> on_update_raises t)
    \<longrightarrow> (if minutes_target w * 60 \<le> elapsed_seconds (step_worker (loop_body up t w lr))
         then step_exit (loop_body up t w lr) = Some Completed
              \<and> completed (step_worker (loop_body up t w lr))
         else step_exit (loop_body up t w lr) = None))
   \<and> (0 < minutes_target w \<and> \<not> cumulative_time_callback w
      \<and> step_exit (loop_body up t w lr) = Some Crashed
    \<longrightarrow> report_now t - lr \<ge> 1 \<and> on_update w \<and> on_update_raises t)
   \<and> elapsed_seconds (step_worker (loop_body up t w lr))
       = elapsed_seconds w
         + (if fst (is_stream_live up w (live_probe t))
               \<and> step_exit (loop_body up t w lr) \<noteq> Some WrongCategory then 1 else 0)
   \<and> (fst (is_stream_live up w (live_probe t))
    \<longrightarrow> step_exit (loop_body up t w lr) \<noteq> Some Offline)
   \<and> (\<not> truthy (required_category_id w)
    \<longrightarrow> step_exit (loop_body up t w lr) \<noteq> Some WrongCategory)
   \<and> step_exit (loop_body up t w lr) \<noteq> Some Stopped"
proof -
  obtain live w1 evs1 where res: "is_stream_live up w (live_probe t) = (live, w1, evs1)"
    by (cases "is_stream_live up w (live_probe t)")
  let ?w2 = "count_fresh_check (last_live_check w1 \<noteq> last_live_check w) live w1"
  note ex = loop_body_exit[OF res, of lr]
  have lv: "fst (is_stream_live up w (live_probe t)) = live" using res by simp
  have rq: "required_category_id ?w2 = required_category_id w"
    using is_stream_live_const[OF res] by (simp add: count_fresh_check_const)
  have a: "0 < minutes_target w \<and> cumulative_time_callback w \<and> cumulative_time t = Returned c
      \<and> CumulativeTimeCall \<in> set (step_events (loop_body up t w lr))
    \<longrightarrow> (if minutes_target w * 60 \<le> c
         then step_exit (loop_body up t w lr) = Some Completed
              \<and> completed (step_worker (loop_body up t w lr))
         else step_exit (loop_body up t w lr) = None)"
    using loop_body_cases[of up t w lr]
    by (auto simp: completion_check_called)
  have b: "0 < minutes_target w \<and> \<not> cumulative_time_callback w
    \<longrightarrow> (step_exit (loop_body up t w lr) = Some Completed
           \<longrightarrow> minutes_target w * 60 \<le> elapsed_seconds (step_worker (loop_body up t w lr))
               \<and> completed (step_worker (loop_body up t w lr)))
        \<and> (step_exit (loop_body up t w lr) = None
           \<longrightarrow> elapsed_seconds (step_worker (loop_body up t w lr)) < minutes_target w * 60)"
    using loop_body_cases[of up t w lr]
    by (auto simp: completion_check_individual split: if_splits)
  have c: "minutes_target w = 0
    \<longrightarrow> fst (run_loop up ts w lr) \<noteq> Some Completed
        \<and> (\<forall>w' evs. run up w s ts \<noteq> Ended Completed w' evs)"
    using run_loop_no_target[of w up ts lr] run_no_target[of w up s ts] by blast
  have d: "0 < minutes_target w \<and> cumulative_time_callback w
    \<longrightarrow> (CumulativeTimeCall \<in> set (step_events (loop_body up t w lr)))
          = (step_exit (loop_body up t w lr) \<noteq> Some Offline
             \<and> step_exit (loop_body up t w lr) \<noteq> Some WrongCategory
             \<and> \<not> (report_now t - lr \<ge> 1 \<and> on_update w \<and> on_update_raises t))"
    using ex(4) by auto
  have e: "0 < minutes_target w \<and> cumulative_time_callback w \<and> cumulative_time t = Returned c
      \<and> step_exit (loop_body up t w lr) \<noteq> Some Offline
      \<and> step_exit (loop_body up t w lr) \<noteq> Some WrongCategory
      \<and> \<not> (report_now t - lr \<ge> 1 \<and> on_update w \<and> on_update_raises t)
    \<longrightarrow> (if minutes_target w * 60 \<le> c
         then step_exit (loop_body up t w lr) = Some Completed
              \<and> completed (step_worker (loop_body up t w lr))
         else step_exit (loop_body up t w lr) = None)"
    using a d by blast
  have f: "0 < minutes_target w \<and> \<not> cumulative_time_callback w
      \<and> step_exit (loop_body up t w lr) \<noteq> Some Offline
      \<and> step_exit (loop_body up t w lr) \<noteq> Some WrongCategory
      \<and> \<not> (report_now t - lr \<ge> 1 \<and> on_update w \<and> on_update_raises t)
    \<longrightarrow> (if minutes_target w * 60 \<le> elapsed_seconds (step_worker (loop_body up t w lr))
         then step_exit (loop_body up t w lr) = Some Completed
              \<and> completed (step_worker (loop_body up t w lr))
         else step_exit (loop_body up t w lr) = None)"
    unfolding ex(2) ex(3) using ex(1) by (auto split: if_splits)
  have g: "0 < minutes_target w \<and> \<not> cumulative_time_callback w
      \<and> step_exit (loop_body up t w lr) = Some Crashed
    \<longrightarrow> report_now t - lr \<ge> 1 \<and> on_update w \<and> on_update_raises t"
    using ex(1) by (auto split: if_splits)
  have h: "elapsed_seconds (step_worker (loop_body up t w lr))
       = elapsed_seconds w
         + (if fst (is_stream_live up w (live_probe t))
               \<and> step_exit (loop_body up t w lr) \<noteq> Some WrongCategory then 1 else 0)"
    unfolding lv by (rule ex(2))
  have i: "fst (is_stream_live up w (live_probe t))
    \<longrightarrow> step_exit (loop_body up t w lr) \<noteq> Some Offline"
    unfolding lv using ex(1)
    by (auto simp: offline_reached_def split: if_splits outcome.splits)
  have j: "\<not> truthy (required_category_id w)
    \<longrightarrow> step_exit (loop_body up t w lr) \<noteq> Some WrongCategory"
    using ex(1) rq
    by (auto simp: category_check_eq split: if_splits outcome.splits)
  from a b c d e f g h i j ex(5) show ?thesis by blast
qed

text \<open>
  The target of ten minutes with the accessor, which is called, at 550 and at 600; the
  sixtieth second of a one-minute target, which completes the session, and its first
  second, which does not; and a session without target, for which even 600 ends nothing.
\<close>

theorem completion_by_mode_witness:
  "step_exit (loop_body kick_urlparse total_550 campaign_worker 0) = None
   \<and> step_exit (loop_body kick_urlparse total_600 campaign_worker 0) = Some Completed
   \<and> completed (step_worker (loop_body kick_urlparse total_600 campaign_worker 0))
   \<and> 60 \<le> elapsed_seconds (step_worker (loop_body kick_urlparse (probe_tick 5 live_reply) almost_done 0))
   \<and> completed (step_worker (loop_body kick_urlparse (probe_tick 5 live_reply) almost_done 0))
   \<and> fst (run_loop kick_urlparse [total_600, total_600] unbounded_worker 0) \<noteq> Some Completed
   \<and> CumulativeTimeCall \<in> set (step_events (loop_body kick_urlparse total_550 campaign_worker 0))
   \<and> step_exit (loop_body kick_urlparse (probe_tick 5 live_reply) almost_done 0) = Some Completed
   \<and> elapsed_seconds (step_worker (loop_body kick_urlparse (probe_tick 5 live_reply) almost_done 0)) = 60
   \<and> step_exit (loop_body kick_urlparse (probe_tick 5 live_reply) demo_worker 0) = None"
proof -
  have c: "cumulative_time total_550 = Returned 550" "cumulative_time total_600 = Returned 600"
    by (simp_all add: total_550_def total_600_def)
  have a1: "step_exit (loop_body kick_urlparse total_550 campaign_worker 0) = None"
    using completion_by_mode[of campaign_worker total_550 550 kick_urlparse 0, THEN conjunct1]
    by (simp add: c campaign_worker_fields total_550_eval)
  have a2: "step_exit (loop_body kick_urlparse total_600 campaign_worker 0) = Some Completed
      \<and> completed (step_worker (loop_body kick_urlparse total_600 campaign_worker 0))"
    using completion_by_mode[of campaign_worker total_600 600 kick_urlparse 0, THEN conjunct1]
    by (simp add: c campaign_worker_fields total_600_eval)
  have m: "0 < minutes_target almost_done" "\<not> cumulative_time_callback almost_done"
          "minutes_target almost_done * 60 = 60"
    by (simp_all add: almost_done_def demo_worker_fields)
  have b: "60 \<le> elapsed_seconds (step_worker (loop_body kick_urlparse (probe_tick 5 live_reply) almost_done 0))
      \<and> completed (step_worker (loop_body kick_urlparse (probe_tick 5 live_reply) almost_done 0))"
    using completion_by_mode[of almost_done "probe_tick 5 live_reply" 0 kick_urlparse 0,
            THEN conjunct2, THEN conjunct1] m
    by (simp add: last_second_eval)
  have "minutes_target unbounded_worker = 0"
    by (simp add: unbounded_worker_def StreamWorker_init_def)
  then have d: "fst (run_loop kick_urlparse [total_600, total_600] unbounded_worker 0) \<noteq> Some Completed"
    using completion_by_mode[of unbounded_worker total_600 600 kick_urlparse 0
            "[total_600, total_600]", THEN conjunct2, THEN conjunct2]
    by simp
  have lp: "live_probe total_550 = live_probe (probe_tick 5 live_reply)"
           "\<not> on_update_raises total_550" "\<not> on_update_raises (probe_tick 5 live_reply)"
    by (simp_all add: total_550_def probe_tick_def)
  have l1: "fst (is_stream_live kick_urlparse campaign_worker (live_probe total_550))"
    unfolding lp using probe_cached_eval[of 5 campaign_worker live_reply]
    by (simp add: campaign_worker_fields)
  have l2: "fst (is_stream_live kick_urlparse almost_done (live_probe (probe_tick 5 live_reply)))"
    using probe_cached_eval[of 5 almost_done live_reply]
    by (simp add: almost_done_def demo_worker_fields)
  have l3: "fst (is_stream_live kick_urlparse demo_worker (live_probe (probe_tick 5 live_reply)))"
    using probe_cached_eval[of 5 demo_worker live_reply]
    by (simp add: demo_worker_fields)
  note T1 = completion_by_mode[of campaign_worker total_550 550 kick_urlparse 0]
  note T2 = completion_by_mode[of almost_done "probe_tick 5 live_reply" 0 kick_urlparse 0]
  note T3 = completion_by_mode[of demo_worker "probe_tick 5 live_reply" 0 kick_urlparse 0]
  have e1: "step_exit (loop_body kick_urlparse total_550 campaign_worker 0) \<noteq> Some Offline"
    using T1[THEN conjunct2, THEN conjunct2, THEN conjunct2, THEN conjunct2, THEN conjunct2,
             THEN conjunct2, THEN conjunct2, THEN conjunct2, THEN conjunct1] l1
    by simp
  have e2: "step_exit (loop_body kick_urlparse total_550 campaign_worker 0) \<noteq> Some WrongCategory"
    using T1[THEN conjunct2, THEN conjunct2, THEN conjunct2, THEN conjunct2, THEN conjunct2,
             THEN conjunct2, THEN conjunct2, THEN conjunct2, THEN conjunct2, THEN conjunct1]
    by (simp add: campaign_worker_fields)
  have e: "CumulativeTimeCall \<in> set (step_events (loop_body kick_urlparse total_550 campaign_worker 0))"
    using T1[THEN conjunct2, THEN conjunct2, THEN conjunct2, THEN conjunct1] e1 e2 lp
    by (simp add: campaign_worker_fields)
  have f1: "step_exit (loop_body kick_urlparse (probe_tick 5 live_reply) almost_done 0) \<noteq> Some Offline"
    using T2[THEN conjunct2, THEN conjunct2, THEN conjunct2, THEN conjunct2, THEN conjunct2,
             THEN conjunct2, THEN conjunct2, THEN conjunct2, THEN conjunct1] l2
    by simp
  have f2: "step_exit (loop_body kick_urlparse (probe_tick 5 live_reply) almost_done 0) \<noteq> Some WrongCategory"
    by (simp add: last_second_eval)
  have f3: "elapsed_seconds (step_worker (loop_body kick_urlparse (probe_tick 5 live_reply) almost_done 0)) = 60"
    using T2[THEN conjunct2, THEN conjunct2, THEN conjunct2, THEN conjunct2, THEN conjunct2,
             THEN conjunct2, THEN conjunct2, THEN conjunct1] l2 f2
    by (simp add: almost_done_def)
  have f: "step_exit (loop_body kick_urlparse (probe_tick 5 live_reply) almost_done 0) = Some Completed"
    using T2[THEN conjunct2, THEN conjunct2, THEN conjunct2, THEN conjunct2, THEN conjunct2,
             THEN conjunct1] m f1 f2 f3 lp
    by simp
  have g1: "step_exit (loop_body kick_urlparse (probe_tick 5 live_reply) demo_worker 0) \<noteq> Some Offline"
    using T3[THEN conjunct2, THEN conjunct2, THEN conjunct2, THEN conjunct2, THEN conjunct2,
             THEN conjunct2, THEN conjunct2, THEN conjunct2, THEN conjunct1] l3
    by simp
  have g2: "step_exit (loop_body kick_urlparse (probe_tick 5 live_reply) demo_worker 0) \<noteq> Some WrongCategory"
    by (simp add: first_second_eval)
  have g3: "elapsed_seconds (step_worker (loop_body kick_urlparse (probe_tick 5 live_reply) demo_worker 0)) = 1"
    using T3[THEN conjunct2, THEN conjunct2, THEN conjunct2, THEN conjunct2, THEN conjunct2,
             THEN conjunct2, THEN conjunct2, THEN conjunct1] l3 g2
    by (simp add: demo_worker_fields)
  have g: "step_exit (loop_body kick_urlparse (probe_tick 5 live_reply) demo_worker 0) = None"
    using T3[THEN conjunct2, THEN conjunct2, THEN conjunct2, THEN conjunct2, THEN conjunct2,
             THEN conjunct1] g1 g2 g3 lp
    by (simp add: demo_worker_fields)
  from a1 a2 b d e f f3 g show ?thesis by blast
qed

section \<open>The outcomes of the category check\<close>

text \<open>
  C8. For a session with a required category (a value that Python takes as true), in an
  iteration whose liveness read is positive and whose category check is due: a probe that
  returns an id other than \<open>None\<close> and unequal to the required one ends the session with
  reason wrong category and sets \<open>ended_because_wrong_category\<close>; a probe that returns
  \<open>None\<close> neither ends it as wrong category nor as offline and leaves the flag alone, and
  the iteration goes on as any other one on a live channel does: it leaves the loop only
  when \<open>on_update\<close> raises, when the cumulative accessor raises, or when the completion
  check finds the target reached, and otherwise the session continues (in particular when
  \<open>on_update\<close> returns and there is no target, or the target is not reached). In any
  iteration, a category probe is made only on a live channel with a required category, at
  least \<open>category_check_interval\<close> after the time stored for the previous one, and its time
  is stored; so the probes of a whole loop are spaced by at least the interval, which is 30
  seconds in every session.
\<close>

theorem category_check_outcomes:
  "(truthy (required_category_id w) \<and> fst (is_stream_live up w (live_probe t))
      \<and> category_now t - last_category_check w \<ge> category_check_interval w
    \<longrightarrow> (get_streamer_category_id up w (category_reply t) \<noteq> JNull
          \<and> \<not> py_eq (get_streamer_category_id up w (category_reply t)) (required_category_id w)
         \<longrightarrow> step_exit (loop_body up t w lr) = Some WrongCategory
             \<and> ended_because_wrong_category (step_worker (loop_body up t w lr)))
       \<and> (get_streamer_category_id up w (category_reply t) = JNull
         \<longrightarrow> step_exit (loop_body up t w lr) \<noteq> Some WrongCategory
             \<and> step_exit (loop_body up t w lr) \<noteq> Some Offline
             \<and> ended_because_wrong_category (step_worker (loop_body up t w lr))
                 = ended_because_wrong_category w
             \<and> (minutes_target w = 0 \<and> \<not> on_update_raises t
                \<longrightarrow> step_exit (loop_body up t w lr) = None)
             \<and> step_exit (loop_body up t w lr)
                 = (if report_now t - lr \<ge> 1 \<and> on_update w \<and> on_update_raises t
                    then Some Crashed
                    else if minutes_target w = 0 then None
                    else if cumulative_time_callback w
                    then (case cumulative_time t of
                            Raised \<Rightarrow> Some Crashed
                          | Returned c \<Rightarrow>
                              if minutes_target w * 60 \<le> c then Some Completed else None)
                    else if minutes_target w * 60 \<le> elapsed_seconds w + 1
                         then Some Completed else None)
             \<and> (\<not> on_update_raises t
                 \<and> (minutes_target w = 0
                    \<or> (\<not> cumulative_time_callback w
                       \<and> elapsed_seconds w + 1 < minutes_target w * 60)
                    \<or> (cumulative_time_callback w
                       \<and> (\<exists>c. cumulative_time t = Returned c \<and> c < minutes_target w * 60)))
                \<longrightarrow> step_exit (loop_body up t w lr) = None)))
   \<and> (\<forall>x. CategoryProbe x \<in> set (step_events (loop_body up t w lr))
        \<longrightarrow> x = category_now t
            \<and> x - last_category_check w \<ge> category_check_interval w
            \<and> fst (is_stream_live up w (live_probe t))
            \<and> truthy (required_category_id w)
            \<and> last_category_check (step_worker (loop_body up t w lr)) = x)
   \<and> ((\<forall>x. CategoryProbe x \<notin> set (step_events (loop_body up t w lr)))
        \<longrightarrow> last_category_check (step_worker (loop_body up t w lr)) = last_category_check w)
   \<and> spaced (category_check_interval w) (last_category_check w)
        (probe_times (snd (snd (run_loop up ts w lr))))
   \<and> category_check_interval
        (StreamWorker_init u minutes upd fin to_switch category cumulative) = 30"
proof -
  obtain live w1 evs1 where res: "is_stream_live up w (live_probe t) = (live, w1, evs1)"
    by (cases "is_stream_live up w (live_probe t)")
  let ?w2 = "count_fresh_check (last_live_check w1 \<noteq> last_live_check w) live w1"
  let ?cid = "get_streamer_category_id up w (category_reply t)"
  note c1 = is_stream_live_const[OF res]
  have k: "last_category_check ?w2 = last_category_check w"
          "category_check_interval ?w2 = category_check_interval w"
          "required_category_id ?w2 = required_category_id w"
          "ended_because_wrong_category ?w2 = ended_because_wrong_category w"
          "minutes_target ?w2 = minutes_target w"
    using c1 by (simp_all add: count_fresh_check_const)
  have g: "get_streamer_category_id up ?w2 (category_reply t) = ?cid"
    using c1 by (intro get_streamer_category_id_cong) (simp_all add: count_fresh_check_const)
  have a: "truthy (required_category_id w) \<and> fst (is_stream_live up w (live_probe t))
      \<and> category_now t - last_category_check w \<ge> category_check_interval w
    \<longrightarrow> (?cid \<noteq> JNull \<and> \<not> py_eq ?cid (required_category_id w)
         \<longrightarrow> step_exit (loop_body up t w lr) = Some WrongCategory
             \<and> ended_because_wrong_category (step_worker (loop_body up t w lr)))"
    using res k g
    by (auto simp: loop_body_unfold[OF res] Let_def offline_reached_def category_check_eq)
  have b: "truthy (required_category_id w) \<and> fst (is_stream_live up w (live_probe t))
      \<and> category_now t - last_category_check w \<ge> category_check_interval w
    \<longrightarrow> (?cid = JNull
         \<longrightarrow> step_exit (loop_body up t w lr) \<noteq> Some WrongCategory
             \<and> step_exit (loop_body up t w lr) \<noteq> Some Offline
             \<and> ended_because_wrong_category (step_worker (loop_body up t w lr))
                 = ended_because_wrong_category w
             \<and> (minutes_target w = 0 \<and> \<not> on_update_raises t
                \<longrightarrow> step_exit (loop_body up t w lr) = None))"
    using res k g
    by (auto simp: loop_body_unfold[OF res] Let_def offline_reached_def category_check_eq
        account_and_report_counter account_and_report_const)
       (auto simp: account_and_report_eq Let_def completion_check_def)
  have b1: "truthy (required_category_id w) \<and> fst (is_stream_live up w (live_probe t))
      \<and> category_now t - last_category_check w \<ge> category_check_interval w
    \<longrightarrow> (?cid = JNull
         \<longrightarrow> step_exit (loop_body up t w lr)
                 = (if report_now t - lr \<ge> 1 \<and> on_update w \<and> on_update_raises t
                    then Some Crashed
                    else if minutes_target w = 0 then None
                    else if cumulative_time_callback w
                    then (case cumulative_time t of
                            Raised \<Rightarrow> Some Crashed
                          | Returned c \<Rightarrow>
                              if minutes_target w * 60 \<le> c then Some Completed else None)
                    else if minutes_target w * 60 \<le> elapsed_seconds w + 1
                         then Some Completed else None))"
  proof (intro impI)
    assume h: "truthy (required_category_id w) \<and> fst (is_stream_live up w (live_probe t))
      \<and> category_now t - last_category_check w \<ge> category_check_interval w"
      and n: "?cid = JNull"
    have lt: "live" using h res by simp
    have no: "\<not> offline_reached live ?w2" using lt by (simp add: offline_reached_def)
    have nw: "\<not> fst (category_check up t ?w2 live)"
      unfolding category_check_eq g k n by (simp add: Let_def)
    show "step_exit (loop_body up t w lr)
                 = (if report_now t - lr \<ge> 1 \<and> on_update w \<and> on_update_raises t
                    then Some Crashed
                    else if minutes_target w = 0 then None
                    else if cumulative_time_callback w
                    then (case cumulative_time t of
                            Raised \<Rightarrow> Some Crashed
                          | Returned c \<Rightarrow>
                              if minutes_target w * 60 \<le> c then Some Completed else None)
                    else if minutes_target w * 60 \<le> elapsed_seconds w + 1
                         then Some Completed else None)"
      unfolding loop_body_exit(1)[OF res] using no nw lt by simp
  qed
  have b2: "truthy (required_category_id w) \<and> fst (is_stream_live up w (live_probe t))
      \<and> category_now t - last_category_check w \<ge> category_check_interval w
    \<longrightarrow> (?cid = JNull
         \<longrightarrow> (\<not> on_update_raises t
                 \<and> (minutes_target w = 0
                    \<or> (\<not> cumulative_time_callback w
                       \<and> elapsed_seconds w + 1 < minutes_target w * 60)
                    \<or> (cumulative_time_callback w
                       \<and> (\<exists>c. cumulative_time t = Returned c \<and> c < minutes_target w * 60)))
                \<longrightarrow> step_exit (loop_body up t w lr) = None))"
    using b1 by auto
  note lp = loop_body_probe[of up t w lr]
  have c: "\<forall>x. CategoryProbe x \<in> set (step_events (loop_body up t w lr))
        \<longrightarrow> x = category_now t
            \<and> x - last_category_check w \<ge> category_check_interval w
            \<and> fst (is_stream_live up w (live_probe t))
            \<and> truthy (required_category_id w)
            \<and> last_category_check (step_worker (loop_body up t w lr)) = x"
  proof (intro allI impI)
    fix x assume "CategoryProbe x \<in> set (step_events (loop_body up t w lr))"
    then have "x \<in> set (probe_times (step_events (loop_body up t w lr)))"
      by (simp add: probe_times_mem)
    with lp show "x = category_now t
            \<and> x - last_category_check w \<ge> category_check_interval w
            \<and> fst (is_stream_live up w (live_probe t))
            \<and> truthy (required_category_id w)
            \<and> last_category_check (step_worker (loop_body up t w lr)) = x"
      by auto
  qed
  have d: "(\<forall>x. CategoryProbe x \<notin> set (step_events (loop_body up t w lr)))
        \<longrightarrow> last_category_check (step_worker (loop_body up t w lr)) = last_category_check w"
    using lp probe_times_mem[of "category_now t" "step_events (loop_body up t w lr)"] by auto
  have e: "category_check_interval
        (StreamWorker_init u minutes upd fin to_switch category cumulative) = 30"
    by (simp add: StreamWorker_init_def)
  from a b b1 b2 c d e run_loop_spaced[of w up ts lr] show ?thesis by blast
qed

text \<open>
  The example session (required category 5, target of one minute) at time 40: the probe
  answers 7, or raises, after which the session continues, as it does without a target.
\<close>

theorem category_check_outcomes_witness:
  "step_exit (loop_body kick_urlparse in_category_7 demo_worker 0) = Some WrongCategory
   \<and> ended_because_wrong_category (step_worker (loop_body kick_urlparse in_category_7 demo_worker 0))
   \<and> step_exit (loop_body kick_urlparse (probe_tick 40 live_reply) no_target 0) = None
   \<and> step_exit (loop_body kick_urlparse (probe_tick 40 live_reply) demo_worker 0) = None
   \<and> CategoryProbe 40 \<in> set (step_events (loop_body kick_urlparse in_category_7 demo_worker 0))
   \<and> 40 - last_category_check demo_worker \<ge> category_check_interval demo_worker
   \<and> last_category_check (step_worker (loop_body kick_urlparse in_category_7 demo_worker 0)) = 40
   \<and> last_category_check (step_worker (loop_body kick_urlparse (probe_tick 5 live_reply) demo_worker 0)) = 0
   \<and> spaced 30 0 (probe_times (snd (snd (run_loop kick_urlparse [in_category_7] demo_worker 0))))"
proof -
  have l1: "fst (is_stream_live kick_urlparse demo_worker (live_probe in_category_7))"
    using demo_fresh_live_40 by (simp add: in_category_7_fields)
  have l2: "fst (is_stream_live kick_urlparse no_target (live_probe (probe_tick 40 live_reply)))"
    using probe_fresh_eval[of no_target 40 live_reply True]
    by (simp add: demo_category_fields api_replies)
  have p: "\<not> py_eq (JInt 7) (JInt 5)" by simp
  have a: "step_exit (loop_body kick_urlparse in_category_7 demo_worker 0) = Some WrongCategory
     \<and> ended_because_wrong_category (step_worker (loop_body kick_urlparse in_category_7 demo_worker 0))"
    using category_check_outcomes[of demo_worker kick_urlparse in_category_7 0, THEN conjunct1] l1 p
    by (simp add: demo_category_fields in_category_7_fields demo_category_7)
  have b: "step_exit (loop_body kick_urlparse (probe_tick 40 live_reply) no_target 0) = None"
    using category_check_outcomes[of no_target kick_urlparse "probe_tick 40 live_reply" 0,
            THEN conjunct1] l2
    by (simp add: demo_category_fields in_category_7_fields demo_category_none)
  have l3: "fst (is_stream_live kick_urlparse demo_worker (live_probe (probe_tick 40 live_reply)))"
    using demo_fresh_live_40 by simp
  have b3: "step_exit (loop_body kick_urlparse (probe_tick 40 live_reply) demo_worker 0) = None"
    using category_check_outcomes[of demo_worker kick_urlparse "probe_tick 40 live_reply" 0,
            THEN conjunct1] l3
    by (simp add: demo_category_fields in_category_7_fields demo_category_none
        demo_worker_fields)
  have m: "CategoryProbe 40 \<in> set (step_events (loop_body kick_urlparse in_category_7 demo_worker 0))"
    by (simp add: in_category_7_eval)
  have c: "40 - last_category_check demo_worker \<ge> category_check_interval demo_worker
     \<and> last_category_check (step_worker (loop_body kick_urlparse in_category_7 demo_worker 0)) = 40"
    using category_check_outcomes[of demo_worker kick_urlparse in_category_7 0,
            THEN conjunct2, THEN conjunct1, rule_format, OF m]
    by simp
  have d: "last_category_check (step_worker (loop_body kick_urlparse (probe_tick 5 live_reply) demo_worker 0)) = 0"
    using category_check_outcomes[of demo_worker kick_urlparse "probe_tick 5 live_reply" 0,
            THEN conjunct2, THEN conjunct2, THEN conjunct1]
    by (simp add: first_second_eval demo_category_fields)
  have e: "spaced 30 0 (probe_times (snd (snd (run_loop kick_urlparse [in_category_7] demo_worker 0))))"
    using category_check_outcomes[where w = demo_worker and up = kick_urlparse
            and ts = "[in_category_7]" and lr = 0,
            THEN conjunct2, THEN conjunct2, THEN conjunct2, THEN conjunct1]
    by (simp add: demo_category_fields)
  from a b b3 m c d e show ?thesis by blast
qed

section \<open>The end of a session\<close>

text \<open>
  C1. For a session constructed with an \<open>on_finish\<close> callback (\<open>completed\<close> is false in a
  new session) on an address that \<open>urlparse\<close> accepts: however \<open>run\<close> ends (completed,
  offline, wrong category, stop, or an exception during start-up or in the loop), its
  events hold exactly one terminal callback, it is the last event (so after every progress
  callback), its arguments are the session's \<open>elapsed_seconds\<close> and \<open>completed\<close>, and
  \<open>completed\<close> is true exactly when the loop was left by the completion check. While the
  session is still in its loop no terminal callback has been made. And \<open>run\<close> does end on
  every exit path: a start-up that fails gives the crashed end with the \<open>finally\<close> clause
  run; every way of leaving the loop gives the end with that reason, the events of the
  loop being followed by those of the \<open>finally\<close> clause; this holds in particular for the
  first iteration, whether it finds the stop flag set or leaves the loop (as completed,
  offline, wrong category or crashed); and a session whose stop flag is found set at some
  iteration has ended.
\<close>

theorem on_finish_once_and_last:
  assumes cb: "on_finish w" and new: "\<not> completed w" and parse: "up (url w) \<noteq> Raised"
  shows "(case run up w s ts of
           Propagated \<Rightarrow> False
         | Running w' evs \<Rightarrow> filter is_finish evs = []
         | Ended reason w' evs \<Rightarrow>
             filter is_finish evs = [OnFinish (elapsed_seconds w') (completed w')]
             \<and> last evs = OnFinish (elapsed_seconds w') (completed w')
             \<and> (completed w' \<longleftrightarrow> reason = Completed))
       \<and> (\<forall>domain w1. domain_from_url up (url w) = Returned domain
             \<and> startup domain w s = (False, w1)
           \<longrightarrow> run up w s ts = Ended Crashed w1 (cleanup w1))
       \<and> (\<forall>domain w1 reason w2 evs. domain_from_url up (url w) = Returned domain
             \<and> startup domain w s = (True, w1)
             \<and> run_loop up ts w1 0 = (Some reason, w2, evs)
           \<longrightarrow> run up w s ts = Ended reason w2 (evs @ cleanup w2))
       \<and> (\<forall>domain w1 t rest. domain_from_url up (url w) = Returned domain
             \<and> startup domain w s = (True, w1) \<and> ts = t # rest
           \<longrightarrow> (stop_is_set t \<longrightarrow> run up w s ts = Ended Stopped w1 (cleanup w1))
               \<and> (\<forall>reason w2 evs. \<not> stop_is_set t \<and> loop_body up t w1 0 = Exit reason w2 evs
                    \<longrightarrow> run up w s ts = Ended reason w2 (evs @ cleanup w2)))
       \<and> ((\<exists>t\<in>set ts. stop_is_set t) \<longrightarrow> (\<exists>reason w' evs. run up w s ts = Ended reason w' evs))"
proof -
  obtain p where p: "up (url w) = Returned p" using parse by (cases "up (url w)") auto
  then have d: "domain_from_url up (url w) = Returned (netloc p)"
    by (simp add: domain_from_url_def)
  obtain ok w1 where st: "startup (netloc p) w s = (ok, w1)"
    by (cases "startup (netloc p) w s")
  note sc = startup_const[OF st]
  have a: "case run up w s ts of
           Propagated \<Rightarrow> False
         | Running w' evs \<Rightarrow> filter is_finish evs = []
         | Ended reason w' evs \<Rightarrow>
             filter is_finish evs = [OnFinish (elapsed_seconds w') (completed w')]
             \<and> last evs = OnFinish (elapsed_seconds w') (completed w')
             \<and> (completed w' \<longleftrightarrow> reason = Completed)"
  proof (cases ok)
    case False
    then show ?thesis using d st sc cb new cleanup_with_callback[of w1 "[]"]
      by (simp add: run_def)
  next
    case True
    obtain r w2 evs where rl: "run_loop up ts w1 0 = (r, w2, evs)"
      by (cases "run_loop up ts w1 0")
    have nf: "filter is_finish evs = []"
      using run_loop_events[of _ up ts w1 0] rl by (intro filter_no_finish) auto
    have cb2: "on_finish w2" using run_loop_on_finish[of up ts w1 0] rl sc cb by simp
    have fl: "completed w2 = (r = Some Completed)"
      using run_loop_flags[OF rl] sc new by simp
    show ?thesis
    proof (cases r)
      case None
      then show ?thesis using d st True rl nf by (simp add: run_def)
    next
      case (Some reason)
      then show ?thesis using d st True rl nf fl cleanup_with_callback[OF cb2, of evs]
        by (simp add: run_def)
    qed
  qed
  have b: "\<forall>domain w1. domain_from_url up (url w) = Returned domain
             \<and> startup domain w s = (False, w1)
           \<longrightarrow> run up w s ts = Ended Crashed w1 (cleanup w1)"
    by (simp add: run_def)
  have c: "\<forall>domain w1 reason w2 evs. domain_from_url up (url w) = Returned domain
             \<and> startup domain w s = (True, w1)
             \<and> run_loop up ts w1 0 = (Some reason, w2, evs)
           \<longrightarrow> run up w s ts = Ended reason w2 (evs @ cleanup w2)"
    by (simp add: run_def)
  have e: "\<forall>domain w1 t rest. domain_from_url up (url w) = Returned domain
             \<and> startup domain w s = (True, w1) \<and> ts = t # rest
           \<longrightarrow> (stop_is_set t \<longrightarrow> run up w s ts = Ended Stopped w1 (cleanup w1))
               \<and> (\<forall>reason w2 evs. \<not> stop_is_set t \<and> loop_body up t w1 0 = Exit reason w2 evs
                    \<longrightarrow> run up w s ts = Ended reason w2 (evs @ cleanup w2))"
    by (simp add: run_def)
  have f: "(\<exists>t\<in>set ts. stop_is_set t) \<longrightarrow> (\<exists>reason w' evs. run up w s ts = Ended reason w' evs)"
  proof
    assume ex: "\<exists>t\<in>set ts. stop_is_set t"
    show "\<exists>reason w' evs. run up w s ts = Ended reason w' evs"
    proof (cases ok)
      case False
      then show ?thesis using d st by (simp add: run_def)
    next
      case True
      obtain r w2 evs where rl: "run_loop up ts w1 0 = (r, w2, evs)"
        by (cases "run_loop up ts w1 0")
      with run_loop_stops[OF ex, of up w1 0] obtain reason where "r = Some reason" by auto
      then show ?thesis using d st True rl by (simp add: run_def)
    qed
  qed
  from a b c e f show ?thesis by blast
qed

text \<open>
  Runs of newly constructed sessions on every exit path: one that completes in its first
  iteration, one whose browser cannot be launched, one that finds the stop flag set, one
  that ends as offline after two fresh negative probes, one that ends in the wrong
  category, and one in which \<open>on_update\<close> raises.
\<close>

theorem on_finish_once_and_last_witness:
  "on_finish new_campaign_session \<and> \<not> completed new_campaign_session
   \<and> kick_urlparse (url new_campaign_session) \<noteq> Raised
   \<and> (case run kick_urlparse new_campaign_session browser_ok [total_600] of
         Propagated \<Rightarrow> False
       | Running w' evs \<Rightarrow> filter is_finish evs = []
       | Ended reason w' evs \<Rightarrow>
           filter is_finish evs = [OnFinish 1 True] \<and> last evs = OnFinish 1 True
           \<and> completed w' \<and> reason = Completed)
   \<and> (case run kick_urlparse new_campaign_session no_browser [total_600] of
         Propagated \<Rightarrow> False
       | Running w' evs \<Rightarrow> filter is_finish evs = []
       | Ended reason w' evs \<Rightarrow>
           filter is_finish evs = [OnFinish 0 False] \<and> last evs = OnFinish 0 False
           \<and> \<not> completed w' \<and> reason = Crashed)
   \<and> (case run kick_urlparse new_campaign_session browser_ok [stop_requested] of
         Propagated \<Rightarrow> False
       | Running w' evs \<Rightarrow> False
       | Ended reason w' evs \<Rightarrow>
           filter is_finish evs = [OnFinish 0 False] \<and> last evs = OnFinish 0 False
           \<and> \<not> completed w' \<and> reason = Stopped)
   \<and> (case run kick_urlparse new_campaign_session browser_ok
              [probe_tick 100 offline_reply, probe_tick 106 offline_reply] of
         Propagated \<Rightarrow> False
       | Running w' evs \<Rightarrow> False
       | Ended reason w' evs \<Rightarrow>
           filter is_finish evs = [OnFinish 0 False] \<and> last evs = OnFinish 0 False
           \<and> \<not> completed w' \<and> reason = Offline)
   \<and> on_finish new_demo_session \<and> \<not> completed new_demo_session
   \<and> kick_urlparse (url new_demo_session) \<noteq> Raised
   \<and> (case run kick_urlparse new_demo_session browser_ok [in_category_7] of
         Propagated \<Rightarrow> False
       | Running w' evs \<Rightarrow> False
       | Ended reason w' evs \<Rightarrow>
           filter is_finish evs = [OnFinish 0 False] \<and> last evs = OnFinish 0 False
           \<and> \<not> completed w' \<and> reason = WrongCategory)
   \<and> (case run kick_urlparse new_campaign_session browser_ok [update_raises] of
         Propagated \<Rightarrow> False
       | Running w' evs \<Rightarrow> False
       | Ended reason w' evs \<Rightarrow>
           filter is_finish evs = [OnFinish 1 False] \<and> last evs = OnFinish 1 False
           \<and> \<not> completed w' \<and> reason = Crashed)
   \<and> run kick_urlparse new_campaign_session no_browser [total_600]
       = Ended Crashed new_campaign_session (cleanup new_campaign_session)
   \<and> run kick_urlparse new_campaign_session browser_ok [total_600]
       = Ended Completed (campaign_worker\<lparr>elapsed_seconds := 1, completed := True\<rparr>)
           ([OnUpdate 1 True, CumulativeTimeCall]
            @ cleanup (campaign_worker\<lparr>elapsed_seconds := 1, completed := True\<rparr>))
   \<and> run kick_urlparse new_campaign_session browser_ok [stop_requested]
       = Ended Stopped campaign_worker (cleanup campaign_worker)
   \<and> run kick_urlparse new_campaign_session browser_ok [update_raises]
       = Ended Crashed (campaign_worker\<lparr>elapsed_seconds := 1\<rparr>)
           ([OnUpdate 1 True] @ cleanup (campaign_worker\<lparr>elapsed_seconds := 1\<rparr>))
   \<and> (\<exists>reason w' evs.
         run kick_urlparse new_campaign_session browser_ok [total_600, stop_requested]
           = Ended reason w' evs)"
proof -
  have h: "on_finish new_campaign_session" "\<not> completed new_campaign_session"
          "kick_urlparse (url new_campaign_session) \<noteq> Raised"
    by (simp_all add: new_campaign_session_def StreamWorker_init_def kick_urlparse_def)
  have h2: "on_finish new_demo_session" "\<not> completed new_demo_session"
          "kick_urlparse (url new_demo_session) \<noteq> Raised"
    by (simp_all add: new_demo_session_def StreamWorker_init_def kick_urlparse_def)
  have e: "elapsed_seconds (campaign_worker\<lparr>elapsed_seconds := 1, completed := True\<rparr>) = 1"
          "completed (campaign_worker\<lparr>elapsed_seconds := 1, completed := True\<rparr>)"
          "elapsed_seconds new_campaign_session = 0"
    by (simp_all add: new_campaign_session_def StreamWorker_init_def)
  note t1 = on_finish_once_and_last[of new_campaign_session kick_urlparse browser_ok
              "[total_600]", OF h, THEN conjunct1, unfolded campaign_run_eval]
  note t2 = on_finish_once_and_last[of new_campaign_session kick_urlparse no_browser
              "[total_600]", OF h, THEN conjunct1, unfolded no_browser_run_eval]
  note t3 = on_finish_once_and_last[of new_campaign_session kick_urlparse browser_ok
              "[stop_requested]", OF h, THEN conjunct1, unfolded stop_run_eval]
  note t4 = on_finish_once_and_last[of new_campaign_session kick_urlparse browser_ok
              "[probe_tick 100 offline_reply, probe_tick 106 offline_reply]", OF h,
              THEN conjunct1, unfolded offline_run_eval]
  note t5 = on_finish_once_and_last[of new_demo_session kick_urlparse browser_ok
              "[in_category_7]", OF h2, THEN conjunct1, unfolded wrong_category_run_eval]
  note t6 = on_finish_once_and_last[of new_campaign_session kick_urlparse browser_ok
              "[update_raises]", OF h, THEN conjunct1, unfolded crash_run_eval]
  have a: "case run kick_urlparse new_campaign_session browser_ok [total_600] of
         Propagated \<Rightarrow> False
       | Running w' evs \<Rightarrow> filter is_finish evs = []
       | Ended reason w' evs \<Rightarrow>
           filter is_finish evs = [OnFinish 1 True] \<and> last evs = OnFinish 1 True
           \<and> completed w' \<and> reason = Completed"
    unfolding campaign_run_eval using t1 by (simp add: e)
  have b: "case run kick_urlparse new_campaign_session no_browser [total_600] of
         Propagated \<Rightarrow> False
       | Running w' evs \<Rightarrow> filter is_finish evs = []
       | Ended reason w' evs \<Rightarrow>
           filter is_finish evs = [OnFinish 0 False] \<and> last evs = OnFinish 0 False
           \<and> \<not> completed w' \<and> reason = Crashed"
    unfolding no_browser_run_eval using t2 by (simp add: e h)
  have c: "case run kick_urlparse new_campaign_session browser_ok [stop_requested] of
         Propagated \<Rightarrow> False
       | Running w' evs \<Rightarrow> False
       | Ended reason w' evs \<Rightarrow>
           filter is_finish evs = [OnFinish 0 False] \<and> last evs = OnFinish 0 False
           \<and> \<not> completed w' \<and> reason = Stopped"
    unfolding stop_run_eval using t3 by (simp add: campaign_cleanup)
  have d: "case run kick_urlparse new_campaign_session browser_ok
              [probe_tick 100 offline_reply, probe_tick 106 offline_reply] of
         Propagated \<Rightarrow> False
       | Running w' evs \<Rightarrow> False
       | Ended reason w' evs \<Rightarrow>
           filter is_finish evs = [OnFinish 0 False] \<and> last evs = OnFinish 0 False
           \<and> \<not> completed w' \<and> reason = Offline"
    unfolding offline_run_eval using t4 by (simp add: campaign_cleanup)
  have f: "case run kick_urlparse new_demo_session browser_ok [in_category_7] of
         Propagated \<Rightarrow> False
       | Running w' evs \<Rightarrow> False
       | Ended reason w' evs \<Rightarrow>
           filter is_finish evs = [OnFinish 0 False] \<and> last evs = OnFinish 0 False
           \<and> \<not> completed w' \<and> reason = WrongCategory"
    unfolding wrong_category_run_eval using t5 by (simp add: demo_worker_fields)
  have g: "case run kick_urlparse new_campaign_session browser_ok [update_raises] of
         Propagated \<Rightarrow> False
       | Running w' evs \<Rightarrow> False
       | Ended reason w' evs \<Rightarrow>
           filter is_finish evs = [OnFinish 1 False] \<and> last evs = OnFinish 1 False
           \<and> \<not> completed w' \<and> reason = Crashed"
    unfolding crash_run_eval using t6 by (simp add: campaign_cleanup)
  have dm: "domain_from_url kick_urlparse (url new_campaign_session) = Returned ''kick.com''"
    by (rule session_domains)
  have s0: "startup ''kick.com'' new_campaign_session no_browser = (False, new_campaign_session)"
    by (simp add: startup_def no_browser_def browser_ok_def)
  have s1: "startup ''kick.com'' new_campaign_session browser_ok = (True, campaign_worker)"
    by (rule session_domains)
  have rl: "run_loop kick_urlparse [total_600] campaign_worker 0
      = (Some Completed, campaign_worker\<lparr>elapsed_seconds := 1, completed := True\<rparr>,
         [OnUpdate 1 True, CumulativeTimeCall])"
    by (simp add: total_600_eval) (simp add: total_600_def probe_tick_def)
  have fl: "stop_is_set stop_requested" "\<not> stop_is_set update_raises"
    by (simp_all add: stop_requested_def update_raises_def probe_tick_def)
  have i: "run kick_urlparse new_campaign_session no_browser [total_600]
       = Ended Crashed new_campaign_session (cleanup new_campaign_session)"
    using on_finish_once_and_last[of new_campaign_session kick_urlparse no_browser
              "[total_600]", OF h, THEN conjunct2, THEN conjunct1] dm s0
    by blast
  have j: "run kick_urlparse new_campaign_session browser_ok [total_600]
       = Ended Completed (campaign_worker\<lparr>elapsed_seconds := 1, completed := True\<rparr>)
           ([OnUpdate 1 True, CumulativeTimeCall]
            @ cleanup (campaign_worker\<lparr>elapsed_seconds := 1, completed := True\<rparr>))"
    using on_finish_once_and_last[of new_campaign_session kick_urlparse browser_ok
              "[total_600]", OF h, THEN conjunct2, THEN conjunct2, THEN conjunct1] dm s1 rl
    by blast
  have k: "run kick_urlparse new_campaign_session browser_ok [stop_requested]
       = Ended Stopped campaign_worker (cleanup campaign_worker)"
    using on_finish_once_and_last[of new_campaign_session kick_urlparse browser_ok
              "[stop_requested]", OF h, THEN conjunct2, THEN conjunct2, THEN conjunct2,
              THEN conjunct1] dm s1 fl(1)
    by blast
  have l: "run kick_urlparse new_campaign_session browser_ok [update_raises]
       = Ended Crashed (campaign_worker\<lparr>elapsed_seconds := 1\<rparr>)
           ([OnUpdate 1 True] @ cleanup (campaign_worker\<lparr>elapsed_seconds := 1\<rparr>))"
    using on_finish_once_and_last[of new_campaign_session kick_urlparse browser_ok
              "[update_raises]", OF h, THEN conjunct2, THEN conjunct2, THEN conjunct2,
              THEN conjunct1] dm s1 fl(2) update_raises_eval
    by blast
  have st2: "\<exists>t\<in>set [total_600, stop_requested]. stop_is_set t"
    by (simp add: stop_requested_def)
  have m: "\<exists>reason w' evs.
         run kick_urlparse new_campaign_session browser_ok [total_600, stop_requested]
           = Ended reason w' evs"
    using on_finish_once_and_last[of new_campaign_session kick_urlparse browser_ok
              "[total_600, stop_requested]", OF h, THEN conjunct2, THEN conjunct2,
              THEN conjunct2, THEN conjunct2] st2
    by blast
  from h h2 a b c d f g i j k l m show ?thesis by blast
qed

section \<open>The choice of the next channel\<close>

lemma candidate_iff:
  "candidate cur tried ch = Some a
   \<longleftrightarrow> channel_url ch = Some a \<and> a \<noteq> [] \<and> a \<noteq> cur \<and> a \<notin> set tried"
  by (auto simp: candidate_def split: option.splits)

lemma find_alternative_None:
  "find_alternative up net cur tried i chs = None \<longleftrightarrow>
   (\<forall>j<length chs. \<forall>a. candidate cur tried (chs ! j) = Some a
        \<longrightarrow> \<not> kick_is_live_by_api up (net (i + j)) a)"
proof (induction chs arbitrary: i)
  case Nil
  then show ?case by simp
next
  case (Cons ch chs)
  have "(\<forall>j<length (ch # chs). \<forall>a. candidate cur tried ((ch # chs) ! j) = Some a
            \<longrightarrow> \<not> kick_is_live_by_api up (net (i + j)) a)
        \<longleftrightarrow> (\<forall>a. candidate cur tried ch = Some a \<longrightarrow> \<not> kick_is_live_by_api up (net i) a)
            \<and> (\<forall>j<length chs. \<forall>a. candidate cur tried (chs ! j) = Some a
                \<longrightarrow> \<not> kick_is_live_by_api up (net (Suc i + j)) a)"
    by (auto simp: nth_Cons split: nat.splits)
  then show ?case using Cons.IH[of "Suc i"]
    by (auto split: option.splits)
qed

lemma find_alternative_Some:
  "find_alternative up net cur tried i chs = Some c \<Longrightarrow>
   \<exists>pre ch post. chs = pre @ ch # post \<and> candidate cur tried ch = Some c
      \<and> kick_is_live_by_api up (net (i + length pre)) c
      \<and> find_alternative up net cur tried i pre = None"
proof (induction chs arbitrary: i)
  case Nil
  then show ?case by simp
next
  case (Cons ch chs)
  show ?case
  proof (cases "\<exists>a. candidate cur tried ch = Some a \<and> kick_is_live_by_api up (net i) a")
    case True
    then have "candidate cur tried ch = Some c \<and> kick_is_live_by_api up (net i) c"
      using Cons.prems by auto
    then show ?thesis by (intro exI[of _ "[]"] exI[of _ ch] exI[of _ chs]) simp
  next
    case False
    then have rest: "find_alternative up net cur tried (Suc i) chs = Some c"
      and skip: "find_alternative up net cur tried i [ch] = None"
      using Cons.prems by (auto split: option.splits if_splits)
    from Cons.IH[OF rest] obtain pre ch' post where
      p: "chs = pre @ ch' # post" "candidate cur tried ch' = Some c"
         "kick_is_live_by_api up (net (Suc i + length pre)) c"
         "find_alternative up net cur tried (Suc i) pre = None"
      by blast
    have "find_alternative up net cur tried i (ch # pre) = None"
      using skip p(4) by (auto split: option.splits if_splits)
    then show ?thesis using p
      by (intro exI[of _ "ch # pre"] exI[of _ ch'] exI[of _ post]) simp
  qed
qed

lemma current_in_all: "cur \<in> set (all_channel_urls cur chs)"
  by (simp add: all_channel_urls_def Let_def)

lemma all_channel_urls_nonempty: "all_channel_urls cur chs \<noteq> []"
  using current_in_all[of cur chs] by auto

lemma reset_shorter:
  "length (reset_if_exhausted tried (all_channel_urls cur chs)) < length (all_channel_urls cur chs)"
  using all_channel_urls_nonempty[of cur chs] by (auto simp: reset_if_exhausted_def)

lemma covered_is_reset:
  assumes "distinct urls" "set urls \<subseteq> set tried"
  shows "length urls \<le> length tried"
proof -
  have "length urls = card (set urls)" using assms(1) by (simp add: distinct_card)
  also have "\<dots> \<le> card (set tried)" using assms(2) by (simp add: card_mono)
  also have "\<dots> \<le> length tried" by (rule card_length)
  finally show ?thesis .
qed

text \<open>
  C5. For an item with a campaign and sibling channels, after a session that ended offline
  or in the wrong category. Let \<open>tried\<close> be the tried list with which the scan runs: the
  stored list with the current address put on it, emptied when it is as long as the list
  of candidate addresses (siblings and current channel). When the candidate addresses are
  distinct and the stored list covers them all, \<open>tried\<close> is empty. The channel switched
  to is the first sibling, in stored order, whose address is not the current one, is not
  in \<open>tried\<close> and is answered live by the direct probe; the item gets that address, and
  \<open>tried\<close> with the address appended. When there is no such sibling nothing is selected
  and the item keeps \<open>tried\<close>: nothing is cleared beyond the reset, and without a reset
  every stored entry is kept.
\<close>

theorem switch_channel_first_live_untried:
  assumes camp: "truthy (campaign_id it)" and sib: "campaign_channels it \<noteq> []"
      and tried: "tried = reset_if_exhausted
                            (mark_current_tried (item_url it) (tried_channels it))
                            (all_channel_urls (item_url it) (campaign_channels it))"
  shows "(distinct (all_channel_urls (item_url it) (campaign_channels it))
            \<and> set (all_channel_urls (item_url it) (campaign_channels it))
                 \<subseteq> set (tried_channels it)
          \<longrightarrow> tried = [])
       \<and> (\<forall>c. snd (switch_channel up net it) = Some c \<longrightarrow>
            (\<exists>pre ch post. campaign_channels it = pre @ ch # post
                \<and> channel_url ch = Some c \<and> c \<noteq> [] \<and> c \<noteq> item_url it \<and> c \<notin> set tried
                \<and> kick_is_live_by_api up (net (length pre)) c
                \<and> (\<forall>j<length pre. \<forall>a. channel_url (pre ! j) = Some a \<and> a \<noteq> []
                        \<and> a \<noteq> item_url it \<and> a \<notin> set tried
                      \<longrightarrow> \<not> kick_is_live_by_api up (net j) a))
            \<and> fst (switch_channel up net it)
                = it\<lparr>item_url := c, tried_channels := tried @ [c]\<rparr>)
       \<and> (snd (switch_channel up net it) = None \<longrightarrow>
            (\<forall>j<length (campaign_channels it). \<forall>a.
                channel_url (campaign_channels it ! j) = Some a \<and> a \<noteq> []
                  \<and> a \<noteq> item_url it \<and> a \<notin> set tried
                \<longrightarrow> \<not> kick_is_live_by_api up (net j) a)
            \<and> fst (switch_channel up net it) = it\<lparr>tried_channels := tried\<rparr>)
       \<and> (length (mark_current_tried (item_url it) (tried_channels it))
              < length (all_channel_urls (item_url it) (campaign_channels it))
          \<longrightarrow> set (tried_channels it) \<subseteq> set tried)"
proof -
  let ?cur = "item_url it"
  let ?urls = "all_channel_urls ?cur (campaign_channels it)"
  let ?t1 = "mark_current_tried ?cur (tried_channels it)"
  let ?found = "find_alternative up net ?cur tried 0 (campaign_channels it)"
  have sw: "switch_channel up net it =
      (case ?found of
         Some alt_url \<Rightarrow> (it\<lparr>item_url := alt_url, tried_channels := tried @ [alt_url]\<rparr>, Some alt_url)
       | None \<Rightarrow> (it\<lparr>tried_channels := tried\<rparr>, None))"
    unfolding tried
    using camp sib reset_shorter[of ?t1 ?cur "campaign_channels it"]
    by (simp add: switch_channel_def Let_def)
  have a: "distinct ?urls \<and> set ?urls \<subseteq> set (tried_channels it) \<longrightarrow> tried = []"
  proof
    assume h: "distinct ?urls \<and> set ?urls \<subseteq> set (tried_channels it)"
    then have "?cur \<in> set (tried_channels it)" using current_in_all[of ?cur] by blast
    then have "?t1 = tried_channels it" by (simp add: mark_current_tried_def)
    moreover have "length ?urls \<le> length (tried_channels it)"
      using h covered_is_reset by blast
    ultimately show "tried = []" using tried by (simp add: reset_if_exhausted_def)
  qed
  have b: "\<forall>c. snd (switch_channel up net it) = Some c \<longrightarrow>
            (\<exists>pre ch post. campaign_channels it = pre @ ch # post
                \<and> channel_url ch = Some c \<and> c \<noteq> [] \<and> c \<noteq> item_url it \<and> c \<notin> set tried
                \<and> kick_is_live_by_api up (net (length pre)) c
                \<and> (\<forall>j<length pre. \<forall>a. channel_url (pre ! j) = Some a \<and> a \<noteq> []
                        \<and> a \<noteq> item_url it \<and> a \<notin> set tried
                      \<longrightarrow> \<not> kick_is_live_by_api up (net j) a))
            \<and> fst (switch_channel up net it)
                = it\<lparr>item_url := c, tried_channels := tried @ [c]\<rparr>"
  proof (intro allI impI)
    fix c assume "snd (switch_channel up net it) = Some c"
    then have f: "?found = Some c" using sw by (auto split: option.splits)
    from find_alternative_Some[OF f] obtain pre ch post where
      p: "campaign_channels it = pre @ ch # post" "candidate ?cur tried ch = Some c"
         "kick_is_live_by_api up (net (0 + length pre)) c"
         "find_alternative up net ?cur tried 0 pre = None"
      by blast
    have e: "\<forall>j<length pre. \<forall>a. channel_url (pre ! j) = Some a \<and> a \<noteq> []
                        \<and> a \<noteq> item_url it \<and> a \<notin> set tried
                      \<longrightarrow> \<not> kick_is_live_by_api up (net j) a"
      using p(4) by (simp add: find_alternative_None candidate_iff)
    show "(\<exists>pre ch post. campaign_channels it = pre @ ch # post
                \<and> channel_url ch = Some c \<and> c \<noteq> [] \<and> c \<noteq> item_url it \<and> c \<notin> set tried
                \<and> kick_is_live_by_api up (net (length pre)) c
                \<and> (\<forall>j<length pre. \<forall>a. channel_url (pre ! j) = Some a \<and> a \<noteq> []
                        \<and> a \<noteq> item_url it \<and> a \<notin> set tried
                      \<longrightarrow> \<not> kick_is_live_by_api up (net j) a))
            \<and> fst (switch_channel up net it)
                = it\<lparr>item_url := c, tried_channels := tried @ [c]\<rparr>"
      using p e f sw by (auto simp: candidate_iff)
  qed
  have c: "snd (switch_channel up net it) = None \<longrightarrow>
            (\<forall>j<length (campaign_channels it). \<forall>a.
                channel_url (campaign_channels it ! j) = Some a \<and> a \<noteq> []
                  \<and> a \<noteq> item_url it \<and> a \<notin> set tried
                \<longrightarrow> \<not> kick_is_live_by_api up (net j) a)
            \<and> fst (switch_channel up net it) = it\<lparr>tried_channels := tried\<rparr>"
  proof
    assume "snd (switch_channel up net it) = None"
    then have f: "?found = None" using sw by (auto split: option.splits)
    have n: "\<forall>j<length (campaign_channels it). \<forall>a.
                channel_url (campaign_channels it ! j) = Some a \<and> a \<noteq> []
                  \<and> a \<noteq> item_url it \<and> a \<notin> set tried
                \<longrightarrow> \<not> kick_is_live_by_api up (net j) a"
      using f by (simp add: find_alternative_None candidate_iff)
    have "fst (switch_channel up net it) = it\<lparr>tried_channels := tried\<rparr>"
      using f sw by simp
    with n show "(\<forall>j<length (campaign_channels it). \<forall>a.
                channel_url (campaign_channels it ! j) = Some a \<and> a \<noteq> []
                  \<and> a \<noteq> item_url it \<and> a \<notin> set tried
                \<longrightarrow> \<not> kick_is_live_by_api up (net j) a)
            \<and> fst (switch_channel up net it) = it\<lparr>tried_channels := tried\<rparr>"
      by blast
  qed
  have d: "length ?t1 < length ?urls \<longrightarrow> set (tried_channels it) \<subseteq> set tried"
    using tried by (auto simp: reset_if_exhausted_def mark_current_tried_def)
  from a b c d show ?thesis by blast
qed

lemma only_carol_live_probes:
  "\<not> kick_is_live_by_api kick_urlparse (only_carol_live i) ''https://kick.com/alice''"
  "\<not> kick_is_live_by_api kick_urlparse (only_carol_live i) ''https://kick.com/bob''"
  "kick_is_live_by_api kick_urlparse (only_carol_live i) ''https://kick.com/carol''"
  by (simp_all add: kick_is_live_by_api_def kick_live_status_by_api_def kick_urlparse_def
      strip_slashes_def first_segment_def channel_api_url_def only_carol_live_def
      livestream_is_live_def)

lemma three_channels_tried:
  "reset_if_exhausted (mark_current_tried (item_url three_channels) (tried_channels three_channels))
     (all_channel_urls (item_url three_channels) (campaign_channels three_channels))
   = [''https://kick.com/alice'']"
  by (simp add: three_channels_def mark_current_tried_def all_channel_urls_def
      reset_if_exhausted_def)

lemma all_tried_urls:
  "all_channel_urls (item_url all_tried) (campaign_channels all_tried)
     = [''https://kick.com/alice'', ''https://kick.com/bob'']"
  "mark_current_tried (item_url all_tried) (tried_channels all_tried)
     = [''https://kick.com/alice'', ''https://kick.com/bob'']"
  by (simp_all add: all_tried_def mark_current_tried_def all_channel_urls_def)

lemma three_channels_found:
  "snd (switch_channel kick_urlparse only_carol_live three_channels) = Some ''https://kick.com/carol''"
  using three_channels_tried
  by (simp add: switch_channel_def Let_def)
     (simp add: three_channels_def candidate_def only_carol_live_probes)

lemma all_tried_found:
  "snd (switch_channel kick_urlparse only_carol_live all_tried) = None"
  by (simp add: switch_channel_def Let_def all_tried_urls reset_if_exhausted_def)
     (simp add: all_tried_def candidate_def only_carol_live_probes)

text \<open>
  Siblings alice, bob, carol with alice tried and only carol live: carol is selected and
  the tried list becomes alice, carol. With both of two channels tried the list is reset,
  and with no live sibling it stays empty.
\<close>

theorem switch_channel_first_live_untried_witness:
  "switch_channel kick_urlparse only_carol_live three_channels
     = (three_channels\<lparr>item_url := ''https://kick.com/carol'',
          tried_channels := [''https://kick.com/alice'', ''https://kick.com/carol'']\<rparr>,
        Some ''https://kick.com/carol'')
   \<and> reset_if_exhausted (mark_current_tried (item_url all_tried) (tried_channels all_tried))
        (all_channel_urls (item_url all_tried) (campaign_channels all_tried)) = []
   \<and> switch_channel kick_urlparse only_carol_live all_tried
        = (all_tried\<lparr>tried_channels := []\<rparr>, None)
   \<and> set (tried_channels three_channels) \<subseteq> {''https://kick.com/alice''}"
proof -
  have h3: "truthy (campaign_id three_channels)" "campaign_channels three_channels \<noteq> []"
    by (simp_all add: three_channels_def)
  have h2: "truthy (campaign_id all_tried)" "campaign_channels all_tried \<noteq> []"
    by (simp_all add: all_tried_def)
  note t3 = switch_channel_first_live_untried[OF h3 three_channels_tried[symmetric],
              of kick_urlparse only_carol_live]
  note t2 = switch_channel_first_live_untried[OF h2 refl, of kick_urlparse only_carol_live]
  have a: "fst (switch_channel kick_urlparse only_carol_live three_channels)
      = three_channels\<lparr>item_url := ''https://kick.com/carol'',
          tried_channels := [''https://kick.com/alice'', ''https://kick.com/carol'']\<rparr>"
    using t3[THEN conjunct2, THEN conjunct1, rule_format, OF three_channels_found] by simp
  have b: "reset_if_exhausted (mark_current_tried (item_url all_tried) (tried_channels all_tried))
        (all_channel_urls (item_url all_tried) (campaign_channels all_tried)) = []"
    using t2[THEN conjunct1] by (simp add: all_tried_urls) (simp add: all_tried_def)
  have c: "fst (switch_channel kick_urlparse only_carol_live all_tried)
      = all_tried\<lparr>tried_channels := []\<rparr>"
    using t2[THEN conjunct2, THEN conjunct2, THEN conjunct1, rule_format, OF all_tried_found] b
    by simp
  have d: "set (tried_channels three_channels) \<subseteq> {''https://kick.com/alice''}"
    using t3[THEN conjunct2, THEN conjunct2, THEN conjunct2]
    by (simp add: three_channels_def mark_current_tried_def all_channel_urls_def)
  from a b c d three_channels_found all_tried_found show ?thesis
    by (simp add: prod_eq_iff)
qed

end
